(* ===== verification/Prelude.thy ===== *)
theory Prelude
  imports Complex_Main "HOL-Library.AList" "HOL-Library.Char_ord" "HOL-Library.List_Lexorder"
begin

text \<open>
  Shared vocabulary of the development: the error monad every fallible Python function is
  written in (\<open>Inl\<close> carries the exception, \<open>Inr\<close> the returned value), the
  \<open>AList\<close> reading of Python dictionaries (insertion order, one entry per key), and the
  decimal text of integers.  Nothing in here mentions the program; the component theories
  import it and add their facts to the collections declared first.
\<close>

named_theorems res_simps "unfolding and splitting of the error monad"
named_theorems ok_intros "introduction rules for successful runs of operations"

section \<open>The error monad\<close>

definition ebind :: "'e + 'a \<Rightarrow> ('a \<Rightarrow> 'e + 'b) \<Rightarrow> 'e + 'b" where
  "ebind m f = (case m of Inl e \<Rightarrow> Inl e | Inr x \<Rightarrow> f x)"

definition ensure :: "bool \<Rightarrow> 'e \<Rightarrow> 'e + unit" where
  "ensure b e = (if b then Inr () else Inl e)"

fun emap :: "('a \<Rightarrow> 'e + 'b) \<Rightarrow> 'a list \<Rightarrow> 'e + 'b list" where
  "emap f [] = Inr []"
| "emap f (x # xs) = ebind (f x) (\<lambda>y. ebind (emap f xs) (\<lambda>ys. Inr (y # ys)))"

definition of_error :: "'e option \<Rightarrow> 'a \<Rightarrow> 'e + 'a" where
  "of_error e x = (case e of None \<Rightarrow> Inr x | Some err \<Rightarrow> Inl err)"

definition is_ok :: "'e + 'a \<Rightarrow> bool" where
  "is_ok m = (case m of Inl _ \<Rightarrow> False | Inr _ \<Rightarrow> True)"

lemma ebind_Inl [simp]: "ebind (Inl e) f = Inl e"
  by (simp add: ebind_def)

lemma ebind_Inr [simp]: "ebind (Inr x) f = f x"
  by (simp add: ebind_def)

lemma ebind_assoc: "ebind (ebind m f) g = ebind m (\<lambda>x. ebind (f x) g)"
  by (cases m) simp_all

lemma ebind_eq_Inr [res_simps]: "ebind m f = Inr y \<longleftrightarrow> (\<exists>x. m = Inr x \<and> f x = Inr y)"
  by (cases m) simp_all

lemma ebind_eq_Inl [res_simps]:
  "ebind m f = Inl e \<longleftrightarrow> m = Inl e \<or> (\<exists>x. m = Inr x \<and> f x = Inl e)"
  by (cases m) simp_all

lemma ebind_cong [fundef_cong]:
  "m = m' \<Longrightarrow> (\<And>x. m' = Inr x \<Longrightarrow> f x = g x) \<Longrightarrow> ebind m f = ebind m' g"
  by (cases m') simp_all

lemma ensure_eq_Inr [simp]: "ensure b e = Inr u \<longleftrightarrow> b"
  by (simp add: ensure_def)

lemma ensure_eq_Inl [simp]: "ensure b e = Inl e' \<longleftrightarrow> \<not> b \<and> e' = e"
  by (auto simp: ensure_def)

lemma ensure_True [simp]: "ensure True e = Inr ()"
  by (simp add: ensure_def)

lemma ensure_False [simp]: "ensure False e = Inl e"
  by (simp add: ensure_def)

lemma of_error_eq_Inr [simp]: "of_error e x = Inr y \<longleftrightarrow> e = None \<and> y = x"
  by (auto simp: of_error_def split: option.splits)

lemma of_error_eq_Inl [simp]: "of_error e x = Inl err \<longleftrightarrow> e = Some err"
  by (auto simp: of_error_def split: option.splits)

lemma of_error_None [simp]: "of_error None x = Inr x"
  by (simp add: of_error_def)

lemma of_error_Some [simp]: "of_error (Some e) x = Inl e"
  by (simp add: of_error_def)

lemma is_ok_simps [simp]: "is_ok (Inr x)" "\<not> is_ok (Inl e)"
  by (simp_all add: is_ok_def)

lemma is_ok_iff: "is_ok m \<longleftrightarrow> (\<exists>x. m = Inr x)"
  by (cases m) simp_all

lemma emap_cong [fundef_cong]:
  "xs = ys \<Longrightarrow> (\<And>x. x \<in> set ys \<Longrightarrow> f x = g x) \<Longrightarrow> emap f xs = emap g ys"
proof (induction ys arbitrary: xs)
  case Nil
  then show ?case by simp
next
  case (Cons y ys)
  then show ?case by simp
qed

lemma emap_Inr_iff: "emap f xs = Inr ys \<longleftrightarrow> list_all2 (\<lambda>x y. f x = Inr y) xs ys"
  by (induction xs arbitrary: ys) (auto simp: ebind_eq_Inr list_all2_Cons1)

lemma emap_length: "emap f xs = Inr ys \<Longrightarrow> length ys = length xs"
  by (simp add: emap_Inr_iff list_all2_lengthD)

lemma emap_set: "emap f xs = Inr ys \<Longrightarrow> y \<in> set ys \<Longrightarrow> \<exists>x\<in>set xs. f x = Inr y"
  by (force simp: emap_Inr_iff list_all2_conv_all_nth in_set_conv_nth)

lemma emap_all_ok: "(\<And>x. x \<in> set xs \<Longrightarrow> f x = Inr (g x)) \<Longrightarrow> emap f xs = Inr (map g xs)"
  by (induction xs) auto

section \<open>Dictionaries as association lists\<close>

text \<open>
  A Python dictionary is its list of items in insertion order, with distinct keys.  Reading is
  \<open>map_of\<close>; assignment is \<open>AList.update\<close>, which overwrites in place and appends a
  new key at the end, as CPython does; \<open>pop\<close> is \<open>AList.delete\<close>.
\<close>

abbreviation keys :: "('k \<times> 'v) list \<Rightarrow> 'k list" where
  "keys d \<equiv> map fst d"

abbreviation dget :: "('k \<times> 'v) list \<Rightarrow> 'k \<Rightarrow> 'v option" where
  "dget d k \<equiv> map_of d k"

definition dupdate :: "('k \<times> 'v) list \<Rightarrow> ('k \<times> 'v) list \<Rightarrow> ('k \<times> 'v) list" where
  "dupdate d new = fold (\<lambda>(k, v). AList.update k v) new d"

lemma dget_dupdate:
  "distinct (keys new) \<Longrightarrow>
   dget (dupdate d new) k = (case dget new k of Some v \<Rightarrow> Some v | None \<Rightarrow> dget d k)"
proof (induction new arbitrary: d)
  case Nil
  then show ?case by (simp add: dupdate_def)
next
  case (Cons p new)
  obtain j v where p: "p = (j, v)" by (cases p)
  from Cons.prems p have nin: "j \<notin> set (keys new)" and dist: "distinct (keys new)" by auto
  have "dget new j = None" using nin by (simp add: map_of_eq_None_iff)
  moreover have "dupdate d (p # new) = dupdate (AList.update j v d) new"
    by (simp add: dupdate_def p)
  ultimately show ?case using Cons.IH [OF dist] p
    by (auto simp: update_conv' split: option.splits)
qed

lemma distinct_dupdate: "distinct (keys d) \<Longrightarrow> distinct (keys (dupdate d new))"
  unfolding dupdate_def
  by (induction new arbitrary: d) (auto simp: distinct_update)

lemma in_keys_iff: "k \<in> set (keys d) \<longleftrightarrow> (\<exists>v. dget d k = Some v)"
  by (metis map_of_eq_None_iff not_None_eq set_map)

lemma dget_in_set: "dget d k = Some v \<Longrightarrow> (k, v) \<in> set d"
  by (rule map_of_SomeD)

lemma set_map_filter: "y \<in> set (List.map_filter f xs) \<longleftrightarrow> (\<exists>x\<in>set xs. f x = Some y)"
  by (induction xs) (auto simp: List.map_filter_def split: option.splits)

section \<open>Decimal text of integers\<close>

text \<open>The digits of a nonnegative integer, most significant first.\<close>

function int_digits :: "int \<Rightarrow> int list" where
  "int_digits n = (if n < 10 then [n] else int_digits (n div 10) @ [n mod 10])"
  by pat_completeness auto
termination
  by (relation "measure nat") auto

declare int_digits.simps [simp del]

definition digit_char :: "int \<Rightarrow> char" where
  "digit_char d = char_of (48 + d)"

definition show_pos :: "int \<Rightarrow> string" where
  "show_pos n = map digit_char (int_digits n)"

definition show_int :: "int \<Rightarrow> string" where
  "show_int i = (if i < 0 then CHR ''-'' # show_pos (- i) else show_pos i)"

definition show_nat :: "nat \<Rightarrow> string" where
  "show_nat n = show_pos (int n)"

definition is_digit :: "char \<Rightarrow> bool" where
  "is_digit c \<longleftrightarrow> 48 \<le> (of_char c :: int) \<and> (of_char c :: int) \<le> 57"

definition digit_val :: "char \<Rightarrow> int" where
  "digit_val c = of_char c - 48"

definition read_pos :: "string \<Rightarrow> int" where
  "read_pos = foldl (\<lambda>n c. 10 * n + digit_val c) 0"

lemma int_digits_range: "0 \<le> n \<Longrightarrow> d \<in> set (int_digits n) \<Longrightarrow> 0 \<le> d \<and> d < 10"
proof (induction n rule: int_digits.induct)
  case (1 n)
  show ?case
  proof (cases "n < 10")
    case True
    with 1 show ?thesis by (simp add: int_digits.simps [of n])
  next
    case False
    with 1 show ?thesis by (auto simp: int_digits.simps [of n])
  qed
qed

lemma int_digits_nonempty [simp]: "int_digits n \<noteq> []"
  by (simp add: int_digits.simps [of n])

lemma foldl_int_digits: "foldl (\<lambda>m d. 10 * m + d) 0 (int_digits n) = n"
proof (induction n rule: int_digits.induct)
  case (1 n)
  show ?case
  proof (cases "n < 10")
    case True
    then show ?thesis by (simp add: int_digits.simps [of n])
  next
    case False
    then have "foldl (\<lambda>m d. 10 * m + d) 0 (int_digits n) = 10 * (n div 10) + n mod 10"
      using 1 by (simp add: int_digits.simps [of n])
    then show ?thesis by simp
  qed
qed

lemma of_char_digit_char: "0 \<le> d \<Longrightarrow> d < 10 \<Longrightarrow> of_char (digit_char d) = 48 + d"
  by (simp add: digit_char_def)

lemma is_digit_digit_char: "0 \<le> d \<Longrightarrow> d < 10 \<Longrightarrow> is_digit (digit_char d)"
  by (simp add: is_digit_def of_char_digit_char)

lemma digit_val_digit_char: "0 \<le> d \<Longrightarrow> d < 10 \<Longrightarrow> digit_val (digit_char d) = d"
  by (simp add: digit_val_def of_char_digit_char)

lemma show_pos_digits: "0 \<le> n \<Longrightarrow> c \<in> set (show_pos n) \<Longrightarrow> is_digit c"
  by (auto simp: show_pos_def intro: is_digit_digit_char dest: int_digits_range)

lemma show_pos_nonempty [simp]: "show_pos n \<noteq> []"
  by (simp add: show_pos_def)

lemma read_pos_show_pos [simp]: "0 \<le> n \<Longrightarrow> read_pos (show_pos n) = n"
proof -
  assume n: "0 \<le> n"
  have "foldl (\<lambda>m c. 10 * m + digit_val c) a (map digit_char ds)
      = foldl (\<lambda>m d. 10 * m + d) a ds" if "\<forall>d\<in>set ds. 0 \<le> d \<and> d < 10" for a and ds
    using that by (induction ds arbitrary: a) (simp_all add: digit_val_digit_char)
  from this [of "int_digits n" 0] int_digits_range [OF n] show ?thesis
    by (simp add: read_pos_def show_pos_def foldl_int_digits)
qed

lemma show_nat_digits: "c \<in> set (show_nat n) \<Longrightarrow> is_digit c"
  using show_pos_digits [of "int n" c] by (simp add: show_nat_def)

lemma show_nat_nonempty [simp]: "show_nat n \<noteq> []"
  by (simp add: show_nat_def)

lemma read_pos_show_nat [simp]: "read_pos (show_nat n) = int n"
  by (simp add: show_nat_def)

lemma show_nat_inject [simp]: "show_nat m = show_nat n \<longleftrightarrow> m = n"
  by (metis read_pos_show_nat of_nat_eq_iff)

lemma read_pos_nonneg: "list_all is_digit s \<Longrightarrow> 0 \<le> read_pos s"
proof -
  have "0 \<le> foldl (\<lambda>n c. 10 * n + digit_val c) a s" if "list_all is_digit s" "0 \<le> a" for a s
    using that
  proof (induction s arbitrary: a)
    case Nil
    then show ?case by simp
  next
    case (Cons c s)
    then show ?case by (simp add: digit_val_def is_digit_def)
  qed
  then show "list_all is_digit s \<Longrightarrow> 0 \<le> read_pos s"
    by (simp add: read_pos_def)
qed

end
