(* ===== verification/Py_Str.thy ===== *)
theory Py_Str
  imports Prelude
begin

text \<open>
  The operations of Python's \<open>str\<close> that the program uses, and the fixed-point text of
  numbers.  A \<open>str\<close> is modelled as the list of its code points below 256 (the type
  \<open>char\<close>); the predicates on single code points (white space, line boundaries,
  printability, lower case) follow CPython's tables on that range.
\<close>

abbreviation code :: "char \<Rightarrow> nat" where
  "code c \<equiv> of_char c"

section \<open>White space, stripping, lines\<close>

definition is_space :: "char \<Rightarrow> bool" where
  "is_space c \<longleftrightarrow> (9 \<le> code c \<and> code c \<le> 13) \<or> (28 \<le> code c \<and> code c \<le> 32)
     \<or> code c = 133 \<or> code c = 160"

definition lstrip :: "string \<Rightarrow> string" where
  "lstrip s = dropWhile is_space s"

definition rstrip :: "string \<Rightarrow> string" where
  "rstrip s = rev (dropWhile is_space (rev s))"

definition strip :: "string \<Rightarrow> string" where
  "strip s = rstrip (lstrip s)"

definition rstrip_chars :: "(char \<Rightarrow> bool) \<Rightarrow> string \<Rightarrow> string" where
  "rstrip_chars p s = rev (dropWhile p (rev s))"

text \<open>\<open>str.splitlines\<close>: a carriage return followed by a line feed is one boundary.\<close>

definition is_linebreak :: "char \<Rightarrow> bool" where
  "is_linebreak c \<longleftrightarrow> (10 \<le> code c \<and> code c \<le> 13) \<or> (28 \<le> code c \<and> code c \<le> 30) \<or> code c = 133"

definition skip_lf :: "string \<Rightarrow> string" where
  "skip_lf s = (case s of [] \<Rightarrow> [] | d # ds \<Rightarrow> if code d = 10 then ds else s)"

lemma length_skip_lf: "length (skip_lf s) \<le> length s"
  by (simp add: skip_lf_def split: list.split)

function splitlines_from :: "string \<Rightarrow> string \<Rightarrow> string list" where
  "splitlines_from cur [] = (if cur = [] then [] else [rev cur])"
| "splitlines_from cur (c # cs) =
     (if is_linebreak c
      then rev cur # splitlines_from [] (if code c = 13 then skip_lf cs else cs)
      else splitlines_from (c # cur) cs)"
  by pat_completeness auto
termination
  by (relation "measure (\<lambda>(cur, s). length s)") (auto simp: le_imp_less_Suc length_skip_lf)

definition splitlines :: "string \<Rightarrow> string list" where
  "splitlines s = splitlines_from [] s"

fun join_str :: "string \<Rightarrow> string list \<Rightarrow> string" where
  "join_str sep [] = []"
| "join_str sep [x] = x"
| "join_str sep (x # y # zs) = x @ sep @ join_str sep (y # zs)"

definition startswith :: "string \<Rightarrow> string \<Rightarrow> bool" where
  "startswith s pre \<longleftrightarrow> take (length pre) s = pre"

definition removeprefix :: "string \<Rightarrow> string \<Rightarrow> string" where
  "removeprefix s pre = (if startswith s pre then drop (length pre) s else s)"

text \<open>\<open>str.partition\<close> on a one-character separator: head, whether it was found, tail.\<close>

definition partition_char :: "char \<Rightarrow> string \<Rightarrow> string \<times> bool \<times> string" where
  "partition_char sep s =
     (case dropWhile (\<lambda>c. c \<noteq> sep) s of
        [] \<Rightarrow> (s, False, [])
      | _ # rest \<Rightarrow> (takeWhile (\<lambda>c. c \<noteq> sep) s, True, rest))"

definition lower_char :: "char \<Rightarrow> char" where
  "lower_char c =
     (if (65 \<le> code c \<and> code c \<le> 90) \<or> (192 \<le> code c \<and> code c \<le> 222 \<and> code c \<noteq> 215)
      then char_of (code c + 32) else c)"

definition lower :: "string \<Rightarrow> string" where
  "lower s = map lower_char s"

section \<open>Hexadecimal\<close>

definition hex_char :: "nat \<Rightarrow> char" where
  "hex_char d = char_of (if d < 10 then 48 + d else 87 + d)"

definition is_hex_lower :: "char \<Rightarrow> bool" where
  "is_hex_lower c \<longleftrightarrow> (48 \<le> code c \<and> code c \<le> 57) \<or> (97 \<le> code c \<and> code c \<le> 102)"

definition hex2 :: "nat \<Rightarrow> string" where
  "hex2 n = [hex_char (n div 16 mod 16), hex_char (n mod 16)]"

definition is_sha256_text :: "string \<Rightarrow> bool" where
  "is_sha256_text s \<longleftrightarrow> length s = 64 \<and> list_all is_hex_lower s"

lemma is_hex_lower_hex_char: "d < 16 \<Longrightarrow> is_hex_lower (hex_char d)"
  by (auto simp: is_hex_lower_def hex_char_def)

section \<open>\<open>repr\<close> of a string\<close>

definition repr_quote :: "string \<Rightarrow> char" where
  "repr_quote s = (if CHR 0x27 \<in> set s \<and> CHR 0x22 \<notin> set s then CHR 0x22 else CHR 0x27)"

definition repr_char :: "char \<Rightarrow> char \<Rightarrow> string" where
  "repr_char q c =
     (if c = q \<or> c = CHR 0x5C then [CHR 0x5C, c]
      else if code c = 9 then [CHR 0x5C, CHR ''t'']
      else if code c = 10 then [CHR 0x5C, CHR ''n'']
      else if code c = 13 then [CHR 0x5C, CHR ''r'']
      else if code c < 32 \<or> (127 \<le> code c \<and> code c \<le> 160) \<or> code c = 173
      then [CHR 0x5C, CHR ''x''] @ hex2 (code c)
      else [c])"

definition py_repr :: "string \<Rightarrow> string" where
  "py_repr s = (let q = repr_quote s in q # concat (map (repr_char q) s) @ [q])"

section \<open>Fixed-point text\<close>

text \<open>
  \<open>format(x, ".kf")\<close> rounds the exact value of \<open>x\<close> to \<open>k\<close> decimals, ties to even.
\<close>

definition round_half_even :: "rat \<Rightarrow> int" where
  "round_half_even r =
     (let f = floor r; d = r - of_int f
      in if d < 1 / 2 then f else if 1 / 2 < d then f + 1 else if even f then f else f + 1)"

definition round_dec :: "nat \<Rightarrow> rat \<Rightarrow> rat" where
  "round_dec k r = of_int (round_half_even (r * 10 ^ k)) / 10 ^ k"

definition pad_left :: "nat \<Rightarrow> char \<Rightarrow> string \<Rightarrow> string" where
  "pad_left w c s = replicate (w - length s) c @ s"

definition fmt_fixed :: "nat \<Rightarrow> rat \<Rightarrow> string" where
  "fmt_fixed k r =
     (let n = round_half_even (abs r * 10 ^ k)
      in (if r < 0 then ''-'' else []) @ show_pos (n div 10 ^ k)
         @ (if k = 0 then [] else CHR ''.'' # pad_left k CHR ''0'' (show_pos (n mod 10 ^ k))))"

lemma round_half_even_of_int [simp]: "round_half_even (of_int n) = n"
  by (simp add: round_half_even_def)

lemma round_half_even_bounds:
  "of_int (round_half_even r) - 1 / 2 \<le> r" "r \<le> of_int (round_half_even r) + 1 / 2"
proof -
  have f: "of_int (floor r) \<le> r" "r < of_int (floor r) + 1"
    using floor_correct [of r] by simp_all
  define f where "f = (of_int (floor r) :: rat)"
  have g: "f \<le> r" "r < f + 1" using f by (simp_all add: f_def)
  have cases: "of_int (round_half_even r) = f \<and> r - f \<le> 1 / 2
      \<or> of_int (round_half_even r) = f + 1 \<and> 1 / 2 \<le> r - f"
    by (auto simp: round_half_even_def Let_def f_def not_less)
  show "of_int (round_half_even r) - 1 / 2 \<le> r" using g cases by linarith
  show "r \<le> of_int (round_half_even r) + 1 / 2" using g cases by linarith
qed

lemma round_half_even_nonneg: "0 \<le> r \<Longrightarrow> 0 \<le> round_half_even r"
  by (auto simp: round_half_even_def Let_def)

lemma round_dec_idem: "round_dec k (round_dec k r) = round_dec k r"
proof -
  have "round_dec k r * 10 ^ k = of_int (round_half_even (r * 10 ^ k))"
    by (simp add: round_dec_def)
  then have "round_half_even (round_dec k r * 10 ^ k) = round_half_even (r * 10 ^ k)"
    by simp
  then show ?thesis by (simp only: round_dec_def [of k "round_dec k r"]) (simp add: round_dec_def)
qed

lemma round_dec_nonneg: "0 \<le> r \<Longrightarrow> 0 \<le> round_dec k r"
  by (simp add: round_dec_def round_half_even_nonneg)

lemma round_dec_close: "\<bar>round_dec k r - r\<bar> \<le> 1 / (2 * 10 ^ k)"
proof -
  define q where "q = r * 10 ^ k"
  have "r = q / 10 ^ k" by (simp add: q_def)
  then have "round_dec k r - r = (of_int (round_half_even q) - q) / 10 ^ k"
    by (simp add: round_dec_def q_def diff_divide_distrib)
  moreover have "\<bar>of_int (round_half_even q) - q\<bar> \<le> 1 / 2"
    using round_half_even_bounds [of q] by linarith
  ultimately show ?thesis
    by (simp add: abs_divide divide_le_eq)
qed

lemma length_pad_left: "length s \<le> w \<Longrightarrow> length (pad_left w c s) = w"
  by (simp add: pad_left_def)

lemma strip_empty [simp]: "strip [] = []"
  by (simp add: strip_def rstrip_def lstrip_def)

lemma splitlines_single: "list_all (\<lambda>c. \<not> is_linebreak c) s \<Longrightarrow> s \<noteq> [] \<Longrightarrow> splitlines s = [s]"
proof -
  have "splitlines_from cur s = (if cur = [] \<and> s = [] then [] else [rev cur @ s])"
    if "list_all (\<lambda>c. \<not> is_linebreak c) s" for cur s
    using that by (induction s arbitrary: cur) auto
  then show "list_all (\<lambda>c. \<not> is_linebreak c) s \<Longrightarrow> s \<noteq> [] \<Longrightarrow> splitlines s = [s]"
    by (simp add: splitlines_def)
qed

lemma startswith_append [simp]: "startswith (pre @ s) pre"
  by (simp add: startswith_def)

lemma removeprefix_append [simp]: "removeprefix (pre @ s) pre = s"
  by (simp add: removeprefix_def)

end
