(* ===== verification/Py_Value.thy ===== *)
theory Py_Value
  imports Py_Str
begin

text \<open>
  The Python values the program passes between its components.  \<open>POther\<close> stands for an
  object that is not JSON data, under the name of its type; every other constructor is the
  JSON data model as Python decodes it.  The functions read a value the way the code does:
  \<open>isinstance\<close> tests, \<open>dict.get\<close>, truth value, equality.
\<close>

section \<open>Values\<close>

datatype fl = Fin rat | PosInf | NegInf | NaN

datatype py =
    PNone
  | PBool bool
  | PInt int
  | PFloat fl
  | PStr string
  | PList "py list"
  | PDict "(string \<times> py) list"
  | POther string

type_synonym dict = "(string \<times> py) list"

primrec isfinite :: "fl \<Rightarrow> bool" where
  "isfinite (Fin r) = True"
| "isfinite PosInf = False"
| "isfinite NegInf = False"
| "isfinite NaN = False"

fun type_name :: "py \<Rightarrow> string" where
  "type_name PNone = ''NoneType''"
| "type_name (PBool b) = ''bool''"
| "type_name (PInt i) = ''int''"
| "type_name (PFloat f) = ''float''"
| "type_name (PStr s) = ''str''"
| "type_name (PList xs) = ''list''"
| "type_name (PDict d) = ''dict''"
| "type_name (POther t) = t"

fun as_str :: "py \<Rightarrow> string option" where
  "as_str (PStr s) = Some s"
| "as_str _ = None"

fun as_list :: "py \<Rightarrow> py list option" where
  "as_list (PList xs) = Some xs"
| "as_list _ = None"

fun as_dict :: "py \<Rightarrow> dict option" where
  "as_dict (PDict d) = Some d"
| "as_dict _ = None"

text \<open>\<open>isinstance(v, int) and not isinstance(v, bool)\<close>\<close>

fun as_int :: "py \<Rightarrow> int option" where
  "as_int (PInt i) = Some i"
| "as_int _ = None"

text \<open>\<open>isinstance(v, (int, float)) and not isinstance(v, bool)\<close>, as a float.\<close>

fun as_number :: "py \<Rightarrow> fl option" where
  "as_number (PInt i) = Some (Fin (of_int i))"
| "as_number (PFloat f) = Some f"
| "as_number _ = None"

definition is_str :: "py \<Rightarrow> bool" where
  "is_str v \<longleftrightarrow> as_str v \<noteq> None"

definition is_list :: "py \<Rightarrow> bool" where
  "is_list v \<longleftrightarrow> as_list v \<noteq> None"

definition is_dict :: "py \<Rightarrow> bool" where
  "is_dict v \<longleftrightarrow> as_dict v \<noteq> None"

definition nonempty_str :: "py \<Rightarrow> bool" where
  "nonempty_str v = (case v of PStr s \<Rightarrow> s \<noteq> [] | _ \<Rightarrow> False)"

text \<open>\<open>d.get(k)\<close>: \<open>None\<close> for a missing key.\<close>

definition pget :: "dict \<Rightarrow> string \<Rightarrow> py" where
  "pget d k = (case dget d k of None \<Rightarrow> PNone | Some v \<Rightarrow> v)"

fun truthy :: "py \<Rightarrow> bool" where
  "truthy PNone = False"
| "truthy (PBool b) = b"
| "truthy (PInt i) = (i \<noteq> 0)"
| "truthy (PFloat f) = (f \<noteq> Fin 0)"
| "truthy (PStr s) = (s \<noteq> [])"
| "truthy (PList xs) = (xs \<noteq> [])"
| "truthy (PDict d) = (d \<noteq> [])"
| "truthy (POther t) = True"

definition opt_str :: "string option \<Rightarrow> py" where
  "opt_str s = (case s of None \<Rightarrow> PNone | Some t \<Rightarrow> PStr t)"

definition opt_dict :: "dict option \<Rightarrow> py" where
  "opt_dict d = (case d of None \<Rightarrow> PNone | Some e \<Rightarrow> PDict e)"

lemma is_str_simps [simp]: "is_str (PStr s)" "is_str v \<longleftrightarrow> (\<exists>s. v = PStr s)"
  by (cases v; simp add: is_str_def)+

lemma is_list_iff: "is_list v \<longleftrightarrow> (\<exists>xs. v = PList xs)"
  by (cases v) (simp_all add: is_list_def)

lemma is_dict_iff: "is_dict v \<longleftrightarrow> (\<exists>d. v = PDict d)"
  by (cases v) (simp_all add: is_dict_def)

lemma as_str_Some [simp]: "as_str v = Some s \<longleftrightarrow> v = PStr s"
  by (cases v) auto

lemma as_list_Some [simp]: "as_list v = Some xs \<longleftrightarrow> v = PList xs"
  by (cases v) auto

lemma as_dict_Some [simp]: "as_dict v = Some d \<longleftrightarrow> v = PDict d"
  by (cases v) auto

lemma as_int_Some [simp]: "as_int v = Some i \<longleftrightarrow> v = PInt i"
  by (cases v) auto

lemma as_str_None: "as_str v = None \<longleftrightarrow> (\<forall>s. v \<noteq> PStr s)"
  by (cases v) auto

lemma nonempty_str_iff: "nonempty_str v \<longleftrightarrow> (\<exists>s. v = PStr s \<and> s \<noteq> [])"
  by (cases v) (auto simp: nonempty_str_def)

lemma nonempty_str_simps [simp]:
  "nonempty_str (PStr s) \<longleftrightarrow> s \<noteq> []" "\<not> nonempty_str PNone"
  "\<not> nonempty_str (PDict d)" "\<not> nonempty_str (PList xs)" "\<not> nonempty_str (PInt i)"
  by (simp_all add: nonempty_str_def)

lemma pget_simps [simp]:
  "pget [] k = PNone" "pget ((j, v) # d) k = (if j = k then v else pget d k)"
  by (simp_all add: pget_def)

lemma opt_str_simps [simp]: "opt_str None = PNone" "opt_str (Some s) = PStr s"
  by (simp_all add: opt_str_def)

lemma opt_dict_simps [simp]: "opt_dict None = PNone" "opt_dict (Some d) = PDict d"
  by (simp_all add: opt_dict_def)

section \<open>Well-formedness\<close>

text \<open>
  \<open>wf_py\<close>: every dictionary inside the value has distinct keys, which is what makes an
  association list a dictionary.
\<close>

fun wf_py :: "py \<Rightarrow> bool" where
  "wf_py (PList xs) = list_all wf_py xs"
| "wf_py (PDict d) = (distinct (keys d) \<and> list_all (\<lambda>p. wf_py (snd p)) d)"
| "wf_py _ = True"

lemma wf_py_dget: "wf_py (PDict d) \<Longrightarrow> dget d k = Some v \<Longrightarrow> wf_py v"
  by (auto simp: list_all_iff dest: map_of_SomeD)

lemma wf_py_pget: "wf_py (PDict d) \<Longrightarrow> wf_py (pget d k)"
  by (auto simp: pget_def wf_py_dget split: option.split)

section \<open>Python equality\<close>

text \<open>
  \<open>==\<close> on the values: numbers of the three numeric types compare by value (so
  \<open>1 == 1.0 == True\<close>), dictionaries without regard to order, NaN is unequal to itself.
\<close>

fun num_of :: "py \<Rightarrow> fl option" where
  "num_of (PBool b) = Some (Fin (if b then 1 else 0))"
| "num_of (PInt i) = Some (Fin (of_int i))"
| "num_of (PFloat f) = Some f"
| "num_of _ = None"

fun py_eq :: "py \<Rightarrow> py \<Rightarrow> bool" where
  "py_eq PNone v = (v = PNone)"
| "py_eq (PStr s) v = (v = PStr s)"
| "py_eq (PList xs) v = (case v of PList ys \<Rightarrow> list_all2 py_eq xs ys | _ \<Rightarrow> False)"
| "py_eq (PDict d) v =
     (case v of PDict e \<Rightarrow> length d = length e
        \<and> list_all (\<lambda>p. case dget e (fst p) of None \<Rightarrow> False | Some w \<Rightarrow> py_eq (snd p) w) d
      | _ \<Rightarrow> False)"
| "py_eq (POther t) v = False"
| "py_eq (PBool b) v = (num_of v = Some (Fin (if b then 1 else 0)))"
| "py_eq (PInt i) v = (num_of v = Some (Fin (of_int i)))"
| "py_eq (PFloat f) v = (f \<noteq> NaN \<and> num_of v = Some f)"

text \<open>The data on which \<open>==\<close> is reflexive: JSON data, whose floats are finite.\<close>

fun json_data :: "py \<Rightarrow> bool" where
  "json_data (PFloat f) = isfinite f"
| "json_data (PList xs) = list_all json_data xs"
| "json_data (PDict d) = list_all (\<lambda>p. json_data (snd p)) d"
| "json_data (POther t) = False"
| "json_data _ = True"

definition wf_json :: "py \<Rightarrow> bool" where
  "wf_json v \<longleftrightarrow> wf_py v \<and> json_data v"

lemma wf_json_simps [simp]:
  "wf_json PNone" "wf_json (PBool b)" "wf_json (PInt i)" "wf_json (PStr s)"
  "wf_json (PFloat f) \<longleftrightarrow> isfinite f" "\<not> wf_json (POther t)"
  by (simp_all add: wf_json_def)

lemma wf_json_PList [simp]: "wf_json (PList xs) \<longleftrightarrow> (\<forall>x\<in>set xs. wf_json x)"
  by (auto simp: wf_json_def list_all_iff)

lemma wf_json_PDict [simp]:
  "wf_json (PDict d) \<longleftrightarrow> distinct (keys d) \<and> (\<forall>p\<in>set d. wf_json (snd p))"
  by (auto simp: wf_json_def list_all_iff)

lemma wf_json_dget: "wf_json (PDict d) \<Longrightarrow> dget d k = Some v \<Longrightarrow> wf_json v"
  by (force dest: map_of_SomeD)

lemma py_eq_refl: "wf_json v \<Longrightarrow> py_eq v v"
proof (induction v)
  case (PFloat f)
  then show ?case by (cases f) simp_all
next
  case (PList xs)
  then show ?case by (auto simp: list_all2_same)
next
  case (PDict d)
  have "dget d (fst p) = Some (snd p)" if "p \<in> set d" for p
    using that PDict.prems map_of_is_SomeI [of d "fst p" "snd p"] by simp
  with PDict show ?case by (fastforce simp: list_all_iff)
qed simp_all

end
