(* ===== verification/Sha256.thy ===== *)
theory Sha256
  imports Py_Str "HOL-Library.Word"
begin

unbundle bit_operations_syntax

text \<open>
  \<open>hashlib.sha256\<close> of Python's standard library, computed: the digest of a list of bytes
  and its lowercase hexadecimal text.  The program uses it for every content identity
  (harness fingerprints, prompt digests, option digests, record digests).  What the other
  theories need of it is that the text is always 64 lowercase hexadecimal digits.
\<close>

type_synonym u32 = "32 word"

definition rotr32 :: "nat \<Rightarrow> u32 \<Rightarrow> u32" where
  "rotr32 n x = drop_bit n x OR push_bit (32 - n) x"

definition sha_k :: "u32 list" where
  "sha_k = [
    1116352408, 1899447441, 3049323471, 3921009573, 961987163, 1508970993, 2453635748, 2870763221,
    3624381080, 310598401, 607225278, 1426881987, 1925078388, 2162078206, 2614888103, 3248222580,
    3835390401, 4022224774, 264347078, 604807628, 770255983, 1249150122, 1555081692, 1996064986,
    2554220882, 2821834349, 2952996808, 3210313671, 3336571891, 3584528711, 113926993, 338241895,
    666307205, 773529912, 1294757372, 1396182291, 1695183700, 1986661051, 2177026350, 2456956037,
    2730485921, 2820302411, 3259730800, 3345764771, 3516065817, 3600352804, 4094571909, 275423344,
    430227734, 506948616, 659060556, 883997877, 958139571, 1322822218, 1537002063, 1747873779,
    1955562222, 2024104815, 2227730452, 2361852424, 2428436474, 2756734187, 3204031479, 3329325298]"

definition sha_init :: "u32 list" where
  "sha_init = [1779033703, 3144134277, 1013904242, 2773480762,
               1359893119, 2600822924, 528734635, 1541459225]"

text \<open>The message schedule, kept newest word first while it grows from 16 to 64 words.\<close>

fun sha_extend :: "nat \<Rightarrow> u32 list \<Rightarrow> u32 list" where
  "sha_extend 0 ws = ws"
| "sha_extend (Suc n) ws =
     (let w2 = ws ! 1; w7 = ws ! 6; w15 = ws ! 14; w16 = ws ! 15;
          s0 = rotr32 7 w15 XOR rotr32 18 w15 XOR drop_bit 3 w15;
          s1 = rotr32 17 w2 XOR rotr32 19 w2 XOR drop_bit 10 w2
      in sha_extend n ((s1 + w7 + s0 + w16) # ws))"

fun sha_round :: "u32 list \<Rightarrow> u32 \<times> u32 \<Rightarrow> u32 list" where
  "sha_round [a, b, c, d, e, f, g, h] (k, w) =
     (let s1 = rotr32 6 e XOR rotr32 11 e XOR rotr32 25 e;
          ch = (e AND f) XOR (NOT e AND g);
          t1 = h + s1 + ch + k + w;
          s0 = rotr32 2 a XOR rotr32 13 a XOR rotr32 22 a;
          maj = (a AND b) XOR (a AND c) XOR (b AND c)
      in [t1 + (s0 + maj), a, b, c, d + t1, e, f, g])"
| "sha_round hs kw = hs"

definition sha_block :: "u32 list \<Rightarrow> u32 list \<Rightarrow> u32 list" where
  "sha_block hs ws =
     map2 (+) hs (foldl sha_round hs (zip sha_k (rev (sha_extend 48 (rev ws)))))"

definition be_word :: "nat list \<Rightarrow> u32" where
  "be_word bs = foldl (\<lambda>w b. push_bit 8 w OR word_of_nat b) 0 bs"

fun chunks :: "nat \<Rightarrow> nat \<Rightarrow> 'a list \<Rightarrow> 'a list list" where
  "chunks 0 n xs = []"
| "chunks (Suc k) n xs = take n xs # chunks k n (drop n xs)"

definition sha_pad :: "nat list \<Rightarrow> nat list" where
  "sha_pad m =
     (let l = length m; z = (119 - l mod 64) mod 64; bits = 8 * int l
      in m @ [128] @ replicate z 0 @ map (\<lambda>i. nat (drop_bit (56 - 8 * i) bits mod 256)) [0..<8])"

definition sha256_words :: "nat list \<Rightarrow> u32 list" where
  "sha256_words m =
     (let p = sha_pad m
      in foldl (\<lambda>hs b. sha_block hs (map be_word (chunks 16 4 b))) sha_init
           (chunks (length p div 64) 64 p))"

definition hex_word :: "u32 \<Rightarrow> string" where
  "hex_word w = map (\<lambda>i. hex_char (unat (drop_bit (28 - 4 * i) w AND 15))) [0..<8]"

definition sha256_hex :: "nat list \<Rightarrow> string" where
  "sha256_hex m = concat (map hex_word (sha256_words m))"

text \<open>UTF-8, on the code points below 256.\<close>

definition utf8_char :: "char \<Rightarrow> nat list" where
  "utf8_char c = (if code c < 128 then [code c] else [192 + code c div 64, 128 + code c mod 64])"

definition utf8 :: "string \<Rightarrow> nat list" where
  "utf8 s = concat (map utf8_char s)"

definition sha256_text :: "string \<Rightarrow> string" where
  "sha256_text s = sha256_hex (utf8 s)"

lemma length_sha_round: "length (sha_round hs kw) = length hs"
  by (cases "(hs, kw)" rule: sha_round.cases) (simp_all add: Let_def)

lemma length_sha_rounds: "length (foldl sha_round hs kws) = length hs"
  by (induction kws arbitrary: hs) (simp_all add: length_sha_round)

lemma length_sha_block: "length (sha_block hs ws) = length hs"
  by (simp add: sha_block_def length_sha_rounds)

lemma length_sha256_words: "length (sha256_words m) = 8"
proof -
  have "length (foldl (\<lambda>hs b. sha_block hs (map be_word (chunks 16 4 b))) hs bs) = length hs"
    for hs bs
    by (induction bs arbitrary: hs) (simp_all add: length_sha_block)
  then show ?thesis by (simp add: sha256_words_def Let_def sha_init_def)
qed

lemma unat_and_15: "unat (w AND 15 :: u32) < 16"
proof -
  have "w AND 15 \<le> (15 :: u32)" by (rule word_and_le1)
  then have "unat (w AND 15) \<le> unat (15 :: u32)" by (simp only: word_le_nat_alt)
  then show ?thesis by simp
qed

lemma hex_word_digits: "length (hex_word w) = 8" "c \<in> set (hex_word w) \<Longrightarrow> is_hex_lower c"
  by (auto simp: hex_word_def intro: is_hex_lower_hex_char unat_and_15)

lemma sha256_hex_text: "is_sha256_text (sha256_hex m)"
proof -
  have "length (concat (map hex_word ws)) = 8 * length ws" for ws
    by (induction ws) (simp_all add: hex_word_digits)
  then show ?thesis
    by (auto simp: is_sha256_text_def sha256_hex_def length_sha256_words list_all_iff
             dest: hex_word_digits(2))
qed

lemma sha256_text_text [simp]: "is_sha256_text (sha256_text s)"
  by (simp add: sha256_text_def sha256_hex_text)

lemma length_sha256_text [simp]: "length (sha256_text s) = 64"
  using sha256_text_text [of s] by (simp add: is_sha256_text_def del: sha256_text_text)

lemma sha256_text_nonempty [simp]: "sha256_text s \<noteq> []"
  using length_sha256_text [of s] by (metis list.size(3) zero_neq_numeral)

end
