(* ===== verification/Json.thy ===== *)
theory Json
  imports Py_Value Sha256
begin

text \<open>
  \<open>rlm/json.py\<close>: the one strict JSON contract of every boundary.  The compatibility check
  names the first place where a value leaves the JSON data model; the encoder and decoder are
  \<open>json.dumps\<close> and \<open>json.loads\<close> as the program calls them (no NaN, no duplicate keys,
  no constants).  Values here are trees; the check on object graphs, with reference cycles,
  is in \<open>Json_Graph\<close>.  A finite float is the rational it denotes.
\<close>

section \<open>The compatibility check\<close>

fun json_err :: "string \<Rightarrow> py \<Rightarrow> string option"
  and container_err :: "string \<Rightarrow> nat \<Rightarrow> py list \<Rightarrow> string option"
  and object_err :: "string \<Rightarrow> dict \<Rightarrow> string option" where
  "json_err path PNone = None"
| "json_err path (PBool b) = None"
| "json_err path (PStr s) = None"
| "json_err path (PInt i) = None"
| "json_err path (PFloat f) =
     (if \<not> isfinite f then Some (path @ '' contains a non-finite number'') else None)"
| "json_err path (PList xs) = container_err path 0 xs"
| "json_err path (PDict d) = object_err path d"
| "json_err path (POther t) = Some (path @ '' contains a non-JSON value ('' @ t @ '')'')"
| "container_err path i [] = None"
| "container_err path i (x # xs) =
     (case json_err (path @ ''['' @ show_nat i @ '']'') x of
        Some e \<Rightarrow> Some e
      | None \<Rightarrow> container_err path (Suc i) xs)"
| "object_err path [] = None"
| "object_err path ((k, x) # d) =
     (case json_err (path @ ''['' @ py_repr k @ '']'') x of
        Some e \<Rightarrow> Some e
      | None \<Rightarrow> object_err path d)"

definition json_compatibility_error :: "py \<Rightarrow> string option" where
  "json_compatibility_error v = json_err ''$'' v"

lemma json_err_iff:
  "json_err path v = None \<longleftrightarrow> json_data v"
  "container_err path i xs = None \<longleftrightarrow> list_all json_data xs"
  "object_err path d = None \<longleftrightarrow> list_all (\<lambda>p. json_data (snd p)) d"
  by (induction path v and path i xs and path d
      rule: json_err_container_err_object_err.induct) (auto split: option.split)

lemma json_compatibility_error_iff [simp]:
  "json_compatibility_error v = None \<longleftrightarrow> json_data v"
  by (simp add: json_compatibility_error_def json_err_iff)

lemma json_data_no_error [simp]: "json_data v \<Longrightarrow> json_compatibility_error v = None"
  by simp

lemma json_compatibility_error_Some: "json_compatibility_error v = Some e \<Longrightarrow> \<not> json_data v"
  using json_compatibility_error_iff [of v] by simp

section \<open>Encoding\<close>

record json_style =
  item_sep :: string
  key_sep :: string
  indent :: "nat option"
  sort_keys :: bool

definition compact :: json_style where
  "compact = \<lparr>item_sep = '','', key_sep = '':'', indent = None, sort_keys = False\<rparr>"

definition canonical :: json_style where
  "canonical = compact\<lparr>sort_keys := True\<rparr>"

definition spaced :: json_style where
  "spaced = \<lparr>item_sep = '', '', key_sep = '': '', indent = None, sort_keys = False\<rparr>"

definition spaced_sorted :: json_style where
  "spaced_sorted = spaced\<lparr>sort_keys := True\<rparr>"

definition indented :: json_style where
  "indented = \<lparr>item_sep = '','', key_sep = '': '', indent = Some 2, sort_keys = False\<rparr>"

lemmas style_defs = compact_def canonical_def spaced_def spaced_sorted_def indented_def

definition json_char :: "char \<Rightarrow> string" where
  "json_char c =
     (if c = CHR 0x22 then [CHR 0x5C, CHR 0x22]
      else if c = CHR 0x5C then [CHR 0x5C, CHR 0x5C]
      else if code c = 10 then [CHR 0x5C, CHR ''n'']
      else if code c = 13 then [CHR 0x5C, CHR ''r'']
      else if code c = 9 then [CHR 0x5C, CHR ''t'']
      else if code c = 12 then [CHR 0x5C, CHR ''f'']
      else if code c = 8 then [CHR 0x5C, CHR ''b'']
      else if code c < 32 then [CHR 0x5C, CHR ''u'', CHR ''0'', CHR ''0''] @ hex2 (code c)
      else [c])"

definition json_string :: "string \<Rightarrow> string" where
  "json_string s = CHR 0x22 # concat (map json_char s) @ [CHR 0x22]"

text \<open>For evaluation: whether a character stands for itself is read off its bits.\<close>

definition json_escape :: "char \<Rightarrow> string" where
  "json_escape c = json_char c"

fun json_plain :: "char \<Rightarrow> bool" where
  "json_plain (Char b0 b1 b2 b3 b4 b5 b6 b7) \<longleftrightarrow>
     (if b7 then True else if b6 then (if b5 then True else if b4 then b0 \<or> b1 \<or> \<not> b2 \<or> \<not> b3 else True)
      else if b5 then b0 \<or> \<not> b1 \<or> b2 \<or> b3 \<or> b4 else False)"

lemma json_char_code [code]: "json_char c = (if json_plain c then [c] else json_escape c)"
proof -
  have "32 \<le> code c \<and> c \<noteq> CHR 0x22 \<and> c \<noteq> CHR 0x5C" if "json_plain c"
    using that by (cases c) (auto split: if_split_asm)
  then show ?thesis by (auto simp: json_escape_def) (auto simp: json_char_def)
qed

lemma json_escape_code [code]: "json_escape c = (if c = CHR 0x22 then [CHR 0x5C, CHR 0x22]
      else if c = CHR 0x5C then [CHR 0x5C, CHR 0x5C]
      else if code c = 10 then [CHR 0x5C, CHR ''n'']
      else if code c = 13 then [CHR 0x5C, CHR ''r'']
      else if code c = 9 then [CHR 0x5C, CHR ''t'']
      else if code c = 12 then [CHR 0x5C, CHR ''f'']
      else if code c = 8 then [CHR 0x5C, CHR ''b'']
      else if code c < 32 then [CHR 0x5C, CHR ''u'', CHR ''0'', CHR ''0''] @ hex2 (code c)
      else [c])" by (simp add: json_escape_def json_char_def)

text \<open>
  \<open>float.__repr__\<close> of a decimal fraction: the significant digits and the position of the
  decimal point, in positional notation between \<open>1e-4\<close> and \<open>1e16\<close> and in exponent
  notation outside.
\<close>

fun decimal_scale :: "nat \<Rightarrow> nat \<Rightarrow> rat \<Rightarrow> nat" where
  "decimal_scale 0 k r = k"
| "decimal_scale (Suc fuel) k r =
     (if r * 10 ^ k = of_int (floor (r * 10 ^ k)) then k else decimal_scale fuel (Suc k) r)"

fun trailing_zeros :: "nat \<Rightarrow> int \<Rightarrow> nat" where
  "trailing_zeros 0 m = 0"
| "trailing_zeros (Suc fuel) m =
     (if m mod 10 = 0 then Suc (trailing_zeros fuel (m div 10)) else 0)"

definition float_exp_text :: "int \<Rightarrow> string" where
  "float_exp_text e =
     CHR ''e'' # (if e < 0 then CHR ''-'' else CHR ''+'') # pad_left 2 CHR ''0'' (show_pos (abs e))"

definition float_digits_text :: "string \<Rightarrow> int \<Rightarrow> string" where
  "float_digits_text ds decpt =
     (if -4 < decpt \<and> decpt \<le> 0 then ''0.'' @ replicate (nat (- decpt)) CHR ''0'' @ ds
      else if 0 < decpt \<and> decpt \<le> 16 then
        (if int (length ds) \<le> decpt
         then ds @ replicate (nat decpt - length ds) CHR ''0'' @ ''.0''
         else take (nat decpt) ds @ ''.'' @ drop (nat decpt) ds)
      else take 1 ds @ (if length ds = 1 then [] else CHR ''.'' # drop 1 ds)
           @ float_exp_text (decpt - 1))"

definition float_repr :: "rat \<Rightarrow> string" where
  "float_repr r =
     (if r = 0 then ''0.0''
      else let k = decimal_scale 400 0 r;
               m = floor (abs r * 10 ^ k);
               z = trailing_zeros 400 m;
               ds = show_pos (m div 10 ^ z);
               decpt = int (length ds) + int z - int k
           in (if r < 0 then ''-'' else []) @ float_digits_text ds decpt)"

definition newline_indent :: "json_style \<Rightarrow> nat \<Rightarrow> string" where
  "newline_indent st level =
     (case indent st of None \<Rightarrow> [] | Some w \<Rightarrow> CHR 0x0A # replicate (w * level) CHR '' '')"

fun sorted_keys :: "py \<Rightarrow> py" where
  "sorted_keys (PList xs) = PList (map sorted_keys xs)"
| "sorted_keys (PDict d) = PDict (sort_key fst (map (\<lambda>p. (fst p, sorted_keys (snd p))) d))"
| "sorted_keys v = v"

fun encode :: "json_style \<Rightarrow> nat \<Rightarrow> py \<Rightarrow> string" where
  "encode st l PNone = ''null''"
| "encode st l (PBool b) = (if b then ''true'' else ''false'')"
| "encode st l (PInt i) = show_int i"
| "encode st l (PFloat f) = (case f of Fin r \<Rightarrow> float_repr r | _ \<Rightarrow> [])"
| "encode st l (PStr s) = json_string s"
| "encode st l (PList xs) =
     (if xs = [] then ''[]''
      else ''['' @ newline_indent st (Suc l)
        @ join_str (item_sep st @ newline_indent st (Suc l)) (map (encode st (Suc l)) xs)
        @ newline_indent st l @ '']'')"
| "encode st l (PDict d) =
     (if d = [] then ''{}''
      else ''{'' @ newline_indent st (Suc l)
        @ join_str (item_sep st @ newline_indent st (Suc l))
            (map (\<lambda>p. json_string (fst p) @ key_sep st @ encode st (Suc l) (snd p)) d)
        @ newline_indent st l @ ''}'')"
| "encode st l (POther t) = []"

datatype json_error =
    BadSyntax
  | DuplicateKey string
  | BadConstant string
  | Incompatible string
  | OutOfFuel

definition strict_json_dumps :: "json_style \<Rightarrow> py \<Rightarrow> json_error + string" where
  "strict_json_dumps st v =
     (case json_compatibility_error v of
        Some e \<Rightarrow> Inl (Incompatible e)
      | None \<Rightarrow> Inr (encode st 0 (if sort_keys st then sorted_keys v else v)))"

definition strict_json_sha256 :: "py \<Rightarrow> json_error + string" where
  "strict_json_sha256 v = ebind (strict_json_dumps canonical v) (\<lambda>s. Inr (sha256_text s))"

section \<open>Decoding\<close>

definition is_json_ws :: "char \<Rightarrow> bool" where
  "is_json_ws c \<longleftrightarrow> code c = 32 \<or> code c = 9 \<or> code c = 10 \<or> code c = 13"

definition skip_ws :: "string \<Rightarrow> string" where
  "skip_ws s = dropWhile is_json_ws s"

definition hex_val :: "char \<Rightarrow> nat option" where
  "hex_val c =
     (if 48 \<le> code c \<and> code c \<le> 57 then Some (code c - 48)
      else if 97 \<le> code c \<and> code c \<le> 102 then Some (code c - 87)
      else if 65 \<le> code c \<and> code c \<le> 70 then Some (code c - 55)
      else None)"

definition unescape :: "char \<Rightarrow> char option" where
  "unescape c =
     (if c = CHR 0x22 \<or> c = CHR 0x5C \<or> c = CHR ''/'' then Some c
      else if c = CHR ''b'' then Some CHR 0x08
      else if c = CHR ''f'' then Some CHR 0x0C
      else if c = CHR ''n'' then Some CHR 0x0A
      else if c = CHR ''r'' then Some CHR 0x0D
      else if c = CHR ''t'' then Some CHR 0x09
      else None)"

definition hex4 :: "char \<Rightarrow> char \<Rightarrow> char \<Rightarrow> char \<Rightarrow> nat option" where
  "hex4 a b c d =
     Option.bind (hex_val a) (\<lambda>w. Option.bind (hex_val b) (\<lambda>x.
       Option.bind (hex_val c) (\<lambda>y. Option.bind (hex_val d) (\<lambda>z.
         Some (4096 * w + 256 * x + 16 * y + z)))))"

text \<open>The body of a string literal after its opening quote, up to its closing quote.\<close>

fun parse_chars :: "string \<Rightarrow> json_error + string \<times> string" where
  "parse_chars [] = Inl BadSyntax"
| "parse_chars (c # cs) =
     (if c = CHR 0x22 then Inr ([], cs)
      else if c = CHR 0x5C then
        (case cs of
           [] \<Rightarrow> Inl BadSyntax
         | e # es \<Rightarrow>
             if e = CHR ''u'' then
               (case es of
                  h1 # h2 # h3 # h4 # rest \<Rightarrow>
                    (case hex4 h1 h2 h3 h4 of
                       Some n \<Rightarrow> if n < 256
                         then ebind (parse_chars rest) (\<lambda>(s, r). Inr (char_of n # s, r))
                         else Inl BadSyntax
                     | None \<Rightarrow> Inl BadSyntax)
                | _ \<Rightarrow> Inl BadSyntax)
             else (case unescape e of
                     Some x \<Rightarrow> ebind (parse_chars es) (\<lambda>(s, r). Inr (x # s, r))
                   | None \<Rightarrow> Inl BadSyntax))
      else if code c < 32 then Inl BadSyntax
      else ebind (parse_chars cs) (\<lambda>(s, r). Inr (c # s, r)))"

text \<open>Numbers: an optional fraction and an optional exponent are consumed only when complete.\<close>

definition int_part :: "string \<Rightarrow> string" where
  "int_part s = (case s of [] \<Rightarrow> [] | c # _ \<Rightarrow> if c = CHR ''0'' then [c] else takeWhile is_digit s)"

definition frac_part :: "string \<Rightarrow> string" where
  "frac_part s = (case s of [] \<Rightarrow> [] | c # cs \<Rightarrow> if c = CHR ''.'' then takeWhile is_digit cs else [])"

definition exp_sign :: "string \<Rightarrow> bool \<times> string" where
  "exp_sign s = (case s of [] \<Rightarrow> (False, [])
     | c # cs \<Rightarrow> if c = CHR ''-'' then (True, cs) else if c = CHR ''+'' then (False, cs) else (False, s))"

definition exp_part :: "string \<Rightarrow> (bool \<times> string \<times> string) option" where
  "exp_part s = (case s of [] \<Rightarrow> None
     | c # cs \<Rightarrow> if c = CHR ''e'' \<or> c = CHR ''E'' then
         (let (neg, t) = exp_sign cs; ds = takeWhile is_digit t
          in if ds = [] then None else Some (neg, ds, dropWhile is_digit t)) else None)"

definition to_float :: "rat \<Rightarrow> fl" where
  "to_float r =
     (if abs r < 2 ^ 1024 - 2 ^ 970 then Fin r else if 0 < r then PosInf else NegInf)"

definition dec_value :: "bool \<Rightarrow> string \<Rightarrow> string \<Rightarrow> bool \<Rightarrow> string \<Rightarrow> rat" where
  "dec_value neg ip fp eneg ep =
     (let m = of_int (read_pos (ip @ fp)) / 10 ^ length fp; e = nat (read_pos ep);
          v = (if eneg then m / 10 ^ e else m * 10 ^ e)
      in if neg then - v else v)"

definition parse_number :: "string \<Rightarrow> json_error + py \<times> string" where
  "parse_number s =
     (let neg = (take 1 s = ''-''); s1 = (if neg then drop 1 s else s); ip = int_part s1
      in if ip = [] then Inl BadSyntax
         else let s2 = drop (length ip) s1; fp = frac_part s2;
                  s3 = (if fp = [] then s2 else drop (Suc (length fp)) s2)
              in case exp_part s3 of
                   Some (eneg, ep, s4) \<Rightarrow> Inr (PFloat (to_float (dec_value neg ip fp eneg ep)), s4)
                 | None \<Rightarrow>
                     if fp = []
                     then Inr (PInt (if neg then - read_pos ip else read_pos ip), s3)
                     else Inr (PFloat (to_float (dec_value neg ip fp False [])), s3))"

text \<open>\<open>_object_without_duplicate_keys\<close>, the \<open>object_pairs_hook\<close>.\<close>

fun object_pairs :: "dict \<Rightarrow> (string \<times> py) list \<Rightarrow> json_error + dict" where
  "object_pairs result [] = Inr result"
| "object_pairs result ((k, v) # ps) =
     (if k \<in> set (keys result) then Inl (DuplicateKey k)
      else object_pairs (result @ [(k, v)]) ps)"

definition object_without_duplicate_keys :: "(string \<times> py) list \<Rightarrow> json_error + dict" where
  "object_without_duplicate_keys ps = object_pairs [] ps"

fun parse_value :: "nat \<Rightarrow> string \<Rightarrow> json_error + py \<times> string"
  and parse_items :: "nat \<Rightarrow> string \<Rightarrow> json_error + py list \<times> string"
  and parse_pairs :: "nat \<Rightarrow> string \<Rightarrow> json_error + (string \<times> py) list \<times> string" where
  "parse_value 0 s = Inl OutOfFuel"
| "parse_value (Suc n) s =
     (if startswith s [CHR 0x22]
      then ebind (parse_chars (drop 1 s)) (\<lambda>(t, r). Inr (PStr t, r))
      else if startswith s ''{'' then
        (let t = skip_ws (drop 1 s)
         in if startswith t ''}'' then Inr (PDict [], drop 1 t)
            else ebind (parse_pairs n t) (\<lambda>(ps, r).
                   ebind (object_without_duplicate_keys ps) (\<lambda>d. Inr (PDict d, r))))
      else if startswith s ''['' then
        (let t = skip_ws (drop 1 s)
         in if startswith t '']'' then Inr (PList [], drop 1 t)
            else ebind (parse_items n t) (\<lambda>(xs, r). Inr (PList xs, r)))
      else if startswith s ''null'' then Inr (PNone, drop 4 s)
      else if startswith s ''true'' then Inr (PBool True, drop 4 s)
      else if startswith s ''false'' then Inr (PBool False, drop 5 s)
      else if startswith s ''NaN'' then Inl (BadConstant ''NaN'')
      else if startswith s ''Infinity'' then Inl (BadConstant ''Infinity'')
      else if startswith s ''-Infinity'' then Inl (BadConstant ''-Infinity'')
      else parse_number s)"
| "parse_items 0 s = Inl OutOfFuel"
| "parse_items (Suc n) s =
     ebind (parse_value n s) (\<lambda>(x, r).
       let t = skip_ws r
       in if startswith t '']'' then Inr ([x], drop 1 t)
          else if startswith t '','' then
            ebind (parse_items n (skip_ws (drop 1 t))) (\<lambda>(xs, u). Inr (x # xs, u))
          else Inl BadSyntax)"
| "parse_pairs 0 s = Inl OutOfFuel"
| "parse_pairs (Suc n) s =
     (if \<not> startswith s [CHR 0x22] then Inl BadSyntax
      else ebind (parse_chars (drop 1 s)) (\<lambda>(k, r).
        let t = skip_ws r
        in if \<not> startswith t '':'' then Inl BadSyntax
           else ebind (parse_value n (skip_ws (drop 1 t))) (\<lambda>(v, r2).
             let u = skip_ws r2
             in if startswith u ''}'' then Inr ([(k, v)], drop 1 u)
                else if startswith u '','' then
                  ebind (parse_pairs n (skip_ws (drop 1 u))) (\<lambda>(ps, w). Inr ((k, v) # ps, w))
                else Inl BadSyntax)))"

definition json_loads :: "string \<Rightarrow> json_error + py" where
  "json_loads s =
     ebind (parse_value (2 * length s + 2) (skip_ws s)) (\<lambda>(v, r).
       if skip_ws r = [] then Inr v else Inl BadSyntax)"

definition strict_json_loads :: "string \<Rightarrow> json_error + py" where
  "strict_json_loads s =
     ebind (json_loads s) (\<lambda>v.
       case json_compatibility_error v of Some e \<Rightarrow> Inl (Incompatible e) | None \<Rightarrow> Inr v)"

end
