(* ===== verification/Errors.thy ===== *)
theory Errors
  imports Json
begin

text \<open>
  \<open>rlm/errors.py\<close>: the exception classes as one datatype, the public and diagnostic
  record every exception is turned into, and the decoder of that record at a process
  boundary.  A constructor of \<open>exn\<close> carries the arguments its class is built with; the
  fields the class derives from them are functions.  \<open>PyExc\<close> and \<open>BaseExc\<close> are the
  exceptions that are not \<open>RLMError\<close>s: class name and \<open>str(error)\<close>.
\<close>

record error_record =
  er_exception_type :: string
  er_message :: string
  er_code :: string
  er_status_code :: int
  er_public_error_type :: string
  er_parameter :: "string option"
  er_body :: dict
  er_details :: "dict option"

text \<open>A \<open>TraceCausalParent | None\<close>: the inner option is its \<open>event_id\<close>.\<close>

type_synonym causal = "string option option"

record close_failure =
  cf_name :: string
  cf_exception_type :: string
  cf_message :: string

datatype exn =
    RLMErr string string int string "string option" causal
  | RemoteErr error_record causal
  | InvalidRequest string string "string option"
  | Upstream int py string
  | BackendProtocol string
  | BackendResponse string "dict option"
  | BackendClose "close_failure list"
  | TraceErr string
  | ProtocolErr string causal
  | RecoveryAborted string dict causal
  | HarnessContract string
  | HostProtocol string
  | LimitExceeded string string
  | ExecutionTimeout rat
  | ExecutorClose "close_failure list"
  | PyExc string string
  | BaseExc string string

abbreviation value_error :: "string \<Rightarrow> exn" where
  "value_error \<equiv> PyExc ''ValueError''"

abbreviation type_error :: "string \<Rightarrow> exn" where
  "type_error \<equiv> PyExc ''TypeError''"

text \<open>\<open>StrictJSONError\<close> is a \<open>ValueError\<close> of its own class.\<close>

fun json_error_text :: "json_error \<Rightarrow> string" where
  "json_error_text BadSyntax = ''syntax''"
| "json_error_text (DuplicateKey k) = ''duplicate JSON object key '' @ py_repr k"
| "json_error_text (BadConstant c) = ''non-finite JSON constant '' @ py_repr c"
| "json_error_text (Incompatible e) = e"
| "json_error_text OutOfFuel = ''nesting''"

definition strict_json_error :: "json_error \<Rightarrow> exn" where
  "strict_json_error e = PyExc ''StrictJSONError'' (''invalid strict JSON: '' @ json_error_text e)"

definition dumps :: "json_style \<Rightarrow> py \<Rightarrow> exn + string" where
  "dumps st v = (case strict_json_dumps st v of
     Inl e \<Rightarrow> Inl (PyExc ''StrictJSONError'' (''value must be strict JSON: '' @ json_error_text e))
   | Inr s \<Rightarrow> Inr s)"

definition loads :: "string \<Rightarrow> exn + py" where
  "loads s = (case strict_json_loads s of Inl e \<Rightarrow> Inl (strict_json_error e) | Inr v \<Rightarrow> Inr v)"

fun is_rlm_error :: "exn \<Rightarrow> bool" where
  "is_rlm_error (PyExc t m) = False"
| "is_rlm_error (BaseExc t m) = False"
| "is_rlm_error _ = True"

text \<open>\<open>isinstance(exc, Exception)\<close>\<close>

fun is_exception :: "exn \<Rightarrow> bool" where
  "is_exception (BaseExc t m) = False"
| "is_exception _ = True"

fun exn_class :: "exn \<Rightarrow> string" where
  "exn_class (RLMErr m c s t p cp) = ''RLMError''"
| "exn_class (RemoteErr r cp) = ''RemoteRLMError''"
| "exn_class (InvalidRequest m c p) = ''InvalidRequestError''"
| "exn_class (Upstream s b e) = ''UpstreamError''"
| "exn_class (BackendProtocol m) = ''BackendProtocolError''"
| "exn_class (BackendResponse m d) = ''BackendResponseError''"
| "exn_class (BackendClose fs) = ''BackendCloseError''"
| "exn_class (TraceErr m) = ''TraceError''"
| "exn_class (ProtocolErr m cp) = ''ProtocolError''"
| "exn_class (RecoveryAborted m f cp) = ''RecoveryAbortedError''"
| "exn_class (HarnessContract m) = ''HarnessContractError''"
| "exn_class (HostProtocol m) = ''HostProtocolError''"
| "exn_class (LimitExceeded m c) = ''LimitExceededError''"
| "exn_class (ExecutionTimeout r) = ''ExecutionTimeoutError''"
| "exn_class (ExecutorClose fs) = ''ExecutorCloseError''"
| "exn_class (PyExc t m) = t"
| "exn_class (BaseExc t m) = t"

text \<open>\<open>_message_from_body\<close>\<close>

definition message_from_body :: "py \<Rightarrow> string option" where
  "message_from_body body =
     (case as_dict body of
        None \<Rightarrow> None
      | Some d \<Rightarrow>
          (case pget d ''error'' of
             PDict e \<Rightarrow>
               (case as_str (pget e ''message'') of
                  Some m \<Rightarrow> Some m
                | None \<Rightarrow> as_str (pget d ''message''))
           | PStr e \<Rightarrow> Some e
           | _ \<Rightarrow> as_str (pget d ''message'')))"

definition close_text :: "close_failure \<Rightarrow> string" where
  "close_text f = cf_name f @ '': '' @ cf_exception_type f @ '': '' @ cf_message f"

definition upstream_message :: "int \<Rightarrow> py \<Rightarrow> string" where
  "upstream_message status body =
     (case message_from_body body of
        Some m \<Rightarrow> if m = [] then ''upstream request failed with HTTP '' @ show_int status else m
      | None \<Rightarrow> ''upstream request failed with HTTP '' @ show_int status)"

fun exn_message :: "exn \<Rightarrow> string" where
  "exn_message (RLMErr m c s t p cp) = m"
| "exn_message (RemoteErr r cp) = er_message r"
| "exn_message (InvalidRequest m c p) = m"
| "exn_message (Upstream s b e) = upstream_message s b"
| "exn_message (BackendProtocol m) = m"
| "exn_message (BackendResponse m d) = m"
| "exn_message (BackendClose fs) = ''backend cleanup failed: '' @ join_str ''; '' (map close_text fs)"
| "exn_message (TraceErr m) = m"
| "exn_message (ProtocolErr m cp) = m"
| "exn_message (RecoveryAborted m f cp) = ''controller recovery aborted: '' @ m"
| "exn_message (HarnessContract m) = m"
| "exn_message (HostProtocol m) = m"
| "exn_message (LimitExceeded m c) = m"
| "exn_message (ExecutionTimeout r) = ''IPython execution exceeded '' @ fmt_fixed 1 r @ '' seconds''"
| "exn_message (ExecutorClose fs) =
     ''IPython executor cleanup failed: '' @ join_str ''; '' (map close_text fs)"
| "exn_message (PyExc t m) = m"
| "exn_message (BaseExc t m) = m"

fun exn_code :: "exn \<Rightarrow> string" where
  "exn_code (RLMErr m c s t p cp) = c"
| "exn_code (RemoteErr r cp) = er_code r"
| "exn_code (InvalidRequest m c p) = c"
| "exn_code (Upstream s b e) = ''upstream_error''"
| "exn_code (BackendProtocol m) = ''backend_protocol_error''"
| "exn_code (BackendResponse m d) = ''backend_response_error''"
| "exn_code (BackendClose fs) = ''backend_close_error''"
| "exn_code (TraceErr m) = ''trace_error''"
| "exn_code (ProtocolErr m cp) = ''controller_protocol_error''"
| "exn_code (RecoveryAborted m f cp) = ''recovery_aborted''"
| "exn_code (HarnessContract m) = ''harness_contract_error''"
| "exn_code (HostProtocol m) = ''host_protocol_error''"
| "exn_code (LimitExceeded m c) = c"
| "exn_code (ExecutionTimeout r) = ''execution_timeout''"
| "exn_code (ExecutorClose fs) = ''executor_close''"
| "exn_code _ = ''internal_error''"

fun exn_status :: "exn \<Rightarrow> int" where
  "exn_status (RLMErr m c s t p cp) = s"
| "exn_status (RemoteErr r cp) = er_status_code r"
| "exn_status (InvalidRequest m c p) = 400"
| "exn_status (Upstream s b e) = s"
| "exn_status (BackendProtocol m) = 502"
| "exn_status (BackendResponse m d) = 502"
| "exn_status _ = 500"

fun exn_public_type :: "exn \<Rightarrow> string" where
  "exn_public_type (RLMErr m c s t p cp) = t"
| "exn_public_type (RemoteErr r cp) = er_public_error_type r"
| "exn_public_type (InvalidRequest m c p) = ''invalid_request_error''"
| "exn_public_type (Upstream s b e) = ''upstream_error''"
| "exn_public_type _ = ''server_error''"

fun exn_param :: "exn \<Rightarrow> string option" where
  "exn_param (RLMErr m c s t p cp) = p"
| "exn_param (RemoteErr r cp) = er_parameter r"
| "exn_param (InvalidRequest m c p) = p"
| "exn_param _ = None"

fun exn_causal :: "exn \<Rightarrow> causal" where
  "exn_causal (RLMErr m c s t p cp) = cp"
| "exn_causal (RemoteErr r cp) = cp"
| "exn_causal (ProtocolErr m cp) = cp"
| "exn_causal (RecoveryAborted m f cp) = cp"
| "exn_causal _ = None"

text \<open>\<open>RLMError.to_body\<close>, and its overrides.\<close>

definition base_body :: "exn \<Rightarrow> dict" where
  "base_body e = [(''error'', PDict [
     (''message'', PStr (exn_message e)),
     (''type'', PStr (exn_public_type e)),
     (''param'', opt_str (exn_param e)),
     (''code'', PStr (exn_code e))])]"

fun to_body :: "exn \<Rightarrow> dict" where
  "to_body (RemoteErr r cp) = er_body r"
| "to_body (Upstream s b e) =
     (case as_dict b of
        Some d \<Rightarrow> if ''error'' \<in> set (keys d) then d else base_body (Upstream s b e)
      | None \<Rightarrow> base_body (Upstream s b e))"
| "to_body e = base_body e"

definition backend_close_details :: "close_failure list \<Rightarrow> dict" where
  "backend_close_details fs = [(''failures'', PList (map (\<lambda>f. PDict [
     (''backend_name'', PStr (cf_name f)),
     (''exception_type'', PStr (cf_exception_type f)),
     (''message'', PStr (cf_message f))]) fs))]"

definition executor_close_details :: "close_failure list \<Rightarrow> dict" where
  "executor_close_details fs = [(''cleanup_failures'', PList (map (\<lambda>f. PDict [
     (''stage'', PStr (cf_name f)),
     (''exception_type'', PStr (cf_exception_type f)),
     (''message'', PStr (cf_message f))]) fs))]"

fun record_details :: "exn \<Rightarrow> dict option" where
  "record_details (Upstream s b e) = Some [(''endpoint'', PStr e), (''body'', b)]"
| "record_details (BackendResponse m d) = d"
| "record_details (BackendClose fs) = Some (backend_close_details fs)"
| "record_details (RecoveryAborted m f cp) = Some [(''fault'', PDict f)]"
| "record_details (ExecutorClose fs) = Some (executor_close_details fs)"
| "record_details _ = None"

fun to_record :: "exn \<Rightarrow> error_record" where
  "to_record (RemoteErr r cp) = r"
| "to_record e =
     \<lparr>er_exception_type = exn_class e, er_message = exn_message e, er_code = exn_code e,
      er_status_code = exn_status e, er_public_error_type = exn_public_type e,
      er_parameter = exn_param e, er_body = to_body e, er_details = record_details e\<rparr>"

definition error_record_for_exception :: "exn \<Rightarrow> string \<Rightarrow> error_record" where
  "error_record_for_exception e source =
     (if is_rlm_error e then to_record e
      else \<lparr>er_exception_type = exn_class e, er_message = exn_message e,
            er_code = ''internal_error'', er_status_code = 500,
            er_public_error_type = ''server_error'', er_parameter = None,
            er_body = [(''error'', PDict [
              (''message'', PStr (exn_message e)), (''type'', PStr ''server_error''),
              (''param'', PNone), (''code'', PStr ''internal_error'')])],
            er_details = Some [(''source'', PStr source)]\<rparr>)"

section \<open>The record at a boundary\<close>

definition error_record_value :: "error_record \<Rightarrow> dict" where
  "error_record_value r = [
     (''exception_type'', PStr (er_exception_type r)),
     (''message'', PStr (er_message r)),
     (''code'', PStr (er_code r)),
     (''status_code'', PInt (er_status_code r)),
     (''public_error_type'', PStr (er_public_error_type r)),
     (''parameter'', opt_str (er_parameter r)),
     (''body'', PDict (er_body r)),
     (''details'', opt_dict (er_details r))]"

definition error_record_to_dict :: "error_record \<Rightarrow> exn + dict" where
  "error_record_to_dict r =
     (case json_compatibility_error (PDict (error_record_value r)) of
        Some e \<Rightarrow> Inl (type_error (''error record must be strict JSON: '' @ e))
      | None \<Rightarrow> Inr (error_record_value r))"

definition error_record_fields :: "string list" where
  "error_record_fields = [''exception_type'', ''message'', ''code'', ''status_code'',
     ''public_error_type'', ''parameter'', ''body'', ''details'']"

definition error_record_from_dict :: "py \<Rightarrow> exn + error_record" where
  "error_record_from_dict value =
     (case as_dict value of
        None \<Rightarrow> Inl (value_error ''error record must be an object'')
      | Some d \<Rightarrow>
          if set (keys d) \<noteq> set error_record_fields
          then Inl (value_error ''error record has an invalid field set'')
          else if \<not> (list_all (\<lambda>name. nonempty_str (pget d name))
                       [''exception_type'', ''code'', ''public_error_type''])
                  \<or> as_str (pget d ''message'') = None
          then Inl (value_error ''error record requires non-empty string identity fields'')
          else case as_int (pget d ''status_code'') of
            None \<Rightarrow> Inl (value_error ''error record status_code must be an integer'')
          | Some status \<Rightarrow>
              if pget d ''parameter'' \<noteq> PNone \<and> as_str (pget d ''parameter'') = None
              then Inl (value_error ''error record parameter must be a string or null'')
              else case as_dict (pget d ''body'') of
                None \<Rightarrow> Inl (value_error ''error record body must be an object'')
              | Some b \<Rightarrow>
                  if pget d ''details'' \<noteq> PNone \<and> as_dict (pget d ''details'') = None
                  then Inl (value_error ''error record details must be an object or null'')
                  else
                    let r = \<lparr>er_exception_type = the (as_str (pget d ''exception_type'')),
                             er_message = the (as_str (pget d ''message'')),
                             er_code = the (as_str (pget d ''code'')),
                             er_status_code = status,
                             er_public_error_type = the (as_str (pget d ''public_error_type'')),
                             er_parameter = as_str (pget d ''parameter''),
                             er_body = b,
                             er_details = as_dict (pget d ''details'')\<rparr>
                    in ebind (error_record_to_dict r) (\<lambda>_. Inr r))"

text \<open>\<open>TraceCausalParent.__post_init__\<close>\<close>

definition trace_causal_parent :: "string option \<Rightarrow> exn + causal" where
  "trace_causal_parent event_id =
     (if event_id = Some []
      then Inl (value_error ''trace causal parent event_id must be a non-empty string or None'')
      else Inr (Some event_id))"

section \<open>Records survive the boundary\<close>

abbreviation json_dict :: "dict \<Rightarrow> bool" where
  "json_dict d \<equiv> list_all (\<lambda>p. json_data (snd p)) d"

definition wf_record :: "error_record \<Rightarrow> bool" where
  "wf_record r \<longleftrightarrow> er_exception_type r \<noteq> [] \<and> er_code r \<noteq> [] \<and> er_public_error_type r \<noteq> []
     \<and> json_dict (er_body r) \<and> (case er_details r of None \<Rightarrow> True | Some d \<Rightarrow> json_dict d)"

lemma json_dict_record [simp]:
  "json_dict (error_record_value r) \<longleftrightarrow>
   json_dict (er_body r) \<and> (case er_details r of None \<Rightarrow> True | Some d \<Rightarrow> json_dict d)"
  by (auto simp: error_record_value_def opt_str_def opt_dict_def split: option.split)

lemma error_record_to_dict_ok [simp]:
  "wf_record r \<Longrightarrow> error_record_to_dict r = Inr (error_record_value r)"
  by (simp add: error_record_to_dict_def wf_record_def split: option.split)

lemma error_record_roundtrip:
  "wf_record r \<Longrightarrow> error_record_from_dict (PDict (error_record_value r)) = Inr r"
proof -
  assume r: "wf_record r"
  define q where "q = r"
  have "keys (error_record_value r) = error_record_fields"
    by (simp add: error_record_value_def error_record_fields_def)
  moreover have "error_record_to_dict q = Inr (error_record_value q)"
    using r by (simp add: q_def)
  moreover have "er_exception_type r \<noteq> []" "er_code r \<noteq> []" "er_public_error_type r \<noteq> []"
    using r by (simp_all add: wf_record_def)
  ultimately show ?thesis
    by (cases "er_parameter r"; cases "er_details r"; cases r)
       (simp_all add: error_record_from_dict_def, simp_all add: error_record_value_def q_def)
qed

lemma error_record_from_dict_wf: "error_record_from_dict v = Inr r \<Longrightarrow> wf_record r"
  unfolding error_record_from_dict_def Let_def
  by (auto simp: res_simps error_record_to_dict_def wf_record_def nonempty_str_iff
           split: option.splits if_splits)


definition sample_upstream :: exn where
  "sample_upstream = Upstream 503
     (PDict [(''error'', PDict [(''message'', PStr ''busy'')])]) ''https://host/v1''"

lemma sample_upstream_wf: "wf_record (to_record sample_upstream)"
  by (simp add: sample_upstream_def wf_record_def)


end
