(* ===== verification/Effects.thy ===== *)
theory Effects
  imports Errors
begin

text \<open>
  Code with effects: an action maps the state to the new state and the value it returns or the
  exception it raises; the state is kept when an exception is raised.  The weakest precondition
  \<open>wp\<close> of an action speaks of both outcomes, and its rules let a proof follow the code.
\<close>

type_synonym ('s, 'a) act = "'s \<Rightarrow> 's \<times> (exn + 'a)"

definition ret :: "'a \<Rightarrow> ('s, 'a) act" where
  "ret x s = (s, Inr x)"

definition raise :: "exn \<Rightarrow> ('s, 'a) act" where
  "raise e s = (s, Inl e)"

definition lift :: "exn + 'a \<Rightarrow> ('s, 'a) act" where
  "lift r s = (s, r)"

definition andthen :: "('s, 'a) act \<Rightarrow> ('a \<Rightarrow> ('s, 'b) act) \<Rightarrow> ('s, 'b) act" where
  "andthen m f s = (case m s of (t, Inl e) \<Rightarrow> (t, Inl e) | (t, Inr x) \<Rightarrow> f x t)"

text \<open>\<open>try: m  except BaseException as exc: h(exc)\<close>\<close>

definition catch :: "('s, 'a) act \<Rightarrow> (exn \<Rightarrow> ('s, 'a) act) \<Rightarrow> ('s, 'a) act" where
  "catch m h s = (case m s of (t, Inl e) \<Rightarrow> h e t | (t, Inr x) \<Rightarrow> (t, Inr x))"

text \<open>\<open>try: m  finally: after\<close>: an exception of \<open>after\<close> replaces the outcome.\<close>

definition finally_act :: "('s, 'a) act \<Rightarrow> ('s, unit) act \<Rightarrow> ('s, 'a) act" where
  "finally_act m after s =
     (case m s of (t, r) \<Rightarrow> case after t of (u, Inl e) \<Rightarrow> (u, Inl e) | (u, Inr _) \<Rightarrow> (u, r))"

definition read_state :: "('s, 's) act" where
  "read_state s = (s, Inr s)"

section \<open>Weakest preconditions\<close>

definition wp :: "('s, 'a) act \<Rightarrow> ('a \<Rightarrow> 's \<Rightarrow> bool) \<Rightarrow> (exn \<Rightarrow> 's \<Rightarrow> bool) \<Rightarrow> 's \<Rightarrow> bool" where
  "wp m Q E s \<longleftrightarrow> (case m s of (t, Inl e) \<Rightarrow> E e t | (t, Inr x) \<Rightarrow> Q x t)"

named_theorems wp_simps "how weakest preconditions pass through the combinators"

lemma wp_ret [wp_simps]: "wp (ret x) Q E s \<longleftrightarrow> Q x s"
  by (simp add: wp_def ret_def)

lemma wp_raise [wp_simps]: "wp (raise e) Q E s \<longleftrightarrow> E e s"
  by (simp add: wp_def raise_def)

lemma wp_lift [wp_simps]: "wp (lift r) Q E s \<longleftrightarrow> (case r of Inl e \<Rightarrow> E e s | Inr x \<Rightarrow> Q x s)"
  by (simp add: wp_def lift_def split: sum.split)

lemma wp_andthen [wp_simps]: "wp (andthen m f) Q E s \<longleftrightarrow> wp m (\<lambda>x. wp (f x) Q E) E s"
  by (simp add: wp_def andthen_def split: prod.split sum.split)

lemma wp_catch [wp_simps]: "wp (catch m h) Q E s \<longleftrightarrow> wp m Q (\<lambda>e. wp (h e) Q E) s"
  by (simp add: wp_def catch_def split: prod.split sum.split)

lemma wp_finally [wp_simps]:
  "wp (finally_act m after) Q E s \<longleftrightarrow>
   wp m (\<lambda>x. wp after (\<lambda>_. Q x) E) (\<lambda>e. wp after (\<lambda>_. E e) E) s"
  by (simp add: wp_def finally_act_def split: prod.split sum.split)

lemma wp_read_state [wp_simps]: "wp read_state Q E s \<longleftrightarrow> Q s s"
  by (simp add: wp_def read_state_def)

lemma wp_if [wp_simps]: "wp (if b then m else n) Q E s \<longleftrightarrow> (if b then wp m Q E s else wp n Q E s)"
  by simp

lemma wp_mono:
  "wp m Q E s \<Longrightarrow> (\<And>x t. Q x t \<Longrightarrow> Q' x t) \<Longrightarrow> (\<And>e t. E e t \<Longrightarrow> E' e t) \<Longrightarrow> wp m Q' E' s"
  by (auto simp: wp_def split: prod.split_asm sum.split_asm)

lemma wp_conj: "wp m Q E s \<Longrightarrow> wp m Q' E' s \<Longrightarrow> wp m (\<lambda>x t. Q x t \<and> Q' x t) (\<lambda>e t. E e t \<and> E' e t) s"
  by (auto simp: wp_def split: prod.split_asm sum.split_asm)

lemma wpI: "(\<And>t x. m s = (t, Inr x) \<Longrightarrow> Q x t) \<Longrightarrow> (\<And>t e. m s = (t, Inl e) \<Longrightarrow> E e t) \<Longrightarrow> wp m Q E s"
  by (auto simp: wp_def split: prod.split sum.split)

lemma wp_result: "m s = (t, r) \<Longrightarrow> wp m Q E s \<Longrightarrow> (case r of Inl e \<Rightarrow> E e t | Inr x \<Rightarrow> Q x t)"
  by (simp add: wp_def)

section \<open>Relations kept by an action\<close>

text \<open>The states an action can lead to, however it ends, are related to the one it started in.\<close>

definition keeps :: "('s \<Rightarrow> 's \<Rightarrow> bool) \<Rightarrow> ('s, 'a) act \<Rightarrow> bool" where
  "keeps R m \<longleftrightarrow> (\<forall>s. R s (fst (m s)))"

text \<open>
  A preorder on the states.  What every operation of a component keeps, every program built
  from its operations keeps.
\<close>

locale state_order =
  fixes R :: "'s \<Rightarrow> 's \<Rightarrow> bool"
  assumes refl: "R s s"
    and trans: "R s t \<Longrightarrow> R t u \<Longrightarrow> R s u"
begin

lemma keeps_ret: "keeps R (ret x)"
  by (simp add: keeps_def ret_def refl)

lemma keeps_raise: "keeps R (raise e)"
  by (simp add: keeps_def raise_def refl)

lemma keeps_lift: "keeps R (lift r)"
  by (simp add: keeps_def lift_def refl)

lemma keeps_read_state: "keeps R read_state"
  by (simp add: keeps_def read_state_def refl)

lemma keeps_andthen: "keeps R m \<Longrightarrow> (\<And>x. keeps R (f x)) \<Longrightarrow> keeps R (andthen m f)"
  unfolding keeps_def
proof (intro allI)
  fix s
  assume m: "\<forall>s. R s (fst (m s))" and f: "\<And>x. \<forall>s. R s (fst (f x s))"
  obtain t r where t: "m s = (t, r)" by (cases "m s")
  then have "R s t" using m [rule_format, of s] by simp
  then show "R s (fst (andthen m f s))"
    using t f trans by (auto simp: andthen_def split: sum.split)
qed

lemma keeps_catch: "keeps R m \<Longrightarrow> (\<And>e. keeps R (h e)) \<Longrightarrow> keeps R (catch m h)"
  unfolding keeps_def
proof (intro allI)
  fix s
  assume m: "\<forall>s. R s (fst (m s))" and h: "\<And>e. \<forall>s. R s (fst (h e s))"
  obtain t r where t: "m s = (t, r)" by (cases "m s")
  then have "R s t" using m [rule_format, of s] by simp
  then show "R s (fst (catch m h s))"
    using t h trans by (auto simp: catch_def split: sum.split)
qed

lemma keeps_finally: "keeps R m \<Longrightarrow> keeps R h \<Longrightarrow> keeps R (finally_act m h)"
  unfolding keeps_def
proof (intro allI)
  fix s
  assume m: "\<forall>s. R s (fst (m s))" and h: "\<forall>s. R s (fst (h s))"
  obtain t r where t: "m s = (t, r)" by (cases "m s")
  obtain u q where u: "h t = (u, q)" by (cases "h t")
  have "R s t" "R t u" using m [rule_format, of s] h [rule_format, of t] t u by simp_all
  then have "R s u" by (rule trans)
  then show "R s (fst (finally_act m h s))"
    using t u by (auto simp: finally_act_def split: sum.split)
qed

lemma keeps_if: "keeps R m \<Longrightarrow> keeps R n \<Longrightarrow> keeps R (if b then m else n)"
  by simp

lemma keeps_option:
  "keeps R m \<Longrightarrow> (\<And>x. keeps R (f x)) \<Longrightarrow> keeps R (case v of None \<Rightarrow> m | Some x \<Rightarrow> f x)"
  by (simp split: option.split)

lemma keeps_sum:
  "(\<And>x. keeps R (f x)) \<Longrightarrow> (\<And>y. keeps R (g y)) \<Longrightarrow> keeps R (case v of Inl x \<Rightarrow> f x | Inr y \<Rightarrow> g y)"
  by (simp split: sum.split)

lemmas keeps_intros =
  keeps_ret keeps_raise keeps_lift keeps_read_state keeps_andthen keeps_catch keeps_finally
  keeps_if keeps_option keeps_sum

end

end
