(* ===== verification/Types.thy ===== *)
theory Types
  imports Errors
begin

text \<open>
  \<open>rlm/types.py\<close>: roles, token usage, the result of one executed cell with the invariant
  its constructor enforces, the aligned result of a text batch, and the identity and result of
  a run.  Values are immutable here, so the snapshots the code takes with
  \<open>copy.deepcopy\<close> are the values themselves.
\<close>

section \<open>Roles and usage\<close>

datatype model_role = Controller | Public | Subcall

fun role_value :: "model_role \<Rightarrow> string" where
  "role_value Controller = ''controller''"
| "role_value Public = ''public''"
| "role_value Subcall = ''subcall''"

record model_call_context =
  mc_run_id :: string
  mc_branch_id :: string
  mc_call_id :: string
  mc_role :: model_role
  mc_depth :: nat

record token_usage =
  input_tokens :: int
  output_tokens :: int
  calls :: int
  unreported_calls :: int

definition zero_usage :: token_usage where
  "zero_usage = \<lparr>input_tokens = 0, output_tokens = 0, calls = 0, unreported_calls = 0\<rparr>"

definition total_tokens :: "token_usage \<Rightarrow> int" where
  "total_tokens u = input_tokens u + output_tokens u"

definition add_usage :: "token_usage \<Rightarrow> token_usage \<Rightarrow> token_usage" where
  "add_usage u v =
     \<lparr>input_tokens = input_tokens u + input_tokens v,
      output_tokens = output_tokens u + output_tokens v,
      calls = calls u + calls v,
      unreported_calls = unreported_calls u + unreported_calls v\<rparr>"

definition usage_to_dict :: "token_usage \<Rightarrow> dict" where
  "usage_to_dict u =
     [(''input_tokens'', PInt (input_tokens u)), (''output_tokens'', PInt (output_tokens u)),
      (''calls'', PInt (calls u)), (''unreported_calls'', PInt (unreported_calls u))]"

section \<open>The result of one cell\<close>

datatype host_failure_kind = HFRlmError | HFInfrastructure

fun host_failure_kind_value :: "host_failure_kind \<Rightarrow> string" where
  "host_failure_kind_value HFRlmError = ''rlm_error''"
| "host_failure_kind_value HFInfrastructure = ''infrastructure''"

datatype execution_fault_kind = EFExecution | EFModelOutput | EFFinalSubmission

fun execution_fault_kind_value :: "execution_fault_kind \<Rightarrow> string" where
  "execution_fault_kind_value EFExecution = ''execution''"
| "execution_fault_kind_value EFModelOutput = ''model_output''"
| "execution_fault_kind_value EFFinalSubmission = ''final_submission''"

record host_failure =
  hf_kind :: host_failure_kind
  hf_error :: error_record
  hf_causal_parent :: "string option"

record execution_exception =
  xe_type :: string
  xe_message :: string
  xe_fault_kind :: execution_fault_kind
  xe_code :: "string option"
  xe_traceback :: "string option"
  xe_details :: "dict option"

datatype output_channel = ChStdout | ChStderr | ChDisplay | ChTraceback

fun channel_value :: "output_channel \<Rightarrow> string" where
  "channel_value ChStdout = ''stdout''"
| "channel_value ChStderr = ''stderr''"
| "channel_value ChDisplay = ''display''"
| "channel_value ChTraceback = ''traceback''"

record output_truncation =
  tr_channel :: output_channel
  tr_original :: int
  tr_retained :: int
  tr_omitted :: int

datatype submission = TextSubmission string | ResponseSubmission dict

text \<open>\<open>ResponseSubmission.__post_init__\<close>\<close>

definition response_submission :: "py \<Rightarrow> exn + submission" where
  "response_submission response =
     (case as_dict response of
        None \<Rightarrow> Inl (type_error ''response submission response must be a mapping'')
      | Some d \<Rightarrow>
          (case json_compatibility_error (PDict d) of
             Some e \<Rightarrow> Inl (type_error (''response submission must be strict JSON: '' @ e))
           | None \<Rightarrow> Inr (ResponseSubmission d)))"

definition text_submission :: "py \<Rightarrow> exn + submission" where
  "text_submission text =
     (case as_str text of
        None \<Rightarrow> Inl (type_error ''text submission text must be a string'')
      | Some s \<Rightarrow> Inr (TextSubmission s))"

record execution_result =
  er_stdout :: string
  er_stderr :: string
  er_display :: string
  er_exception :: "execution_exception option"
  er_host_failure :: "host_failure option"
  er_submission :: "submission option"
  er_namespace :: "(string \<times> string) list"
  er_truncations :: "output_truncation list"
  er_duration :: rat

definition empty_execution :: execution_result where
  "empty_execution =
     \<lparr>er_stdout = [], er_stderr = [], er_display = [], er_exception = None,
      er_host_failure = None, er_submission = None, er_namespace = [], er_truncations = [],
      er_duration = 0\<rparr>"

text \<open>\<open>ExecutionResult.__post_init__\<close>: the constructor as a checked function.\<close>

definition mk_execution_result :: "execution_result \<Rightarrow> exn + execution_result" where
  "mk_execution_result r =
     (if er_submission r \<noteq> None \<and> (er_exception r \<noteq> None \<or> er_host_failure r \<noteq> None)
      then Inl (value_error ''execution submission cannot accompany an exception or host failure'')
      else if er_exception r \<noteq> None \<and> er_host_failure r \<noteq> None
      then Inl (value_error ''execution result cannot contain both exception and host failure'')
      else Inr r)"

definition wf_execution :: "execution_result \<Rightarrow> bool" where
  "wf_execution r \<longleftrightarrow>
     (er_submission r = None \<or> er_exception r = None \<and> er_host_failure r = None)
     \<and> (er_exception r = None \<or> er_host_failure r = None)"

lemma mk_execution_result_iff: "mk_execution_result r = Inr q \<longleftrightarrow> q = r \<and> wf_execution r"
  by (auto simp: mk_execution_result_def wf_execution_def)

definition execution_output :: "execution_result \<Rightarrow> string" where
  "execution_output r =
     join_str [CHR 0x0A]
       (map rstrip (filter (\<lambda>p. p \<noteq> []) [er_stdout r, er_stderr r, er_display r]))"

definition exception_to_dict :: "execution_exception \<Rightarrow> dict" where
  "exception_to_dict x =
     [(''type'', PStr (xe_type x)), (''message'', PStr (xe_message x)),
      (''fault_kind'', PStr (execution_fault_kind_value (xe_fault_kind x))),
      (''code'', opt_str (xe_code x)), (''traceback'', opt_str (xe_traceback x)),
      (''details'', opt_dict (xe_details x))]"

definition truncation_to_dict :: "output_truncation \<Rightarrow> dict" where
  "truncation_to_dict t =
     [(''channel'', PStr (channel_value (tr_channel t))), (''original_chars'', PInt (tr_original t)),
      (''retained_chars'', PInt (tr_retained t)), (''omitted_chars'', PInt (tr_omitted t))]"

fun submission_to_dict :: "submission \<Rightarrow> dict" where
  "submission_to_dict (TextSubmission s) = [(''text'', PStr s)]"
| "submission_to_dict (ResponseSubmission d) = [(''response'', PDict d)]"

definition namespace_dict :: "(string \<times> string) list \<Rightarrow> dict" where
  "namespace_dict ns = map (\<lambda>p. (fst p, PStr (snd p))) ns"

definition host_failure_to_dict :: "host_failure \<Rightarrow> exn + dict" where
  "host_failure_to_dict h =
     ebind (error_record_to_dict (hf_error h)) (\<lambda>e.
       Inr [(''kind'', PStr (host_failure_kind_value (hf_kind h))), (''error'', PDict e),
            (''causal_parent_event_id'', opt_str (hf_causal_parent h))])"

definition execution_to_dict :: "execution_result \<Rightarrow> exn + dict" where
  "execution_to_dict r =
     ebind (case er_host_failure r of None \<Rightarrow> Inr PNone
            | Some h \<Rightarrow> ebind (host_failure_to_dict h) (\<lambda>d. Inr (PDict d))) (\<lambda>hf.
       Inr [(''stdout'', PStr (er_stdout r)), (''stderr'', PStr (er_stderr r)),
            (''display'', PStr (er_display r)),
            (''exception'', opt_dict (map_option exception_to_dict (er_exception r))),
            (''host_failure'', hf),
            (''submission'', opt_dict (map_option submission_to_dict (er_submission r))),
            (''namespace'', PDict (namespace_dict (er_namespace r))),
            (''truncations'', PList (map (\<lambda>t. PDict (truncation_to_dict t)) (er_truncations r))),
            (''duration_seconds'', PFloat (Fin (er_duration r)))])"

section \<open>Text batches\<close>

datatype text_failure_kind = EmptyText | IncompleteResponse

fun text_failure_kind_value :: "text_failure_kind \<Rightarrow> string" where
  "text_failure_kind_value EmptyText = ''empty_text''"
| "text_failure_kind_value IncompleteResponse = ''incomplete_response''"

record text_failure =
  tf_index :: int
  tf_kind :: text_failure_kind
  tf_response :: dict

definition failure_summary :: "text_failure \<Rightarrow> dict" where
  "failure_summary f =
     [(''index'', PInt (tf_index f)), (''kind'', PStr (text_failure_kind_value (tf_kind f))),
      (''status'', pget (tf_response f) ''status''),
      (''incomplete_details'', pget (tf_response f) ''incomplete_details''),
      (''usage'', pget (tf_response f) ''usage'')]"

record ask_batch_result =
  ab_texts :: "string option list"
  ab_responses :: "dict list"
  ab_failures :: "text_failure list"

fun missing_from :: "int \<Rightarrow> string option list \<Rightarrow> int list" where
  "missing_from i [] = []"
| "missing_from i (t # ts) = (if t = None then i # missing_from (i + 1) ts else missing_from (i + 1) ts)"

definition mk_ask_batch_result :: "ask_batch_result \<Rightarrow> exn + ask_batch_result" where
  "mk_ask_batch_result b =
     (let failed = map tf_index (ab_failures b); n = int (length (ab_texts b))
      in if length (ab_texts b) \<noteq> length (ab_responses b)
         then Inl (value_error ''batch texts and responses must have equal lengths'')
         else if \<not> distinct failed \<or> \<not> list_all (\<lambda>i. 0 \<le> i \<and> i < n) failed
         then Inl (value_error ''batch failures must have unique in-range indexes'')
         else if failed \<noteq> missing_from 0 (ab_texts b)
         then Inl (value_error ''batch failures must exactly identify missing texts'')
         else Inr b)"

text \<open>\<open>require_texts\<close> raises \<open>ModelOutputFault\<close>: its message and details.\<close>

datatype text_fault = ModelOutputFault string dict | AlignmentError

definition failed_indexes_text :: "int list \<Rightarrow> string" where
  "failed_indexes_text is =
     (case is of [i] \<Rightarrow> ''('' @ show_int i @ '',)''
      | _ \<Rightarrow> ''('' @ join_str '', '' (map show_int is) @ '')'')"

definition require_texts :: "ask_batch_result \<Rightarrow> text_fault + string list" where
  "require_texts b =
     (if ab_failures b \<noteq> []
      then Inl (ModelOutputFault
             (''ask_batch has unusable text at indexes ''
                @ failed_indexes_text (map tf_index (ab_failures b)))
             [(''failures'', PList (map (\<lambda>f. PDict (failure_summary f)) (ab_failures b)))])
      else if None \<in> set (ab_texts b) then Inl AlignmentError
      else Inr (map the (ab_texts b)))"

lemma missing_from_iff:
  "i \<in> set (missing_from k ts) \<longleftrightarrow> k \<le> i \<and> i < k + int (length ts) \<and> ts ! nat (i - k) = None"
proof (induction ts arbitrary: k)
  case Nil
  then show ?case by simp
next
  case (Cons t ts)
  have "nat (i - k) = Suc (nat (i - (k + 1)))" if "k + 1 \<le> i" using that by simp
  then show ?case
    using Cons [of "k + 1"] by (cases "i = k") (auto simp: nth_Cons')
qed

lemma missing_from_Nil: "missing_from k ts = [] \<longleftrightarrow> None \<notin> set ts"
  by (induction ts arbitrary: k) auto

lemma distinct_missing_from: "distinct (missing_from k ts)"
  by (induction ts arbitrary: k) (auto simp: missing_from_iff)

lemma mk_ask_batch_iff:
  "mk_ask_batch_result b = Inr q \<longleftrightarrow>
   q = b \<and> length (ab_texts b) = length (ab_responses b)
   \<and> map tf_index (ab_failures b) = missing_from 0 (ab_texts b)"
proof -
  have "list_all (\<lambda>i. 0 \<le> i \<and> i < int (length (ab_texts b))) (map tf_index (ab_failures b))"
    if "map tf_index (ab_failures b) = missing_from 0 (ab_texts b)"
    unfolding that by (simp add: list_all_iff missing_from_iff)
  moreover have "distinct (map tf_index (ab_failures b))"
    if "map tf_index (ab_failures b) = missing_from 0 (ab_texts b)"
    unfolding that by (rule distinct_missing_from)
  ultimately show ?thesis
    unfolding mk_ask_batch_result_def Let_def by (auto simp del: distinct_map)
qed


definition sample_batch :: ask_batch_result where
  "sample_batch =
     \<lparr>ab_texts = [Some ''a'', None],
      ab_responses = [[(''id'', PStr ''r0'')], [(''id'', PStr ''r1'')]],
      ab_failures = [\<lparr>tf_index = 1, tf_kind = EmptyText, tf_response = [(''id'', PStr ''r1'')]\<rparr>]\<rparr>"


section \<open>Runs\<close>

text \<open>\<open>_canonical_duration_seconds\<close>: six decimals, from a finite nonnegative number.\<close>

definition canonical_duration_seconds :: "py \<Rightarrow> exn + rat" where
  "canonical_duration_seconds value =
     (case as_number value of
        Some (Fin r) \<Rightarrow>
          if r < 0 then Inl (value_error ''duration_seconds must be a finite nonnegative number'')
          else Inr (round_dec 6 r)
      | _ \<Rightarrow> Inl (value_error ''duration_seconds must be a finite nonnegative number''))"

record controller_run_identity =
  ci_model :: string
  ci_options_sha256 :: string

definition mk_controller_run_identity :: "string \<Rightarrow> string \<Rightarrow> exn + controller_run_identity" where
  "mk_controller_run_identity m sha =
     (if m = [] then Inl (value_error ''controller identity model must be non-empty'')
      else if \<not> is_sha256_text sha
      then Inl (value_error ''controller identity options_sha256 must be a SHA-256 digest'')
      else Inr \<lparr>ci_model = m, ci_options_sha256 = sha\<rparr>)"

record run_result =
  rr_response :: dict
  rr_run_id :: string
  rr_stop_reason :: string
  rr_usage :: token_usage
  rr_turns :: nat
  rr_duration :: rat
  rr_identity :: controller_run_identity
  rr_harness_fingerprint :: string
  rr_trace_directory :: "string option"

definition mk_run_result :: "run_result \<Rightarrow> exn + run_result" where
  "mk_run_result r =
     ebind (canonical_duration_seconds (PFloat (Fin (rr_duration r)))) (\<lambda>d.
       if \<not> is_sha256_text (rr_harness_fingerprint r)
       then Inl (value_error ''run result requires a harness SHA-256 fingerprint'')
       else Inr (r\<lparr>rr_duration := d\<rparr>))"

lemma canonical_duration_ok:
  "canonical_duration_seconds (PFloat (Fin r)) = Inr d \<longleftrightarrow> 0 \<le> r \<and> d = round_dec 6 r"
  by (auto simp: canonical_duration_seconds_def)

lemma canonical_duration_idem:
  assumes "canonical_duration_seconds v = Inr d"
  shows "canonical_duration_seconds (PFloat (Fin d)) = Inr d"
proof -
  obtain r where "0 \<le> r" "d = round_dec 6 r"
    using assms
    by (fastforce simp: canonical_duration_seconds_def not_less split: option.splits fl.splits if_splits)
  then show ?thesis
    by (simp add: canonical_duration_ok round_dec_nonneg round_dec_idem)
qed

text \<open>The recorded duration is canonical: rounding to six decimals is idempotent, keeps the value
  nonnegative and moves it by at most half a microsecond, and a negative or non-finite number is
  refused.\<close>

theorem duration_canonical:
  "canonical_duration_seconds v = Inr d \<longleftrightarrow>
   (\<exists>r. as_number v = Some (Fin r) \<and> 0 \<le> r \<and> d = round_dec 6 r \<and> 0 \<le> d
      \<and> \<bar>d - r\<bar> \<le> 1 / (2 * 10 ^ 6)
      \<and> canonical_duration_seconds (PFloat (Fin d)) = Inr d)"
proof -
  have "\<bar>round_dec 6 r - r\<bar> \<le> 1 / (2 * 10 ^ 6)" for r
    by (rule round_dec_close)
  moreover have "canonical_duration_seconds (PFloat (Fin (round_dec 6 r))) = Inr (round_dec 6 r)" if "0 \<le> r" for r
    using that by (simp add: canonical_duration_ok round_dec_nonneg round_dec_idem)
  moreover have "canonical_duration_seconds v = Inr d \<longleftrightarrow>
      (\<exists>r. as_number v = Some (Fin r) \<and> 0 \<le> r \<and> d = round_dec 6 r)"
    by (auto simp: canonical_duration_seconds_def split: option.splits fl.splits if_splits)
  ultimately show ?thesis
    using round_dec_nonneg by blast
qed

end
