(* ===== verification/Response.thy ===== *)
theory Response
  imports Types
begin

text \<open>
  \<open>rlm/response.py\<close>: what a Responses object must look like, the minimal text response the
  runtime builds, and the text a response carries.  The two fresh identifiers and the clock of
  \<open>text_response\<close> are arguments.
\<close>

section \<open>Validation\<close>

definition response_statuses :: "string list" where
  "response_statuses =
     [''cancelled'', ''completed'', ''failed'', ''in_progress'', ''incomplete'', ''queued'']"

definition output_item_statuses :: "string list" where
  "output_item_statuses = [''completed'', ''in_progress'', ''incomplete'']"

definition synthetic_text_request_fields :: "string list" where
  "synthetic_text_request_fields =
     [''model'', ''input'', ''instructions'', ''temperature'', ''top_p'', ''max_output_tokens'', ''store'']"

definition requires_complete_response :: "dict \<Rightarrow> bool" where
  "requires_complete_response request \<longleftrightarrow>
     list_ex (\<lambda>name. name \<notin> set synthetic_text_request_fields) (keys request)"

definition status_in :: "string list \<Rightarrow> py \<Rightarrow> bool" where
  "status_in statuses v \<longleftrightarrow> (case as_str v of Some s \<Rightarrow> s \<in> set statuses | None \<Rightarrow> False)"

text \<open>The parts of a message: the index, then what is wrong with the part.\<close>

fun validate_parts :: "nat \<Rightarrow> py list \<Rightarrow> string option" where
  "validate_parts i [] = None"
| "validate_parts i (part # parts) =
     (let pos = ''message content['' @ show_nat i @ '']'' in
      case as_dict part of
        None \<Rightarrow> Some (pos @ '' must be a typed object'')
      | Some d \<Rightarrow>
          if \<not> nonempty_str (pget d ''type'') then Some (pos @ '' must be a typed object'')
          else if pget d ''type'' = PStr ''output_text'' \<and> as_str (pget d ''text'') = None
          then Some (pos @ '' output_text requires a string text'')
          else if pget d ''type'' = PStr ''refusal'' \<and> as_str (pget d ''refusal'') = None
          then Some (pos @ '' refusal requires a string refusal'')
          else validate_parts (Suc i) parts)"

definition validate_message_item :: "dict \<Rightarrow> string option" where
  "validate_message_item d =
     (if pget d ''role'' \<noteq> PStr ''assistant'' then Some (''message item role must be '' @ py_repr ''assistant'')
      else if \<not> status_in output_item_statuses (pget d ''status'')
      then Some ''message item has an unrecognized status''
      else case as_list (pget d ''content'') of
          None \<Rightarrow> Some ''message item content must be a list''
        | Some parts \<Rightarrow> validate_parts 0 parts)"

definition known_item_types :: "string list" where
  "known_item_types = [''reasoning'', ''function_call'', ''computer_call'', ''file_search_call'']"

definition validate_output_item :: "py \<Rightarrow> string option" where
  "validate_output_item v =
     (case as_dict v of
        None \<Rightarrow> Some ''item must be an object''
      | Some d \<Rightarrow>
          if \<not> nonempty_str (pget d ''id'') then Some ''item requires a non-empty string id''
          else if \<not> nonempty_str (pget d ''type'') then Some ''item requires a non-empty string type''
          else if ''status'' \<in> set (keys d) \<and> \<not> status_in output_item_statuses (pget d ''status'')
          then Some ''item has an unrecognized status''
          else if pget d ''type'' = PStr ''message'' then validate_message_item d
          else if the (as_str (pget d ''type'')) \<notin> set known_item_types
                  \<and> list_all (\<lambda>k. k \<in> {''id'', ''type'', ''status''}) (keys d)
          then Some ''unknown item requires a non-empty payload''
          else None)"

fun validate_output :: "nat \<Rightarrow> py list \<Rightarrow> string option" where
  "validate_output i [] = None"
| "validate_output i (v # vs) =
     (case validate_output_item v of
        Some e \<Rightarrow> Some (''Responses output['' @ show_nat i @ ''] '' @ e)
      | None \<Rightarrow> validate_output (Suc i) vs)"

text \<open>The error object of a failed response.\<close>

definition validate_failure :: "dict \<Rightarrow> string option" where
  "validate_failure d =
     (if pget d ''status'' \<noteq> PStr ''failed'' then None
      else case as_dict (pget d ''error'') of
        None \<Rightarrow> Some ''failed Responses response requires an error with a non-empty message''
      | Some e \<Rightarrow>
          if \<not> nonempty_str (pget e ''message'')
          then Some ''failed Responses response requires an error with a non-empty message''
          else if ''code'' \<in> set (keys e) \<and> as_str (pget e ''code'') = None
          then Some ''failed Responses response error code must be a string''
          else None)"

definition validate_response_envelope :: "py \<Rightarrow> string option" where
  "validate_response_envelope v =
     (case as_dict v of
        None \<Rightarrow> Some (''Responses response requires an object, got '' @ type_name v)
      | Some d \<Rightarrow>
      case json_compatibility_error v of
        Some e \<Rightarrow> Some (''Responses response requires strict JSON: '' @ e)
      | None \<Rightarrow>
          if \<not> nonempty_str (pget d ''id'') then Some ''Responses response requires a non-empty string id''
          else if pget d ''object'' \<noteq> PStr ''response''
          then Some (''Responses response object must equal '' @ py_repr ''response'')
          else if \<not> nonempty_str (pget d ''model'')
          then Some ''Responses response requires a non-empty string model''
          else if \<not> status_in response_statuses (pget d ''status'')
          then Some ''Responses response has an unrecognized status''
          else case validate_failure d of
            Some e \<Rightarrow> Some e
          | None \<Rightarrow>
          case as_list (pget d ''output'') of
            None \<Rightarrow> Some ''Responses response must contain an output list''
          | Some out \<Rightarrow> validate_output 0 out)"

definition validate_terminal_response :: "py \<Rightarrow> string option" where
  "validate_terminal_response v =
     (case validate_response_envelope v of
        Some e \<Rightarrow> Some e
      | None \<Rightarrow>
          let d = the (as_dict v); status = the (as_str (pget d ''status''));
              out = the (as_list (pget d ''output''))
          in if status \<noteq> ''completed''
             then Some (''Responses response has nonterminal status '' @ py_repr status)
             else if pget d ''error'' \<noteq> PNone
             then Some ''completed Responses response must not contain an error''
             else if out = [] \<or> \<not> list_ex (\<lambda>v. case as_dict v of Some it \<Rightarrow> pget it ''type'' \<noteq> PStr ''reasoning''
                                                | None \<Rightarrow> False) out
             then Some ''Responses response contains no terminal output''
             else None)"

section \<open>Text of a response\<close>

fun part_texts :: "py list \<Rightarrow> string list" where
  "part_texts [] = []"
| "part_texts (part # parts) =
     (case as_dict part of
        Some d \<Rightarrow> (case (pget d ''type'', pget d ''text'') of
            (PStr t, PStr s) \<Rightarrow> if t = ''output_text'' then s # part_texts parts else part_texts parts
          | _ \<Rightarrow> part_texts parts)
      | None \<Rightarrow> part_texts parts)"

fun message_texts :: "py list \<Rightarrow> string list" where
  "message_texts [] = []"
| "message_texts (v # vs) =
     (case as_dict v of
        Some d \<Rightarrow>
          if pget d ''type'' \<noteq> PStr ''message'' then message_texts vs
          else (case as_list (pget d ''content'') of
                  None \<Rightarrow> message_texts vs
                | Some parts \<Rightarrow> part_texts parts @ message_texts vs)
      | None \<Rightarrow> message_texts vs)"

definition response_output_text :: "dict \<Rightarrow> string" where
  "response_output_text response =
     (case as_str (pget response ''output_text'') of
        Some s \<Rightarrow> s
      | None \<Rightarrow> (case as_list (pget response ''output'') of
            None \<Rightarrow> []
          | Some out \<Rightarrow> concat (message_texts out)))"

section \<open>The synthetic text response\<close>

definition usage_payload :: "token_usage \<Rightarrow> dict" where
  "usage_payload u =
     [(''input_tokens'', PInt (input_tokens u)),
      (''input_tokens_details'', PDict [(''cached_tokens'', PInt 0)]),
      (''output_tokens'', PInt (output_tokens u)),
      (''output_tokens_details'', PDict [(''reasoning_tokens'', PInt 0)]),
      (''total_tokens'', PInt (total_tokens u))]"

definition text_message :: "string \<Rightarrow> string \<Rightarrow> dict" where
  "text_message msg_hex text =
     [(''id'', PStr (''msg_rlm_'' @ msg_hex)), (''type'', PStr ''message''),
      (''status'', PStr ''completed''), (''role'', PStr ''assistant''),
      (''content'', PList [PDict [(''type'', PStr ''output_text''), (''annotations'', PList []),
         (''logprobs'', PList []), (''text'', PStr text)]])]"

text \<open>The request fields copied into the response, in order.\<close>

definition copied_names :: "string list" where
  "copied_names = [''instructions'', ''max_output_tokens'', ''store'', ''temperature'', ''top_p'']"

definition copied_fields :: "dict \<Rightarrow> dict" where
  "copied_fields request =
     List.map_filter (\<lambda>name. map_option (Pair name) (dget request name)) copied_names"

definition text_response ::
  "string \<Rightarrow> string \<Rightarrow> int \<Rightarrow> dict \<Rightarrow> string \<Rightarrow> token_usage \<Rightarrow> exn + dict" where
  "text_response resp_hex msg_hex created_at request text usage =
     (case dget request ''model'' of
        None \<Rightarrow> Inl (PyExc ''KeyError'' (py_repr ''model''))
      | Some m \<Rightarrow>
          let response =
            [(''id'', PStr (''resp_rlm_'' @ resp_hex)), (''object'', PStr ''response''),
             (''created_at'', PInt created_at), (''status'', PStr ''completed''), (''model'', m),
             (''output'', PList [PDict (text_message msg_hex text)]), (''error'', PNone),
             (''usage'', if unreported_calls usage \<noteq> 0 then PNone else PDict (usage_payload usage))]
            @ copied_fields request
          in case validate_terminal_response (PDict response) of
               Some e \<Rightarrow> Inl (PyExc ''AssertionError''
                  (''synthetic response violated Responses contract: '' @ e))
             | None \<Rightarrow> Inr response)"

section \<open>What the validators establish\<close>

lemma status_in_iff: "status_in ss v \<longleftrightarrow> (\<exists>s\<in>set ss. v = PStr s)"
  by (cases v) (auto simp: status_in_def)

lemma validate_parts_None:
  "validate_parts i parts = None \<longleftrightarrow>
     (\<forall>part\<in>set parts. \<exists>d. part = PDict d \<and> nonempty_str (pget d ''type'')
        \<and> (pget d ''type'' = PStr ''output_text'' \<longrightarrow> (\<exists>s. pget d ''text'' = PStr s))
        \<and> (pget d ''type'' = PStr ''refusal'' \<longrightarrow> (\<exists>s. pget d ''refusal'' = PStr s)))"
  by (induction i parts rule: validate_parts.induct)
     (auto simp: Let_def as_str_None split: option.split if_split_asm)

lemma validate_output_None:
  "validate_output i vs = None \<longleftrightarrow> (\<forall>v\<in>set vs. validate_output_item v = None)"
  by (induction i vs rule: validate_output.induct) (auto split: option.split)

lemma validate_envelope_None:
  "validate_response_envelope v = None \<longleftrightarrow>
     (\<exists>d out. v = PDict d \<and> json_data v \<and> nonempty_str (pget d ''id'')
        \<and> pget d ''object'' = PStr ''response'' \<and> nonempty_str (pget d ''model'')
        \<and> status_in response_statuses (pget d ''status'') \<and> validate_failure d = None
        \<and> pget d ''output'' = PList out \<and> (\<forall>it\<in>set out. validate_output_item it = None))"
  by (auto simp: validate_response_envelope_def validate_output_None
           dest: json_compatibility_error_Some split: option.split)

text \<open>What a consumer of an accepted terminal response may rely on.\<close>

definition terminal_item :: "py \<Rightarrow> bool" where
  "terminal_item v = (case as_dict v of Some it \<Rightarrow> pget it ''type'' \<noteq> PStr ''reasoning'' | None \<Rightarrow> False)"

definition usable_terminal :: "dict \<Rightarrow> bool" where
  "usable_terminal d \<longleftrightarrow> json_dict d \<and> nonempty_str (pget d ''id'') \<and> nonempty_str (pget d ''model'')
     \<and> pget d ''object'' = PStr ''response'' \<and> pget d ''status'' = PStr ''completed'' \<and> pget d ''error'' = PNone
     \<and> (case as_list (pget d ''output'') of
          Some out \<Rightarrow> list_all (\<lambda>it. validate_output_item it = None) out \<and> list_ex terminal_item out
        | None \<Rightarrow> False)"

lemma usable_terminal_iff:
  "usable_terminal d \<longleftrightarrow> (\<exists>out. pget d ''output'' = PList out
     \<and> (\<forall>it\<in>set out. validate_output_item it = None) \<and> list_ex terminal_item out)
     \<and> json_dict d \<and> nonempty_str (pget d ''id'') \<and> nonempty_str (pget d ''model'')
     \<and> pget d ''object'' = PStr ''response'' \<and> pget d ''status'' = PStr ''completed'' \<and> pget d ''error'' = PNone"
  unfolding usable_terminal_def
  by (cases "pget d ''output''") (auto simp: list_all_iff)

lemma usable_envelope: "usable_terminal d \<Longrightarrow> validate_response_envelope (PDict d) = None"
  unfolding validate_envelope_None usable_terminal_iff
  by (elim conjE exE, intro exI conjI) 
     (assumption | simp add: status_in_iff response_statuses_def validate_failure_def)+

lemma validate_terminal_iff:
  "validate_terminal_response v = None \<longleftrightarrow> (\<exists>d. v = PDict d \<and> usable_terminal d)"
proof (cases "validate_response_envelope v")
  case (Some e)
  then show ?thesis using usable_envelope by (auto simp: validate_terminal_response_def)
next
  case None
  then obtain d out s where d: "v = PDict d" "json_dict d" "nonempty_str (pget d ''id'')"
    "pget d ''object'' = PStr ''response''" "nonempty_str (pget d ''model'')"
    "pget d ''status'' = PStr s"
    "pget d ''output'' = PList out" "\<forall>it\<in>set out. validate_output_item it = None"
    by (auto simp: validate_envelope_None status_in_iff)
  have "list_ex terminal_item out \<Longrightarrow> out \<noteq> []" by auto
  then show ?thesis
    using None d by (auto simp: validate_terminal_response_def usable_terminal_iff Let_def
        terminal_item_def [abs_def])
qed

section \<open>The synthetic response is valid\<close>

lemma copied_fields_json: "json_dict request \<Longrightarrow> json_dict (copied_fields request)"
proof -
  assume j: "json_dict request"
  have "json_data (snd p)" if p: "p \<in> set (copied_fields request)" for p
  proof -
    obtain v where "dget request (fst p) = Some v" "snd p = v"
      using p by (auto simp: copied_fields_def set_map_filter)
    then show ?thesis using j by (auto simp: list_all_iff dest!: map_of_SomeD)
  qed
  then show ?thesis by (simp add: list_all_iff)
qed

lemma copied_fields_keys: "set (keys (copied_fields request)) \<subseteq> set copied_names"
  by (auto simp: copied_fields_def set_map_filter)

lemma pget_append: "k \<notin> set (keys e) \<Longrightarrow> pget (d @ e) k = pget d k"
proof -
  assume "k \<notin> set (keys e)"
  then have "dget e k = None" by (simp add: map_of_eq_None_iff)
  then show ?thesis by (simp add: pget_def map_add_def split: option.split)
qed

lemma text_response_ok:
  assumes "json_dict request" "dget request ''model'' = Some (PStr m)" "m \<noteq> []"
  shows "\<exists>r. text_response resp_hex msg_hex created_at request text usage = Inr r
      \<and> usable_terminal r \<and> response_output_text r = text \<and> pget r ''model'' = PStr m"
proof -
  define r where "r = [(''id'', PStr (''resp_rlm_'' @ resp_hex)), (''object'', PStr ''response''),
             (''created_at'', PInt created_at), (''status'', PStr ''completed''), (''model'', PStr m),
             (''output'', PList [PDict (text_message msg_hex text)]), (''error'', PNone),
             (''usage'', if unreported_calls usage \<noteq> 0 then PNone else PDict (usage_payload usage))]
            @ copied_fields request"
  have k: "pget (d @ copied_fields request) k = pget d k" if "k \<notin> set copied_names" for k d
    using that copied_fields_keys by (intro pget_append) blast
  have n: "''id'' \<notin> set copied_names" "''object'' \<notin> set copied_names" "''status'' \<notin> set copied_names"
    "''model'' \<notin> set copied_names" "''output'' \<notin> set copied_names" "''error'' \<notin> set copied_names"
    "''output_text'' \<notin> set copied_names"
    by (simp_all add: copied_names_def)
  have get: "pget r ''id'' = PStr (''resp_rlm_'' @ resp_hex)" "pget r ''object'' = PStr ''response''"
    "pget r ''status'' = PStr ''completed''" "pget r ''model'' = PStr m"
    "pget r ''output'' = PList [PDict (text_message msg_hex text)]" "pget r ''error'' = PNone"
    "pget r ''output_text'' = PNone"
    unfolding r_def by (simp_all only: k n not_False_eq_True) simp_all
  have item: "validate_output_item (PDict (text_message msg_hex text)) = None"
    by (simp add: validate_output_item_def text_message_def validate_message_item_def status_in_def
          output_item_statuses_def)
  have "json_dict r"
    using copied_fields_json [OF assms(1)] by (simp add: r_def usage_payload_def text_message_def)
  then have u: "usable_terminal r"
    using assms(3) item by (simp add: usable_terminal_def get terminal_item_def text_message_def)
  moreover have "response_output_text r = text"
    by (simp add: response_output_text_def get text_message_def)
  moreover have "text_response resp_hex msg_hex created_at request text usage = Inr r"
  proof -
    have "validate_terminal_response (PDict r) = None" using u validate_terminal_iff by blast
    then show ?thesis
      unfolding text_response_def assms(2) option.case Let_def r_def [symmetric] by simp
  qed
  ultimately show ?thesis using get(4) by blast
qed


text \<open>\<open>text_response\<close> never trips its own assertion on a strict JSON request with a model: it
  returns a response the terminal validator accepts, naming that model, whose output text is the
  given text.\<close>

theorem text_response_valid:
  assumes "json_dict request" "dget request ''model'' = Some (PStr m)" "m \<noteq> []"
  shows "\<exists>r. text_response resp_hex msg_hex created_at request text usage = Inr r
      \<and> validate_terminal_response (PDict r) = None \<and> response_output_text r = text
      \<and> pget r ''model'' = PStr m"
  using text_response_ok [OF assms] validate_terminal_iff by blast

lemma text_response_valid_witness:
  "\<exists>r. text_response ''0a'' ''0b'' 17 [(''model'', PStr ''m''), (''store'', PBool False)] ''hi'' zero_usage = Inr r
      \<and> validate_terminal_response (PDict r) = None \<and> response_output_text r = ''hi'' \<and> pget r ''model'' = PStr ''m''"
  using text_response_valid [of "[(''model'', PStr ''m''), (''store'', PBool False)]" "''m''"] by simp

end
