(* ===== verification/Abi.thy ===== *)
theory Abi
  imports Types
begin

text \<open>
  \<open>rlm/abi.py\<close>: the host operations with their strict wire payloads, and the registry of the
  functions bound in the controller's environment.  \<open>EnvironmentNamespace\<close> is written out as the
  list of its declarations in source order; an \<open>inspect.Signature\<close> is the text \<open>str\<close> gives.
\<close>

section \<open>Host operations and payloads\<close>

datatype host_operation = ModelComplete | ModelCompleteBatch | RlmComplete | RlmCompleteBatch

fun operation_value :: "host_operation \<Rightarrow> string" where
  "operation_value ModelComplete = ''model_complete''"
| "operation_value ModelCompleteBatch = ''model_complete_batch''"
| "operation_value RlmComplete = ''rlm_complete''"
| "operation_value RlmCompleteBatch = ''rlm_complete_batch''"

text \<open>\<open>HostOperation(text)\<close>, by value.\<close>

definition operation_of :: "string \<Rightarrow> host_operation option" where
  "operation_of s =
     find (\<lambda>op. operation_value op = s) [ModelComplete, ModelCompleteBatch, RlmComplete, RlmCompleteBatch]"

definition is_batch :: "host_operation \<Rightarrow> bool" where
  "is_batch op \<longleftrightarrow> op = ModelCompleteBatch \<or> op = RlmCompleteBatch"

datatype host_payload = RequestPayload "dict option" | BatchPayload "dict list"

definition decode_payload :: "host_operation \<Rightarrow> py \<Rightarrow> exn + host_payload" where
  "decode_payload op raw =
     (case json_compatibility_error raw of
        Some e \<Rightarrow> Inl (HostProtocol (operation_value op @ '' payload is not strict JSON: '' @ e))
      | None \<Rightarrow>
      case as_dict raw of
        None \<Rightarrow> Inl (HostProtocol (operation_value op @ '' payload must be an object''))
      | Some d \<Rightarrow>
          if op = ModelComplete \<or> op = RlmComplete then
            (if set (keys d) \<noteq> {''request''}
             then Inl (HostProtocol (operation_value op @ '' payload requires only '' @ py_repr ''request''))
             else case pget d ''request'' of
                 PNone \<Rightarrow> Inr (RequestPayload None)
               | PDict r \<Rightarrow> Inr (RequestPayload (Some r))
               | _ \<Rightarrow> Inl (HostProtocol (operation_value op @ '' request must be an object or null'')))
          else if set (keys d) \<noteq> {''requests''}
          then Inl (HostProtocol (operation_value op @ '' payload requires only '' @ py_repr ''requests''))
          else case pget d ''requests'' of
              PList rs \<Rightarrow>
                if list_all is_dict rs then Inr (BatchPayload (map (\<lambda>v. the (as_dict v)) rs))
                else Inl (HostProtocol (operation_value op @ '' requests must be a list of objects''))
            | _ \<Rightarrow> Inl (HostProtocol (operation_value op @ '' requests must be a list of objects'')))"

section \<open>The environment registry\<close>

record function_spec =
  fn_name :: string
  fn_signature :: string
  fn_description :: string
  fn_operation :: "host_operation option"
  fn_requires_recursion :: bool

definition render_function :: "function_spec \<Rightarrow> string" where
  "render_function f = fn_name f @ fn_signature f"

definition function_to_dict :: "function_spec \<Rightarrow> dict" where
  "function_to_dict f =
     [(''name'', PStr (fn_name f)), (''signature'', PStr (fn_signature f)),
      (''description'', PStr (fn_description f)),
      (''operation'', opt_str (map_option operation_value (fn_operation f))),
      (''requires_recursion'', PBool (fn_requires_recursion f))]"

record environment_abi =
  abi_version :: string
  abi_request_name :: string
  abi_functions :: "function_spec list"

definition validate_structure :: "environment_abi \<Rightarrow> exn + environment_abi" where
  "validate_structure abi =
     (if abi_version abi = [] \<or> abi_request_name abi = []
      then Inl (value_error ''environment ABI version and request name must be non-empty'')
      else if \<not> distinct (map fn_name (abi_functions abi))
      then Inl (value_error ''environment ABI function names must be unique'')
      else if \<not> distinct (List.map_filter fn_operation (abi_functions abi))
      then Inl (value_error ''environment ABI host operations must be unique'')
      else Inr abi)"

definition enabled_functions :: "environment_abi \<Rightarrow> bool \<Rightarrow> function_spec list" where
  "enabled_functions abi allow_recursion =
     filter (\<lambda>f. allow_recursion \<or> \<not> fn_requires_recursion f) (abi_functions abi)"

definition abi_to_dict :: "environment_abi \<Rightarrow> dict" where
  "abi_to_dict abi =
     [(''version'', PStr (abi_version abi)), (''request_name'', PStr (abi_request_name abi)),
      (''functions'', PList (map (\<lambda>f. PDict (function_to_dict f)) (abi_functions abi)))]"

definition abi_canonical_json :: "environment_abi \<Rightarrow> exn + string" where
  "abi_canonical_json abi = dumps canonical (PDict (abi_to_dict abi))"

definition sha_value :: "py \<Rightarrow> exn + string" where
  "sha_value v = ebind (dumps canonical v) (\<lambda>s. Inr (sha256_text s))"

definition abi_digest :: "environment_abi \<Rightarrow> exn + string" where
  "abi_digest abi = sha_value (PDict (abi_to_dict abi))"

text \<open>\<open>EnvironmentNamespace\<close> and \<open>ENVIRONMENT_ABI\<close>\<close>

definition complete_sig :: string where
  "complete_sig =
     ''(request_obj: dict[str, typing.Any] | None = None) -> dict[str, typing.Any]''"

definition complete_batch_sig :: string where
  "complete_batch_sig =
     ''(requests: collections.abc.Sequence[dict[str, typing.Any]]) -> list[dict[str, typing.Any]]''"

definition environment_functions :: "function_spec list" where
  "environment_functions = [
     \<lparr>fn_name = ''model_complete'', fn_signature = complete_sig,
      fn_description = ''Call the public model and return its exact Responses object.'',
      fn_operation = Some ModelComplete, fn_requires_recursion = False\<rparr>,
     \<lparr>fn_name = ''model_complete_batch'', fn_signature = complete_batch_sig,
      fn_description = ''Call the public model for each full Responses request.'',
      fn_operation = Some ModelCompleteBatch, fn_requires_recursion = False\<rparr>,
     \<lparr>fn_name = ''ask'',
      fn_signature = ''(prompt: str, *, system: str | None = None, model: str | None = None, '' @
        ''options: dict[str, typing.Any] | None = None) -> str'',
      fn_description = ''Call a text model helper and return non-empty text.'',
      fn_operation = None, fn_requires_recursion = False\<rparr>,
     \<lparr>fn_name = ''ask_batch'',
      fn_signature = ''(prompts: collections.abc.Sequence[str], *, system: str | None = None, '' @
        ''model: str | None = None, options: dict[str, typing.Any] | None = None) -> '' @
        ''rlm.types.AskBatchResult'',
      fn_description = ''Call text helpers and preserve index-aligned failures.'',
      fn_operation = None, fn_requires_recursion = False\<rparr>,
     \<lparr>fn_name = ''rlm_complete'', fn_signature = complete_sig,
      fn_description = ''Run one isolated recursive RLM child.'',
      fn_operation = Some RlmComplete, fn_requires_recursion = True\<rparr>,
     \<lparr>fn_name = ''rlm_complete_batch'', fn_signature = complete_batch_sig,
      fn_description = ''Run isolated recursive RLM children for full Responses requests.'',
      fn_operation = Some RlmCompleteBatch, fn_requires_recursion = True\<rparr>,
     \<lparr>fn_name = ''FINAL_TEXT'', fn_signature = ''(text: str) -> NoneType'',
      fn_description = ''Submit exactly one plain-text final answer.'',
      fn_operation = None, fn_requires_recursion = False\<rparr>,
     \<lparr>fn_name = ''FINAL_RESPONSE'',
      fn_signature = ''(response: dict[str, typing.Any]) -> NoneType'',
      fn_description = ''Submit exactly one strict-JSON Responses final answer.'',
      fn_operation = None, fn_requires_recursion = False\<rparr>,
     \<lparr>fn_name = ''SHOW_VARS'', fn_signature = ''() -> dict[str, str]'',
      fn_description = ''Show compact summaries of user-created variables.'',
      fn_operation = None, fn_requires_recursion = False\<rparr>]"

definition ENVIRONMENT_ABI :: environment_abi where
  "ENVIRONMENT_ABI =
     \<lparr>abi_version = ''2'', abi_request_name = ''request'', abi_functions = environment_functions\<rparr>"

section \<open>Installed bindings\<close>

text \<open>An installed value: whether it is callable, and its signature text.\<close>

record binding =
  bn_callable :: bool
  bn_signature :: string

definition names_repr :: "string list \<Rightarrow> string" where
  "names_repr xs = ''['' @ join_str '', '' (map py_repr xs) @ '']''"

fun check_bindings :: "(string \<times> binding) list \<Rightarrow> function_spec list \<Rightarrow> exn + unit" where
  "check_bindings bs [] = Inr ()"
| "check_bindings bs (f # fs) =
     (case dget bs (fn_name f) of
        None \<Rightarrow> Inl (PyExc ''KeyError'' (py_repr (fn_name f)))
      | Some b \<Rightarrow>
          if \<not> bn_callable b
          then Inl (HostProtocol (''environment binding '' @ py_repr (fn_name f) @ '' is not callable''))
          else if bn_signature b \<noteq> fn_signature f
          then Inl (HostProtocol (''environment binding '' @ py_repr (fn_name f) @ '' has signature ''
                 @ bn_signature b @ '', expected '' @ fn_signature f))
          else check_bindings bs fs)"

definition validate_environment_bindings ::
  "environment_abi \<Rightarrow> (string \<times> binding) list \<Rightarrow> bool \<Rightarrow> exn + unit" where
  "validate_environment_bindings abi bs allow_recursion =
     (let expected = enabled_functions abi allow_recursion;
          missing = filter (\<lambda>n. n \<notin> set (keys bs)) (map fn_name expected);
          extra = filter (\<lambda>n. n \<notin> set (map fn_name expected)) (keys bs)
      in if missing \<noteq> []
         then Inl (HostProtocol (''environment bindings missing documented callable(s): ''
                @ names_repr (sort missing)))
         else if extra \<noteq> []
         then Inl (HostProtocol (''environment bindings include undocumented callable(s): ''
                @ names_repr (sort extra)))
         else check_bindings bs expected)"

section \<open>Lemmas\<close>

lemma operation_of_value [simp]: "operation_of (operation_value op) = Some op"
  by (cases op) (simp_all add: operation_of_def)

lemma operation_of_Some: "operation_of s = Some op \<Longrightarrow> s = operation_value op"
  by (auto simp: operation_of_def split: if_split_asm)

text \<open>The typed payload a wire value denotes.\<close>

fun payload_value :: "host_payload \<Rightarrow> py" where
  "payload_value (RequestPayload r) = PDict [(''request'', opt_dict r)]"
| "payload_value (BatchPayload rs) = PDict [(''requests'', PList (map PDict rs))]"

definition payload_fits :: "host_operation \<Rightarrow> host_payload \<Rightarrow> bool" where
  "payload_fits op p \<longleftrightarrow> (case p of RequestPayload r \<Rightarrow> \<not> is_batch op | BatchPayload rs \<Rightarrow> is_batch op)"

lemma payload_value_json:
  "json_data (payload_value (RequestPayload r)) \<longleftrightarrow> json_data (opt_dict r)"
  "json_data (payload_value (BatchPayload rs)) \<longleftrightarrow> (\<forall>r\<in>set rs. json_dict r)"
  by (simp_all add: list_all_iff)

lemma decode_payload_value:
  "decode_payload op (payload_value p) = Inr p \<longleftrightarrow> payload_fits op p \<and> json_data (payload_value p)"
proof (cases p)
  case (RequestPayload r)
  then show ?thesis
    by (cases op; cases r)
       (auto simp: decode_payload_def payload_fits_def is_batch_def
             dest: json_compatibility_error_Some split: option.split)
next
  case (BatchPayload rs)
  then show ?thesis
    by (cases op)
       (auto simp: decode_payload_def payload_fits_def is_batch_def list_all_iff is_dict_iff comp_def
             dest: json_compatibility_error_Some split: option.split)
qed

lemma single_key: "distinct (keys d) \<Longrightarrow> set (keys d) = {k} \<Longrightarrow> d = [(k, pget d k)]"
proof -
  assume d: "distinct (keys d)" and k: "set (keys d) = {k}"
  then have "length d = 1" using distinct_card [OF d] by simp
  then obtain j v where "d = [(j, v)]" by (cases d) auto
  with k show ?thesis by simp
qed

lemma map_PDict_the: "list_all is_dict rs \<Longrightarrow> map PDict (map (\<lambda>v. the (as_dict v)) rs) = rs"
  by (induction rs) (auto simp: is_dict_iff)

lemma decode_payload_sound:
  assumes "decode_payload op v = Inr p" "wf_py v"
  shows "payload_fits op p \<and> v = payload_value p \<and> json_data v"
proof -
  obtain d where d: "v = PDict d" and j: "json_data v"
    using assms(1) json_compatibility_error_iff [of v]
    by (auto simp: decode_payload_def split: option.split_asm)
  have dist: "distinct (keys d)" using assms(2) d by simp
  show ?thesis
  proof (cases "is_batch op")
    case True
    then obtain rs where "set (keys d) = {''requests''}" "pget d ''requests'' = PList rs"
      "list_all is_dict rs" "p = BatchPayload (map (\<lambda>v. the (as_dict v)) rs)"
      using assms(1) d
      by (auto simp: decode_payload_def is_batch_def split: option.split_asm if_split_asm py.split_asm)
    moreover from this have "d = [(''requests'', PList rs)]" using single_key [OF dist] by metis
    ultimately show ?thesis
      using True j d by (simp add: payload_fits_def map_PDict_the del: map_map)
  next
    case False
    then have k: "set (keys d) = {''request''}"
      and r: "(pget d ''request'' = PNone \<and> p = RequestPayload None)
        \<or> (\<exists>r. pget d ''request'' = PDict r \<and> p = RequestPayload (Some r))"
      using assms(1) d
      by (cases op; auto simp: decode_payload_def is_batch_def split: option.split_asm if_split_asm py.split_asm)+
    have "d = [(''request'', pget d ''request'')]" using single_key [OF dist k] .
    then show ?thesis using r False j d by (auto simp: payload_fits_def)
  qed
qed

lemma environment_abi_structure: "validate_structure ENVIRONMENT_ABI = Inr ENVIRONMENT_ABI"
  by (simp add: validate_structure_def ENVIRONMENT_ABI_def environment_functions_def List.map_filter_def)

lemma check_bindings_iff:
  "check_bindings bs fs = Inr u \<longleftrightarrow>
   (\<forall>f\<in>set fs. \<exists>b. dget bs (fn_name f) = Some b \<and> bn_callable b \<and> bn_signature b = fn_signature f)"
  by (induction fs) (auto split: option.split)

lemma validate_bindings_iff:
  assumes "distinct (map fn_name (abi_functions abi))"
  shows "validate_environment_bindings abi bs rec = Inr () \<longleftrightarrow>
     set (keys bs) = set (map fn_name (enabled_functions abi rec))
     \<and> (\<forall>f\<in>set (enabled_functions abi rec).
          \<exists>b. dget bs (fn_name f) = Some b \<and> bn_callable b \<and> bn_signature b = fn_signature f)"
  by (auto simp: validate_environment_bindings_def Let_def check_bindings_iff filter_empty_conv)

section \<open>Properties\<close>

text \<open>C29: a host payload crosses the wire exactly: a value decodes to a payload when, and only when, it is
  strict JSON, is the wire form of that payload and the payload has the shape its operation takes;
  every other value is a protocol error.\<close>

theorem host_payload_exact:
  assumes "wf_py v"
  shows "(decode_payload op v = Inr p \<longleftrightarrow> v = payload_value p \<and> payload_fits op p \<and> json_data v)
    \<and> (\<forall>e. decode_payload op v = Inl e \<longrightarrow> (\<exists>m. e = HostProtocol m))"
proof -
  have "decode_payload op v = Inl e \<Longrightarrow> \<exists>m. e = HostProtocol m" for e
    by (auto simp: decode_payload_def split: option.split_asm if_split_asm py.split_asm)
  then show ?thesis
    using decode_payload_sound [OF _ assms] decode_payload_value by blast
qed

lemma host_payload_exact_witness:
  "decode_payload RlmComplete (PDict [(''request'', PDict [(''model'', PStr ''m'')])])
     = Inr (RequestPayload (Some [(''model'', PStr ''m'')]))
   \<and> (\<exists>m. decode_payload ModelComplete (PDict [(''requests'', PList [])]) = Inl (HostProtocol m))"
proof -
  let ?v = "PDict [(''request'', PDict [(''model'', PStr ''m'')])]"
  let ?w = "PDict [(''requests'', PList [])]"
  have "decode_payload RlmComplete ?v = Inr (RequestPayload (Some [(''model'', PStr ''m'')]))"
    using host_payload_exact [of ?v RlmComplete "RequestPayload (Some [(''model'', PStr ''m'')])"]
    by (simp add: payload_fits_def is_batch_def)
  moreover obtain e where e: "decode_payload ModelComplete ?w = Inl e"
    by (simp add: decode_payload_def)
  ultimately show ?thesis
    using host_payload_exact [of ?w ModelComplete] by auto
qed

text \<open>C30: the installed helpers are accepted exactly when their names are the documented ones enabled for
  the branch and each is a callable with the documented signature; a branch that may not recurse
  has no recursive helper.\<close>

theorem environment_bindings_exact:
  "(validate_environment_bindings ENVIRONMENT_ABI bs rec = Inr () \<longleftrightarrow>
     set (keys bs) = set (map fn_name (enabled_functions ENVIRONMENT_ABI rec))
     \<and> list_all (\<lambda>f. case dget bs (fn_name f) of None \<Rightarrow> False
          | Some b \<Rightarrow> bn_callable b \<and> bn_signature b = fn_signature f)
        (enabled_functions ENVIRONMENT_ABI rec))
   \<and> map fn_name (enabled_functions ENVIRONMENT_ABI rec) =
      (if rec then [''model_complete'', ''model_complete_batch'', ''ask'', ''ask_batch'',
                    ''rlm_complete'', ''rlm_complete_batch'', ''FINAL_TEXT'', ''FINAL_RESPONSE'', ''SHOW_VARS'']
       else [''model_complete'', ''model_complete_batch'', ''ask'', ''ask_batch'',
             ''FINAL_TEXT'', ''FINAL_RESPONSE'', ''SHOW_VARS''])"
proof
  have "distinct (map fn_name (abi_functions ENVIRONMENT_ABI))"
    using environment_abi_structure by (simp add: validate_structure_def split: if_split_asm)
  from validate_bindings_iff [OF this]
  show "validate_environment_bindings ENVIRONMENT_ABI bs rec = Inr () \<longleftrightarrow>
     set (keys bs) = set (map fn_name (enabled_functions ENVIRONMENT_ABI rec))
     \<and> list_all (\<lambda>f. case dget bs (fn_name f) of None \<Rightarrow> False
          | Some b \<Rightarrow> bn_callable b \<and> bn_signature b = fn_signature f)
        (enabled_functions ENVIRONMENT_ABI rec)"
    by (auto simp: list_all_iff split: option.split)
  show "map fn_name (enabled_functions ENVIRONMENT_ABI rec) =
      (if rec then [''model_complete'', ''model_complete_batch'', ''ask'', ''ask_batch'',
                    ''rlm_complete'', ''rlm_complete_batch'', ''FINAL_TEXT'', ''FINAL_RESPONSE'', ''SHOW_VARS'']
       else [''model_complete'', ''model_complete_batch'', ''ask'', ''ask_batch'',
             ''FINAL_TEXT'', ''FINAL_RESPONSE'', ''SHOW_VARS''])"
    by (simp add: enabled_functions_def ENVIRONMENT_ABI_def environment_functions_def)
qed

end
