(* ===== verification/Json_Roundtrip.thy ===== *)
theory Json_Roundtrip
  imports Errors
begin

text \<open>
  The text forms of \<open>rlm/json.py\<close> are inverse to each other: decoding what the encoder wrote
  gives the value back (with its keys sorted, when the style sorts them), in every style the
  program uses.  The decoder returns only values of the data model and always has enough fuel.
\<close>

section \<open>Digits\<close>

lemma read_pos_append: "read_pos (a @ b) = read_pos a * 10 ^ length b + read_pos b"
proof -
  define f where "f = (\<lambda>n c. 10 * n + digit_val c)"
  have f: "f x c = 10 * x + f 0 c" for x c by (simp add: f_def)
  have *: "foldl f x b = x * 10 ^ length b + foldl f 0 b" for x b
  proof (induction b arbitrary: x)
    case Nil
    then show ?case by simp
  next
    case (Cons c b)
    have "foldl f x (c # b) = f x c * 10 ^ length b + foldl f 0 b"
      by (simp only: foldl_Cons Cons.IH [of "f x c"])
    moreover have "foldl f 0 (c # b) = f 0 c * 10 ^ length b + foldl f 0 b"
      by (simp only: foldl_Cons Cons.IH [of "f 0 c"])
    ultimately show ?case
      by (simp only: f [of x c] ring_distribs power_Suc list.size) simp
  qed
  have r: "read_pos = foldl f 0" by (simp add: read_pos_def f_def)
  show ?thesis by (simp only: r foldl_append * [of "foldl f 0 a" b])
qed

lemma read_pos_zeros [simp]: "read_pos (replicate n CHR ''0'') = 0"
proof -
  have "read_pos (CHR ''0'' # s) = read_pos s" for s
    by (simp add: read_pos_def digit_val_def)
  then show ?thesis by (induction n) (simp_all add: read_pos_def)
qed

lemma read_pos_zero_Cons [simp]: "read_pos (CHR ''0'' # s) = read_pos s"
  by (simp add: read_pos_def digit_val_def)

lemma read_pos_Nil [simp]: "read_pos [] = 0"
  by (simp add: read_pos_def)

lemma hd_int_digits: "0 < n \<Longrightarrow> hd (int_digits n) \<noteq> 0"
proof (induction n rule: int_digits.induct)
  case (1 n)
  then show ?case
    by (cases "n < 10") (simp_all add: int_digits.simps [of n])
qed

lemma hd_show_pos: "0 < n \<Longrightarrow> hd (show_pos n) \<noteq> CHR ''0''"
proof -
  assume n: "0 < n"
  have "0 \<le> hd (int_digits n)" "hd (int_digits n) < 10"
    using int_digits_range [of n "hd (int_digits n)"] n by simp_all
  then have "digit_val (hd (show_pos n)) = hd (int_digits n)"
    by (simp add: show_pos_def hd_map digit_val_digit_char)
  with hd_int_digits [OF n] show ?thesis
    by (auto simp: digit_val_def)
qed

lemma show_pos_zero [simp]: "show_pos 0 = ''0''"
  by (simp add: show_pos_def int_digits.simps digit_char_def char_of_def)

lemma digits_show_pos: "0 \<le> n \<Longrightarrow> list_all is_digit (show_pos n)"
  by (auto simp: list_all_iff intro: show_pos_digits)

lemma is_digit_literals [simp]:
  "is_digit CHR ''0''" "\<not> is_digit CHR ''-''" "\<not> is_digit CHR ''.''" "\<not> is_digit CHR ''e''"
  "\<not> is_digit CHR '',''" "\<not> is_digit CHR '']''" "\<not> is_digit CHR ''}''" "\<not> is_digit CHR 0x0A"
  "\<not> is_digit CHR ''+''"
  by (simp_all add: is_digit_def)

lemma is_digit_cases:
  "is_digit c \<Longrightarrow> c \<noteq> CHR ''-'' \<and> c \<noteq> CHR ''.'' \<and> c \<noteq> CHR ''e'' \<and> c \<noteq> CHR ''E'' \<and> c \<noteq> CHR ''+''
    \<and> c \<noteq> CHR 0x22 \<and> c \<noteq> CHR ''{'' \<and> c \<noteq> CHR ''['' \<and> c \<noteq> CHR ''n'' \<and> c \<noteq> CHR ''t''
    \<and> c \<noteq> CHR ''f'' \<and> c \<noteq> CHR ''N'' \<and> c \<noteq> CHR ''I'' \<and> c \<noteq> CHR '']'' \<and> c \<noteq> CHR ''}''"
  by (auto simp: is_digit_def)

section \<open>Numbers\<close>

text \<open>What may follow a value in an encoded document.\<close>

definition stops :: "string \<Rightarrow> bool" where
  "stops r \<longleftrightarrow> (case r of [] \<Rightarrow> True
     | c # _ \<Rightarrow> c = CHR '','' \<or> c = CHR '']'' \<or> c = CHR ''}'' \<or> c = CHR 0x0A)"

lemma stops_simps [simp]:
  "stops []" "stops (CHR '','' # r)" "stops (CHR '']'' # r)" "stops (CHR ''}'' # r)"
  "stops (CHR 0x0A # r)"
  by (simp_all add: stops_def)

lemma takeWhile_stop:
  "list_all is_digit ds \<Longrightarrow> (r = [] \<or> \<not> is_digit (hd r)) \<Longrightarrow>
   takeWhile is_digit (ds @ r) = ds \<and> dropWhile is_digit (ds @ r) = r"
  by (cases r) (auto simp: list_all_iff takeWhile_append dropWhile_append)

definition wf_int_text :: "string \<Rightarrow> bool" where
  "wf_int_text ip \<longleftrightarrow> ip \<noteq> [] \<and> list_all is_digit ip \<and> (hd ip = CHR ''0'' \<longrightarrow> ip = ''0'')"

lemma int_part_append:
  "wf_int_text ip \<Longrightarrow> (r = [] \<or> \<not> is_digit (hd r)) \<Longrightarrow> int_part (ip @ r) = ip"
  using takeWhile_stop [of ip r]
  by (cases ip) (auto simp: int_part_def wf_int_text_def)

lemma stops_cases: "stops r \<Longrightarrow> r = [] \<or> \<not> is_digit (hd r) \<and> hd r \<noteq> CHR ''.'' \<and> hd r \<noteq> CHR ''e'' \<and> hd r \<noteq> CHR ''E''"
  by (cases r) (auto simp: stops_def)

lemma frac_exp_stops: "stops r \<Longrightarrow> frac_part r = []" "stops r \<Longrightarrow> exp_part r = None"
  by (cases r; auto simp: frac_part_def exp_part_def stops_def)+

lemma digit_text_head: "wf_int_text ip \<Longrightarrow> take 1 (ip @ r) \<noteq> ''-''"
  by (cases ip) (auto simp: wf_int_text_def)

lemma parse_number_int:
  "wf_int_text ip \<Longrightarrow> stops r \<Longrightarrow> parse_number (ip @ r) = Inr (PInt (read_pos ip), r)"
  "wf_int_text ip \<Longrightarrow> stops r \<Longrightarrow> parse_number (CHR ''-'' # ip @ r) = Inr (PInt (- read_pos ip), r)"
proof -
  assume a: "wf_int_text ip" "stops r"
  have i: "int_part (ip @ r) = ip"
    using a int_part_append stops_cases by blast
  have "ip \<noteq> []" using a by (simp add: wf_int_text_def)
  then show "parse_number (ip @ r) = Inr (PInt (read_pos ip), r)"
    "parse_number (CHR ''-'' # ip @ r) = Inr (PInt (- read_pos ip), r)"
    using i a digit_text_head [OF a(1), of r]
    by (simp_all add: parse_number_def Let_def frac_exp_stops)
qed

lemma parse_number_frac:
  assumes "wf_int_text ip" "list_all is_digit fp" "fp \<noteq> []" "stops r"
  shows "parse_number (ip @ CHR ''.'' # fp @ r)
           = Inr (PFloat (to_float (dec_value False ip fp False [])), r)"
    and "parse_number (CHR ''-'' # ip @ CHR ''.'' # fp @ r)
           = Inr (PFloat (to_float (dec_value True ip fp False [])), r)"
proof -
  have i: "int_part (ip @ CHR ''.'' # fp @ r) = ip"
    using assms(1) by (rule int_part_append) simp
  have f: "frac_part (CHR ''.'' # fp @ r) = fp"
    using takeWhile_stop [OF assms(2), of r] stops_cases [OF assms(4)] by (auto simp: frac_part_def)
  have "ip \<noteq> []" using assms by (simp add: wf_int_text_def)
  then show "parse_number (ip @ CHR ''.'' # fp @ r)
           = Inr (PFloat (to_float (dec_value False ip fp False [])), r)"
    "parse_number (CHR ''-'' # ip @ CHR ''.'' # fp @ r)
           = Inr (PFloat (to_float (dec_value True ip fp False [])), r)"
    using i f assms digit_text_head [OF assms(1)]
    by (simp_all add: parse_number_def Let_def frac_exp_stops)
qed

definition frac_text :: "string \<Rightarrow> string" where
  "frac_text fp = (if fp = [] then [] else CHR ''.'' # fp)"

lemma parse_number_exp:
  assumes "wf_int_text ip" "list_all is_digit fp" "list_all is_digit ep" "ep \<noteq> []" "stops r"
  defines "t \<equiv> \<lambda>eneg. ip @ frac_text fp @ CHR ''e'' # (if eneg then CHR ''-'' else CHR ''+'') # ep @ r"
  shows "parse_number (t eneg) = Inr (PFloat (to_float (dec_value False ip fp eneg ep)), r)"
    and "parse_number (CHR ''-'' # t eneg) = Inr (PFloat (to_float (dec_value True ip fp eneg ep)), r)"
proof -
  let ?e = "CHR ''e'' # (if eneg then CHR ''-'' else CHR ''+'') # ep @ r"
  have i: "int_part (t eneg) = ip"
    unfolding t_def using assms(1) by (rule int_part_append) (simp add: frac_text_def)
  have f: "frac_part (frac_text fp @ ?e) = fp"
    using takeWhile_stop [OF assms(2), of ?e] by (auto simp: frac_part_def frac_text_def)
  have e: "exp_part ?e = Some (eneg, ep, r)"
  proof -
    have "takeWhile is_digit (ep @ r) = ep" "dropWhile is_digit (ep @ r) = r"
      using takeWhile_stop [OF assms(3), of r] stops_cases [OF assms(5)] by blast+
    then show ?thesis using assms(4) by (simp add: exp_part_def exp_sign_def)
  qed
  have d: "(if fp = [] then frac_text fp @ ?e else drop (Suc (length fp)) (frac_text fp @ ?e)) = ?e"
    by (simp add: frac_text_def)
  have "drop (length ip) (t eneg) = frac_text fp @ ?e" by (simp add: t_def)
  moreover have "ip \<noteq> []" using assms by (simp add: wf_int_text_def)
  moreover have "take 1 (t eneg) \<noteq> ''-''" unfolding t_def by (rule digit_text_head) fact
  ultimately show "parse_number (t eneg) = Inr (PFloat (to_float (dec_value False ip fp eneg ep)), r)"
    "parse_number (CHR ''-'' # t eneg) = Inr (PFloat (to_float (dec_value True ip fp eneg ep)), r)"
    by (simp_all only: parse_number_def Let_def i f d e take_Suc_Cons take0 drop_Suc_Cons drop0
          option.case prod.case simp_thms if_True if_False One_nat_def)
qed

section \<open>Floats\<close>

text \<open>The text of a float: integer digits, fraction digits, an optional exponent.\<close>

definition num_text :: "string \<Rightarrow> string \<Rightarrow> (bool \<times> string) option \<Rightarrow> string" where
  "num_text ip fp ex = ip @ frac_text fp @
     (case ex of None \<Rightarrow> [] | Some (neg, ep) \<Rightarrow> CHR ''e'' # (if neg then CHR ''-'' else CHR ''+'') # ep)"

definition wf_num :: "string \<Rightarrow> string \<Rightarrow> (bool \<times> string) option \<Rightarrow> bool" where
  "wf_num ip fp ex \<longleftrightarrow> wf_int_text ip \<and> list_all is_digit fp \<and>
     (case ex of None \<Rightarrow> fp \<noteq> [] | Some (neg, ep) \<Rightarrow> list_all is_digit ep \<and> ep \<noteq> [])"

definition num_value :: "string \<Rightarrow> string \<Rightarrow> (bool \<times> string) option \<Rightarrow> rat" where
  "num_value ip fp ex = (case ex of None \<Rightarrow> dec_value False ip fp False []
     | Some (neg, ep) \<Rightarrow> dec_value False ip fp neg ep)"

definition with_sign :: "bool \<Rightarrow> string \<Rightarrow> string" where
  "with_sign neg s = (if neg then CHR ''-'' # s else s)"

lemma dec_value_neg: "dec_value True ip fp eneg ep = - dec_value False ip fp eneg ep"
  by (simp add: dec_value_def Let_def)

lemma parse_float:
  assumes "wf_num ip fp ex" "stops r"
  shows "parse_number (with_sign neg (num_text ip fp ex @ r)) =
         Inr (PFloat (to_float (if neg then - num_value ip fp ex else num_value ip fp ex)), r)"
proof (cases ex)
  case None
  with assms show ?thesis
    using parse_number_frac [of ip fp r]
    by (auto simp: wf_num_def num_text_def num_value_def frac_text_def with_sign_def dec_value_neg)
next
  case (Some p)
  then obtain eneg ep where "ex = Some (eneg, ep)" by (cases p) simp
  with assms show ?thesis
    using parse_number_exp [of ip fp ep r eneg]
    by (auto simp: wf_num_def num_text_def num_value_def with_sign_def dec_value_neg)
qed

lemma read_pos_pad [simp]: "read_pos (pad_left w CHR ''0'' s) = read_pos s"
  by (simp add: pad_left_def read_pos_append)

lemma digits_pad: "list_all is_digit s \<Longrightarrow> list_all is_digit (pad_left w CHR ''0'' s)"
  by (auto simp: pad_left_def list_all_iff)

lemma pad_nonempty: "s \<noteq> [] \<Longrightarrow> pad_left w c s \<noteq> []"
  by (simp add: pad_left_def)

text \<open>Digits scaled by a power of ten, and the three positional forms.\<close>

definition scaled :: "int \<Rightarrow> int \<Rightarrow> rat" where
  "scaled m e = of_int m * power_int 10 e"

lemma scaled_shift: "scaled (m * 10 ^ j) e = scaled m (e + int j)"
  by (simp add: scaled_def power_int_add)

lemma scaled_div: "scaled m e / 10 ^ j = scaled m (e - int j)"
  by (simp add: scaled_def power_int_diff)

lemma scaled_mult: "scaled m e * 10 ^ j = scaled m (e + int j)"
  by (simp add: scaled_def power_int_add)

lemma of_int_scaled: "of_int m = scaled m 0"
  by (simp add: scaled_def)

lemma dec_value_scaled:
  "dec_value False ip fp eneg ep =
     scaled (read_pos (ip @ fp))
       ((if eneg then - int (nat (read_pos ep)) else int (nat (read_pos ep))) - int (length fp))"
proof -
  have "scaled m (- int (length fp) - e) = scaled m (- e - int (length fp))" for m e
    by (rule arg_cong [of _ _ "scaled m"]) simp
  then show ?thesis
    by (cases eneg) (simp_all add: dec_value_def Let_def of_int_scaled scaled_div scaled_mult del: int_nat_eq)
qed

lemma float_exp_text_num:
  "CHR ''e'' # (if e < 0 then CHR ''-'' else CHR ''+'') # pad_left 2 CHR ''0'' (show_pos \<bar>e\<bar>) = float_exp_text e"
  by (simp add: float_exp_text_def)

lemma wf_int_text_show_pos: "0 < m \<Longrightarrow> wf_int_text (show_pos m)"
  by (simp add: wf_int_text_def digits_show_pos hd_show_pos)

lemma float_digits_text_num:
  assumes "0 < m"
  defines "ds \<equiv> show_pos m"
  shows "\<exists>ip fp ex. wf_num ip fp ex \<and> float_digits_text ds d = num_text ip fp ex
           \<and> num_value ip fp ex = scaled m (d - int (length ds))"
proof -
  have dig: "list_all is_digit ds" and ne: "ds \<noteq> []" and hd: "hd ds \<noteq> CHR ''0''"
    and rd: "read_pos ds = m"
    using assms by (simp_all add: digits_show_pos hd_show_pos)
  consider (small) "-4 < d" "d \<le> 0" | (whole) "0 < d" "d \<le> 16" "int (length ds) \<le> d"
    | (mixed) "0 < d" "d \<le> 16" "d < int (length ds)" | (sci) "d \<le> -4 \<or> 16 < d"
    by linarith
  then show ?thesis
  proof cases
    case small
    let ?fp = "replicate (nat (- d)) CHR ''0'' @ ds"
    have "wf_num ''0'' ?fp None"
      using dig ne by (auto simp: wf_num_def wf_int_text_def list_all_iff)
    moreover have "float_digits_text ds d = num_text ''0'' ?fp None"
      using small ne by (simp add: float_digits_text_def num_text_def frac_text_def)
    moreover have "num_value ''0'' ?fp None = scaled m (d - int (length ds))"
      using small by (simp add: num_value_def dec_value_scaled read_pos_append rd)
    ultimately show ?thesis by blast
  next
    case whole
    let ?ip = "ds @ replicate (nat d - length ds) CHR ''0''"
    have "wf_num ?ip ''0'' None"
      using dig ne hd by (auto simp: wf_num_def wf_int_text_def list_all_iff)
    moreover have "float_digits_text ds d = num_text ?ip ''0'' None"
      using whole by (simp add: float_digits_text_def num_text_def frac_text_def)
    moreover have "num_value ?ip ''0'' None = scaled m (d - int (length ds))"
    proof -
      have "read_pos (?ip @ ''0'') = m * 10 ^ (nat d - length ds + 1)"
        by (simp add: read_pos_append rd)
      then have "num_value ?ip ''0'' None = scaled m (int (nat d - length ds + 1) - 1)"
        by (simp add: num_value_def dec_value_scaled scaled_shift del: power_Suc)
      moreover have "int (nat d - length ds + 1) - 1 = d - int (length ds)"
        using whole by simp
      ultimately show ?thesis by (simp only:)
    qed
    ultimately show ?thesis by blast
  next
    case mixed
    let ?ip = "take (nat d) ds" and ?fp = "drop (nat d) ds"
    have "?ip \<noteq> []" "hd ?ip = hd ds" using mixed ne by (simp_all add: hd_take)
    moreover have "list_all is_digit ?ip" "list_all is_digit ?fp"
      using dig by (auto simp: list_all_iff dest: in_set_takeD in_set_dropD)
    ultimately have "wf_num ?ip ?fp None"
      using hd mixed by (simp add: wf_num_def wf_int_text_def)
    moreover have "float_digits_text ds d = num_text ?ip ?fp None"
      using mixed by (simp add: float_digits_text_def num_text_def frac_text_def)
    moreover have "num_value ?ip ?fp None = scaled m (d - int (length ds))"
      using mixed by (simp add: num_value_def dec_value_scaled rd of_nat_diff)
    ultimately show ?thesis by blast
  next
    case sci
    let ?ip = "take 1 ds" and ?fp = "drop 1 ds" and ?e = "d - 1"
    let ?ex = "Some (?e < 0, pad_left 2 CHR ''0'' (show_pos \<bar>?e\<bar>))"
    obtain c cs where c: "ds = c # cs" using ne by (cases ds) auto
    have "wf_num ?ip ?fp ?ex"
      using dig hd by (simp add: wf_num_def wf_int_text_def c digits_pad digits_show_pos pad_nonempty)
    moreover have "float_digits_text ds d = num_text ?ip ?fp ?ex"
      using sci by (auto simp: float_digits_text_def num_text_def frac_text_def c float_exp_text_def)
    moreover have "num_value ?ip ?fp ?ex = scaled m (d - int (length ds))"
      using rd by (auto simp: num_value_def dec_value_scaled c intro: arg_cong [of _ _ "scaled (read_pos (c # cs))"])
    ultimately show ?thesis by blast
  qed
qed

text \<open>
  The floats of the model: decimal fractions with at most 399 fractional digits (the shortest
  text of a binary64 number has far fewer) below the largest binary64 number.
\<close>

definition decimal_float :: "rat \<Rightarrow> bool" where
  "decimal_float r \<longleftrightarrow>
     of_int (floor (r * 10 ^ 399)) = r * 10 ^ 399 \<and> \<bar>r\<bar> < 2 ^ 1024 - 2 ^ 970"

lemma decimal_scale_found:
  "k \<le> j \<Longrightarrow> j < k + fuel \<Longrightarrow> of_int (floor (r * 10 ^ j)) = r * 10 ^ j \<Longrightarrow>
   of_int (floor (r * 10 ^ decimal_scale fuel k r)) = r * 10 ^ decimal_scale fuel k r"
proof (induction fuel arbitrary: k)
  case 0
  then show ?case by simp
next
  case (Suc fuel)
  show ?case
  proof (cases "r * 10 ^ k = of_int (floor (r * 10 ^ k))")
    case True
    then show ?thesis by simp
  next
    case False
    then have "j \<noteq> k" using Suc.prems(3) by metis
    with False Suc.prems Suc.IH [of "Suc k"] show ?thesis by (simp del: of_int_floor_cancel)
  qed
qed

lemma trailing_zeros_dvd: "10 ^ trailing_zeros fuel m dvd m"
proof (induction fuel arbitrary: m)
  case 0
  then show ?case by simp
next
  case (Suc fuel)
  show ?case
  proof (cases "m mod 10 = 0")
    case True
    then have "m = 10 * (m div 10)" by auto
    then have "10 * 10 ^ trailing_zeros fuel (m div 10) dvd m"
      by (metis Suc.IH mult_dvd_mono dvd_refl)
    with True show ?thesis by simp
  next
    case False
    then show ?thesis by simp
  qed
qed

lemma float_repr_num:
  assumes "decimal_float r"
  shows "\<exists>ip fp ex. wf_num ip fp ex \<and> float_repr r = with_sign (r < 0) (num_text ip fp ex)
           \<and> num_value ip fp ex = \<bar>r\<bar>"
proof (cases "r = 0")
  case True
  have "float_repr 0 = num_text ''0'' ''0'' None"
    by (simp add: float_repr_def num_text_def frac_text_def)
  moreover have "wf_num ''0'' ''0'' None" by (simp add: wf_num_def wf_int_text_def)
  moreover have "num_value ''0'' ''0'' None = 0" by (simp add: num_value_def dec_value_def)
  ultimately show ?thesis using True by (force simp: with_sign_def)
next
  case False
  define k where "k = decimal_scale 400 0 r"
  define m where "m = floor (\<bar>r\<bar> * 10 ^ k)"
  define z where "z = trailing_zeros 400 m"
  define q where "q = m div 10 ^ z"
  have "of_int (floor (r * 10 ^ k)) = r * 10 ^ k"
    unfolding k_def
  proof (rule decimal_scale_found [of _ 399])
    show "of_int (floor (r * 10 ^ 399)) = r * 10 ^ 399"
      using assms unfolding decimal_float_def by (rule conjunct1)
  qed simp_all
  then obtain n :: int where n: "r * 10 ^ k = of_int n" by metis
  then have "\<bar>r\<bar> * 10 ^ k = of_int \<bar>n\<bar>"
    by (metis abs_mult abs_numeral of_int_abs power_abs)
  then have m: "\<bar>r\<bar> * 10 ^ k = of_int m" by (simp add: m_def)
  have "0 < \<bar>r\<bar> * 10 ^ k" using False by simp
  then have m0: "0 < m" by (simp only: m of_int_0_less_iff)
  have mq: "m = q * 10 ^ z"
    using trailing_zeros_dvd [of 400 m] by (simp add: q_def z_def)
  then have q0: "0 < q" using m0 by (simp add: zero_less_mult_iff)
  have r: "\<bar>r\<bar> = scaled q (int z - int k)"
  proof -
    have "\<bar>r\<bar> = of_int m / 10 ^ k" using m by (simp add: field_simps)
    then show ?thesis by (simp add: mq of_int_scaled scaled_shift scaled_div del: of_int_mult)
  qed
  obtain ip fp ex where e: "wf_num ip fp ex"
    "float_digits_text (show_pos q) (int (length (show_pos q)) + int z - int k) = num_text ip fp ex"
    "num_value ip fp ex = scaled q (int z - int k)"
    using float_digits_text_num [OF q0, of "int (length (show_pos q)) + int z - int k"]
    by (auto simp: algebra_simps)
  have "float_repr r = with_sign (r < 0) (num_text ip fp ex)"
    using False e(2) by (simp add: float_repr_def Let_def with_sign_def k_def m_def z_def q_def)
  then show ?thesis using e r by metis
qed

lemma parse_float_repr:
  assumes "decimal_float r" "stops s"
  shows "parse_number (float_repr r @ s) = Inr (PFloat (Fin r), s)"
proof -
  obtain ip fp ex where e: "wf_num ip fp ex" "float_repr r = with_sign (r < 0) (num_text ip fp ex)"
    "num_value ip fp ex = \<bar>r\<bar>"
    using float_repr_num [OF assms(1)] by blast
  have "float_repr r @ s = with_sign (r < 0) (num_text ip fp ex @ s)"
    by (simp add: e(2) with_sign_def)
  moreover have "(if r < 0 then - \<bar>r\<bar> else \<bar>r\<bar>) = r" by simp
  moreover have "to_float r = Fin r"
    using assms(1) unfolding decimal_float_def to_float_def by (metis (no_types))
  ultimately show ?thesis
    using parse_float [OF e(1) assms(2), of "r < 0"] by (simp add: e(3))
qed

section \<open>Strings\<close>

lemma code_eqD: "code c = code d \<Longrightarrow> c = d"
  by (simp only: of_char_eq_iff)

lemma hex_val_hex_char: "d < 16 \<Longrightarrow> hex_val (hex_char d) = Some d"
  by (auto simp: hex_val_def hex_char_def)

lemma hex4_hex2: "n < 256 \<Longrightarrow> hex4 CHR ''0'' CHR ''0'' (hex_char (n div 16)) (hex_char (n mod 16)) = Some n"
proof -
  assume "n < 256"
  then have "hex_val (hex_char (n div 16)) = Some (n div 16)" "hex_val (hex_char (n mod 16)) = Some (n mod 16)"
    by (auto intro!: hex_val_hex_char)
  moreover have "hex_val CHR ''0'' = Some 0" by (simp add: hex_val_def)
  ultimately show ?thesis by (simp add: hex4_def)
qed

lemma parse_chars_json_char:
  "parse_chars (json_char c @ s) = ebind (parse_chars s) (\<lambda>(t, r). Inr (c # t, r))"
proof -
  consider "c = CHR 0x22" | "c = CHR 0x5C" | "code c = 10" | "code c = 13" | "code c = 9"
    | "code c = 12" | "code c = 8"
    | (ctl) "code c < 32" "code c \<noteq> 10" "code c \<noteq> 13" "code c \<noteq> 9" "code c \<noteq> 12" "code c \<noteq> 8"
        "c \<noteq> CHR 0x22" "c \<noteq> CHR 0x5C"
    | (plain) "c \<noteq> CHR 0x22" "c \<noteq> CHR 0x5C" "32 \<le> code c"
    by linarith
  then show ?thesis
  proof cases
    case ctl
    then have "json_char c = [CHR 0x5C, CHR ''u'', CHR ''0'', CHR ''0'', hex_char (code c div 16), hex_char (code c mod 16)]"
      by (simp add: json_char_def hex2_def)
    moreover have "hex4 CHR ''0'' CHR ''0'' (hex_char (code c div 16)) (hex_char (code c mod 16)) = Some (code c)"
      using ctl by (intro hex4_hex2) simp
    ultimately show ?thesis using ctl by simp
  next
    case plain
    then show ?thesis by (simp add: json_char_def)
  next
    case 3
    then have "c = CHR 0x0A" by (intro code_eqD) simp
    then show ?thesis by (simp add: json_char_def unescape_def)
  next
    case 4
    then have "c = CHR 0x0D" by (intro code_eqD) simp
    then show ?thesis by (simp add: json_char_def unescape_def)
  next
    case 5
    then have "c = CHR 0x09" by (intro code_eqD) simp
    then show ?thesis by (simp add: json_char_def unescape_def)
  next
    case 6
    then have "c = CHR 0x0C" by (intro code_eqD) simp
    then show ?thesis by (simp add: json_char_def unescape_def)
  next
    case 7
    then have "c = CHR 0x08" by (intro code_eqD) simp
    then show ?thesis by (simp add: json_char_def unescape_def)
  qed (simp_all add: json_char_def unescape_def)
qed

lemma parse_chars_json_chars:
  "parse_chars (concat (map json_char s) @ CHR 0x22 # r) = Inr (s, r)"
proof (induction s)
  case Nil
  then show ?case by simp
next
  case (Cons c s)
  then show ?case by (simp only: list.map concat.simps append_assoc parse_chars_json_char) simp
qed

lemma json_string_parse: "parse_chars (drop 1 (json_string s @ r)) = Inr (s, r)"
  using parse_chars_json_chars [of s r] by (simp add: json_string_def)

lemma json_string_head: "\<exists>t. json_string s = CHR 0x22 # t"
  by (simp add: json_string_def)

section \<open>Documents\<close>

text \<open>The values the round trip is about: the JSON data model, with decimal floats.\<close>

fun decimal_floats :: "py \<Rightarrow> bool" where
  "decimal_floats (PFloat (Fin r)) = decimal_float r"
| "decimal_floats (PList xs) = list_all decimal_floats xs"
| "decimal_floats (PDict d) = list_all (\<lambda>p. decimal_floats (snd p)) d"
| "decimal_floats v = True"

definition json_text_value :: "py \<Rightarrow> bool" where
  "json_text_value v \<longleftrightarrow> wf_json v \<and> decimal_floats v"

lemma json_text_value_simps [simp]:
  "json_text_value PNone" "json_text_value (PBool b)" "json_text_value (PInt i)"
  "json_text_value (PStr s)" "\<not> json_text_value (POther t)"
  "json_text_value (PList xs) \<longleftrightarrow> (\<forall>x\<in>set xs. json_text_value x)"
  "json_text_value (PDict d) \<longleftrightarrow> distinct (keys d) \<and> (\<forall>p\<in>set d. json_text_value (snd p))"
  "json_text_value (PFloat f) \<longleftrightarrow> (\<exists>r. f = Fin r \<and> decimal_float r)"
  by (auto simp: json_text_value_def list_all_iff) (cases f; simp)+

definition style_ok :: "json_style \<Rightarrow> bool" where
  "style_ok st \<longleftrightarrow> (\<exists>w. item_sep st = CHR '','' # w \<and> list_all is_json_ws w)
     \<and> (\<exists>w. key_sep st = CHR '':'' # w \<and> list_all is_json_ws w)"

lemma style_ok_styles: "style_ok compact" "style_ok canonical" "style_ok spaced" "style_ok spaced_sorted" "style_ok indented"
  by (simp_all add: style_ok_def style_defs is_json_ws_def)

lemma skip_ws_append: "list_all is_json_ws w \<Longrightarrow> skip_ws (w @ s) = skip_ws s"
  by (induction w) (simp_all add: skip_ws_def)

lemma skip_ws_Cons: "\<not> is_json_ws c \<Longrightarrow> skip_ws (c # s) = c # s"
  by (simp add: skip_ws_def)

lemma is_json_ws_iff:
  "is_json_ws c \<longleftrightarrow> c = CHR '' '' \<or> c = CHR 0x09 \<or> c = CHR 0x0A \<or> c = CHR 0x0D"
  using code_eqD [of c "CHR '' ''"] code_eqD [of c "CHR 0x09"] code_eqD [of c "CHR 0x0A"]
    code_eqD [of c "CHR 0x0D"]
  by (auto simp: is_json_ws_def)

lemma is_json_ws_literals [simp]:
  "\<not> is_json_ws CHR 0x22" "\<not> is_json_ws CHR '']''" "\<not> is_json_ws CHR ''}''" "\<not> is_json_ws CHR ''[''"
  "\<not> is_json_ws CHR ''{''" "\<not> is_json_ws CHR '',''" "\<not> is_json_ws CHR '':''" "\<not> is_json_ws CHR ''n''"
  "\<not> is_json_ws CHR ''t''" "\<not> is_json_ws CHR ''f''" "\<not> is_json_ws CHR ''-''" "is_json_ws CHR '' ''"
  "is_json_ws CHR 0x0A"
  by (simp_all add: is_json_ws_def)

lemma newline_indent_ws: "list_all is_json_ws (newline_indent st l)"
  by (auto simp: newline_indent_def list_all_iff is_json_ws_iff split: option.split)

lemma newline_indent_stops: "stops r \<Longrightarrow> stops (newline_indent st l @ r)"
  by (simp add: newline_indent_def split: option.split)

text \<open>The first character of an encoded value is neither white space nor a closing bracket.\<close>

definition opens :: "string \<Rightarrow> bool" where
  "opens s \<longleftrightarrow> (case s of [] \<Rightarrow> False | c # _ \<Rightarrow> \<not> is_json_ws c \<and> c \<noteq> CHR '']'' \<and> c \<noteq> CHR ''}'')"

lemma digit_not_ws: "is_digit c \<Longrightarrow> \<not> is_json_ws c"
  by (auto simp: is_json_ws_iff is_digit_def)

lemma opens_digits: "list_all is_digit s \<Longrightarrow> s \<noteq> [] \<Longrightarrow> opens (s @ t)"
  using is_digit_cases [of "hd s"] digit_not_ws [of "hd s"] by (cases s) (simp_all add: opens_def)

lemma opens_num: "wf_num ip fp ex \<Longrightarrow> opens (num_text ip fp ex)"
  by (auto simp: wf_num_def wf_int_text_def num_text_def intro: opens_digits)

lemma opens_sign: "opens s \<Longrightarrow> opens (with_sign neg s)"
  by (simp add: with_sign_def opens_def)

lemma show_int_sign: "show_int i = with_sign (i < 0) (show_pos \<bar>i\<bar>)"
  by (simp add: show_int_def with_sign_def)

lemma opens_encode: "json_text_value v \<Longrightarrow> opens (encode st l v)"
proof (cases v)
  case (PInt i)
  have "opens (show_pos \<bar>i\<bar>)" using opens_digits [of "show_pos \<bar>i\<bar>" "[]"] by (simp add: digits_show_pos)
  then show ?thesis using PInt by (simp add: show_int_sign opens_sign)
next
  case (PFloat f)
  assume "json_text_value v"
  then obtain r where "f = Fin r" "decimal_float r" using PFloat by auto
  with float_repr_num [of r] show ?thesis using PFloat by (auto intro!: opens_sign dest: opens_num)
qed (auto simp: opens_def json_string_def)

lemma opens_append: "opens s \<Longrightarrow> opens (s @ t) \<and> skip_ws (s @ t) = s @ t"
  by (cases s) (auto simp: opens_def skip_ws_Cons)

lemma object_pairs_distinct:
  "distinct (keys acc @ keys ps) \<Longrightarrow> object_pairs acc ps = Inr (acc @ ps)"
  by (induction acc ps rule: object_pairs.induct) auto

lemma parse_int_text:
  "stops s \<Longrightarrow> parse_value (Suc n) (show_int i @ s) = Inr (PInt i, s)"
proof -
  assume s: "stops s"
  have wf: "wf_int_text (show_pos \<bar>i\<bar>)"
    using wf_int_text_show_pos [of "\<bar>i\<bar>"] by (cases "i = 0") (simp_all add: wf_int_text_def)
  have "parse_number (show_int i @ s) = Inr (PInt i, s)"
    using parse_number_int [OF wf s] by (cases "i < 0") (simp_all add: show_int_def)
  moreover obtain c t where c: "show_pos \<bar>i\<bar> = c # t" "is_digit c"
    using wf by (cases "show_pos \<bar>i\<bar>") (auto simp: wf_int_text_def)
  ultimately show ?thesis
    using is_digit_cases [OF c(2)] c
    by (cases "i < 0"; cases t) (auto simp: show_int_sign with_sign_def startswith_def)
qed

lemma parse_float_text:
  assumes "decimal_float r" "stops s"
  shows "parse_value (Suc n) (float_repr r @ s) = Inr (PFloat (Fin r), s)"
proof -
  obtain ip fp ex where e: "wf_num ip fp ex" "float_repr r = with_sign (r < 0) (num_text ip fp ex)"
    using float_repr_num [OF assms(1)] by blast
  then obtain c t where c: "num_text ip fp ex = c # t" "is_digit c"
    by (cases ip) (auto simp: wf_num_def wf_int_text_def num_text_def)
  show ?thesis
    using parse_float_repr [OF assms] is_digit_cases [OF c(2)] c e(2)
    by (cases "r < 0") (auto simp: with_sign_def startswith_def)
qed

text \<open>Items and pairs, given that each value is read back.\<close>

definition reads :: "json_style \<Rightarrow> py \<Rightarrow> bool" where
  "reads st v \<longleftrightarrow> (\<forall>n l r. stops r \<longrightarrow> length (encode st l v) \<le> n \<longrightarrow>
     parse_value n (encode st l v @ r) = Inr (v, r))"

lemma readsD:
  "reads st v \<Longrightarrow> stops r \<Longrightarrow> length (encode st l v) \<le> n \<Longrightarrow>
   parse_value n (encode st l v @ r) = Inr (v, r)"
  by (simp add: reads_def)

lemma startswith_simps [simp]:
  "startswith (c # s) [d] \<longleftrightarrow> c = d" "\<not> startswith [] [d]"
  by (auto simp: startswith_def)

lemma close_after_indent:
  "c = CHR '']'' \<or> c = CHR ''}'' \<Longrightarrow> skip_ws (newline_indent st l @ c # r) = c # r"
  by (auto simp: skip_ws_append newline_indent_ws skip_ws_Cons)

lemma parse_items_encoded:
  assumes "xs \<noteq> []" "\<forall>x\<in>set xs. json_text_value x \<and> reads st x" "style_ok st"
    "length (join_str (item_sep st @ newline_indent st k) (map (encode st k) xs)) < n"
  shows "parse_items n (join_str (item_sep st @ newline_indent st k) (map (encode st k) xs)
           @ newline_indent st l @ CHR '']'' # r) = Inr (xs, r)"
  using assms
proof (induction xs arbitrary: n)
  case Nil
  then show ?case by simp
next
  case (Cons x xs)
  obtain m where n: "n = Suc m" using Cons.prems(4) by (cases n) auto
  obtain w where w: "item_sep st = CHR '','' # w" "list_all is_json_ws w"
    using Cons.prems(3) by (auto simp: style_ok_def)
  have rx: "reads st x" using Cons.prems(2) by simp
  show ?case
  proof (cases xs)
    case Nil
    have "length (encode st k x) \<le> m" using Cons.prems(4) n Nil by simp
    with rx show ?thesis
      by (simp add: n Nil readsD newline_indent_stops close_after_indent Let_def)
  next
    case (Cons y ys)
    let ?sep = "item_sep st @ newline_indent st k"
    define rest where "rest = join_str ?sep (map (encode st k) xs)"
    have j: "join_str ?sep (map (encode st k) (x # xs)) = encode st k x @ ?sep @ rest"
      using Cons by (simp add: rest_def)
    then have len: "length (encode st k x) \<le> m" "length rest < m"
      using Cons.prems(4) n w(1) by simp_all
    have "opens rest"
      using Cons.prems(2) Cons opens_encode [of y st k] opens_append [of "encode st k y"]
      by (cases ys) (auto simp: rest_def)
    then have sk: "skip_ws (w @ newline_indent st k @ rest @ t) = rest @ t" for t
      using w(2) by (simp add: skip_ws_append newline_indent_ws opens_append)
    have "parse_items m (rest @ newline_indent st l @ CHR '']'' # r) = Inr (xs, r)"
      using Cons.IH [of m] Cons.prems Cons len by (simp add: rest_def)
    then show ?thesis
      using readsD [OF rx _ len(1), of "?sep @ rest @ newline_indent st l @ CHR '']'' # r"]
      by (simp only: j n) (simp add: w(1) sk Let_def skip_ws_Cons)
  qed
qed

lemma parse_pairs_encoded:
  assumes "d \<noteq> []" "\<forall>p\<in>set d. json_text_value (snd p) \<and> reads st (snd p)" "style_ok st"
    "length (join_str (item_sep st @ newline_indent st k)
       (map (\<lambda>p. json_string (fst p) @ key_sep st @ encode st k (snd p)) d)) < n"
  shows "parse_pairs n (join_str (item_sep st @ newline_indent st k)
           (map (\<lambda>p. json_string (fst p) @ key_sep st @ encode st k (snd p)) d)
           @ newline_indent st l @ CHR ''}'' # r) = Inr (d, r)"
  using assms
proof (induction d arbitrary: n)
  case Nil
  then show ?case by simp
next
  case (Cons p d)
  obtain key x where p: "p = (key, x)" by (cases p)
  obtain m where n: "n = Suc m" using Cons.prems(4) by (cases n) auto
  obtain w where w: "item_sep st = CHR '','' # w" "list_all is_json_ws w"
    using Cons.prems(3) by (auto simp: style_ok_def)
  obtain v where v: "key_sep st = CHR '':'' # v" "list_all is_json_ws v"
    using Cons.prems(3) by (auto simp: style_ok_def)
  have rx: "reads st x" and ox: "opens (encode st k x)"
    using Cons.prems(2) p by (auto intro: opens_encode)
  have skv: "skip_ws (v @ encode st k x @ t) = encode st k x @ t" for t
    using v(2) ox by (simp add: skip_ws_append opens_append)
  obtain jb where jb: "json_string key = CHR 0x22 # jb"
    using json_string_head by blast
  then have pc: "parse_chars (jb @ t) = Inr (key, t)" for t
    using json_string_parse [of key t] by simp
  let ?e = "\<lambda>p. json_string (fst p) @ key_sep st @ encode st k (snd p)"
  show ?case
  proof (cases d)
    case Nil
    have "length (encode st k x) \<le> m" using Cons.prems(4) n Nil p by simp
    with rx show ?thesis
      by (simp add: n Nil p jb pc v(1) skip_ws_Cons skv readsD newline_indent_stops
            close_after_indent Let_def)
  next
    case (Cons q ys)
    let ?sep = "item_sep st @ newline_indent st k"
    define rest where "rest = join_str ?sep (map ?e d)"
    have j: "join_str ?sep (map ?e (p # d)) = json_string key @ key_sep st @ encode st k x @ ?sep @ rest"
      using Cons p by (simp add: rest_def)
    then have len: "length (encode st k x) \<le> m" "length rest < m"
      using Cons.prems(4) n w(1) by simp_all
    have "opens rest" using Cons by (cases ys) (simp_all add: opens_def json_string_def rest_def)
    then have sk: "skip_ws (w @ newline_indent st k @ rest @ t) = rest @ t" for t
      using w(2) by (simp add: skip_ws_append newline_indent_ws opens_append)
    have "parse_pairs m (rest @ newline_indent st l @ CHR ''}'' # r) = Inr (d, r)"
      using Cons.IH [of m] Cons.prems Cons len by (simp add: rest_def)
    then show ?thesis
      using readsD [OF rx _ len(1), of "?sep @ rest @ newline_indent st l @ CHR ''}'' # r"]
      by (simp only: j n) (simp add: p w(1) v(1) skv sk jb pc Let_def skip_ws_Cons)
  qed
qed

lemma encode_reads: "style_ok st \<Longrightarrow> json_text_value v \<Longrightarrow> reads st v"
proof (induction v)
  case (PInt i)
  have "n = Suc (n - 1)" if "length (show_int i) \<le> n" for n
    using that by (cases n) (auto simp: show_int_def split: if_splits)
  then show ?case using parse_int_text unfolding reads_def encode.simps by metis
next
  case (PFloat f)
  then obtain r where r: "f = Fin r" "decimal_float r" by auto
  have "opens (float_repr r)" using opens_encode [of "PFloat f" st 0] PFloat r by simp
  then have "n = Suc (n - 1)" if "length (float_repr r) \<le> n" for n
    using that by (cases "float_repr r") (auto simp: opens_def)
  then show ?case using parse_float_text [OF r(2)] r(1)
    unfolding reads_def encode.simps r(1) fl.case by metis
next
  case (PStr s)
  have "parse_value (Suc n) (json_string s @ r) = Inr (PStr s, r)" for n r
    using json_string_parse [of s r] by (simp add: json_string_def)
  moreover have "n = Suc (n - 1)" if "length (json_string s) \<le> n" for n
    using that by (simp add: json_string_def)
  ultimately show ?case unfolding reads_def encode.simps by metis
next
  case (PList xs)
  have "parse_value n (encode st l (PList xs) @ r) = Inr (PList xs, r)"
    if n: "length (encode st l (PList xs)) \<le> n" for n l r
  proof (cases xs)
    case Nil
    with n show ?thesis by (cases n) (simp_all add: startswith_def skip_ws_Cons)
  next
    case (Cons x ys)
    obtain m where m: "n = Suc m" using n Cons by (cases n) auto
    let ?body = "join_str (item_sep st @ newline_indent st (Suc l)) (map (encode st (Suc l)) xs)"
    have ih: "\<forall>x\<in>set xs. json_text_value x \<and> reads st x" using PList by simp
    have "length ?body < m" using n m Cons by (simp split: if_splits)
    then have p: "parse_items m (?body @ newline_indent st l @ CHR '']'' # r) = Inr (xs, r)"
      using ih PList.prems Cons by (intro parse_items_encoded) simp_all
    have "opens ?body"
      using ih Cons opens_encode [of x st "Suc l"] opens_append [of "encode st (Suc l) x"]
      by (cases ys) auto
    then obtain c t where c: "?body = c # t" "\<not> is_json_ws c" "c \<noteq> CHR '']''"
      by (cases ?body) (auto simp: opens_def)
    have "skip_ws (newline_indent st (Suc l) @ ?body @ u) = ?body @ u" for u
      using c by (simp add: skip_ws_append newline_indent_ws skip_ws_Cons)
    then show ?thesis using p c Cons m by (simp add: startswith_def Let_def)
  qed
  then show ?case by (simp add: reads_def)
next
  case (PDict d)
  have "parse_value n (encode st l (PDict d) @ r) = Inr (PDict d, r)"
    if n: "length (encode st l (PDict d)) \<le> n" for n l r
  proof (cases d)
    case Nil
    with n show ?thesis by (cases n) (simp_all add: startswith_def skip_ws_Cons)
  next
    case (Cons x ys)
    obtain m where m: "n = Suc m" using n Cons by (cases n) auto
    let ?body = "join_str (item_sep st @ newline_indent st (Suc l))
       (map (\<lambda>p. json_string (fst p) @ key_sep st @ encode st (Suc l) (snd p)) d)"
    have ih: "\<forall>p\<in>set d. json_text_value (snd p) \<and> reads st (snd p)"
      using PDict by (auto simp: snds.simps)
    have "length ?body < m" using n m Cons by (simp split: if_splits)
    then have p: "parse_pairs m (?body @ newline_indent st l @ CHR ''}'' # r) = Inr (d, r)"
      using ih PDict.prems Cons by (intro parse_pairs_encoded) simp_all
    have "\<exists>t. ?body = CHR 0x22 # t" using Cons by (cases ys) (simp_all add: json_string_def)
    then obtain t where c: "?body = CHR 0x22 # t" by blast
    have "skip_ws (newline_indent st (Suc l) @ ?body @ u) = ?body @ u" for u
      using c by (simp add: skip_ws_append newline_indent_ws skip_ws_Cons)
    moreover have "object_without_duplicate_keys d = Inr d"
      using PDict.prems object_pairs_distinct [of "[]" d] by (simp add: object_without_duplicate_keys_def)
    ultimately show ?thesis using p c Cons m by (simp add: startswith_def Let_def)
  qed
  then show ?case by (simp add: reads_def)
next
  case PNone
  have "parse_value n (''null'' @ r) = Inr (PNone, r)" if "4 \<le> n" for n r
    using that by (cases n) (simp_all add: startswith_def)
  then show ?case by (simp add: reads_def)
next
  case (PBool b)
  have "parse_value (Suc n) ((if b then ''true'' else ''false'') @ r) = Inr (PBool b, r)" for n r
    by (cases b) (simp_all add: startswith_def)
  then have "parse_value n ((if b then ''true'' else ''false'') @ r) = Inr (PBool b, r)" if "0 < n" for n r
    using that by (cases n) (simp_all del: parse_value.simps)
  then show ?case unfolding reads_def encode.simps by auto
qed simp_all

lemma sorted_keys_text_value: "json_text_value v \<Longrightarrow> json_text_value (sorted_keys v)"
proof (induction v)
  case (PDict d)
  have "distinct (map fst (map (\<lambda>p. (fst p, sorted_keys (snd p))) d))"
    using PDict.prems by (simp add: comp_def)
  then have "distinct (map fst (sort_key fst (map (\<lambda>p. (fst p, sorted_keys (snd p))) d)))"
    by (simp only: distinct_map distinct_sort set_sort)
  then show ?case using PDict by (auto simp: snds.simps)
qed auto

lemma strict_json_roundtrip:
  assumes "style_ok st" "json_text_value v" "v' = (if sort_keys st then sorted_keys v else v)"
  shows "strict_json_dumps st v = Inr (encode st 0 v')"
    and "strict_json_loads (encode st 0 v') = Inr v'"
proof -
  have v': "json_text_value v'" using assms sorted_keys_text_value by simp
  have "json_data v" "json_data v'" using assms(2) v' by (auto simp: json_text_value_def wf_json_def)
  then show "strict_json_dumps st v = Inr (encode st 0 v')"
    using assms(3) by (simp add: strict_json_dumps_def)
  let ?s = "encode st 0 v'"
  have "skip_ws ?s = ?s" using opens_append [OF opens_encode [OF v', of st 0], of "[]"] by simp
  moreover have "parse_value (2 * length ?s + 2) ?s = Inr (v', [])"
  proof -
    have "length ?s \<le> n \<Longrightarrow> parse_value n ?s = Inr (v', [])" for n
      using readsD [OF encode_reads [OF assms(1) v'], of "[]" 0 n] by simp
    from this [of "2 * length ?s + 2"] show ?thesis by (rule mp [OF impI]) simp_all
  qed
  ultimately show "strict_json_loads ?s = Inr v'"
    using \<open>json_data v'\<close> by (simp only: strict_json_loads_def json_loads_def) (simp add: skip_ws_def)
qed

lemma loads_dumps:
  assumes "style_ok st" "json_text_value v"
  shows "ebind (dumps st v) loads = Inr (if sort_keys st then sorted_keys v else v)"
  using strict_json_roundtrip [OF assms refl] by (simp add: dumps_def loads_def)

lemma dumps_ok: "json_data v \<Longrightarrow> dumps st v = Inr (encode st 0 (if sort_keys st then sorted_keys v else v))"
  by (simp add: dumps_def strict_json_dumps_def)

lemma loads_dumps_canonical:
  "json_text_value v \<Longrightarrow> ebind (dumps canonical v) loads = Inr (sorted_keys v)"
  using loads_dumps [OF style_ok_styles(2)] by (simp add: canonical_def)

section \<open>What the decoder returns, and its fuel\<close>

lemma length_skip_ws: "length (skip_ws s) \<le> length s"
  by (simp add: skip_ws_def length_dropWhile_le)

text \<open>The shape of an escape: four hexadecimal digits.\<close>

lemma four_of:
  "(case es of h1 # h2 # h3 # h4 # rest \<Rightarrow> F h1 h2 h3 h4 rest | _ \<Rightarrow> Inl BadSyntax) = m \<Longrightarrow>
   m \<noteq> Inl BadSyntax \<Longrightarrow> \<exists>h1 h2 h3 h4 rest. es = h1 # h2 # h3 # h4 # rest \<and> F h1 h2 h3 h4 rest = m"
  by (auto split: list.splits)

lemma parse_chars_step:
  assumes "parse_chars (c # cs) = m" "m \<noteq> Inl BadSyntax"
  shows "m = Inr ([], cs) \<or>
    (\<exists>x rest. length rest \<le> length cs \<and> m = ebind (parse_chars rest) (\<lambda>(s, r). Inr (x # s, r)))"
proof (cases "c = CHR 0x5C")
  case False
  then show ?thesis using assms by (auto split: if_splits)
next
  case True
  then obtain e es where cs: "cs = e # es" using assms by (cases cs) auto
  show ?thesis
  proof (cases "e = CHR ''u''")
    case False
    then show ?thesis using assms True cs
      by (auto split: option.splits intro!: exI [of _ es])
  next
    case u: True
    have "(case es of h1 # h2 # h3 # h4 # rest \<Rightarrow>
                    (case hex4 h1 h2 h3 h4 of
                       Some n \<Rightarrow> if n < 256
                         then ebind (parse_chars rest) (\<lambda>(s, r). Inr (char_of n # s, r))
                         else Inl BadSyntax
                     | None \<Rightarrow> Inl BadSyntax)
                | _ \<Rightarrow> Inl BadSyntax) = m"
      using assms True cs u by simp
    from four_of [OF this assms(2)] obtain h1 h2 h3 h4 rest where
      h: "es = h1 # h2 # h3 # h4 # rest"
        "(case hex4 h1 h2 h3 h4 of
            Some n \<Rightarrow> if n < 256
              then ebind (parse_chars rest) (\<lambda>(s, r). Inr (char_of n # s, r)) else Inl BadSyntax
          | None \<Rightarrow> Inl BadSyntax) = m"
      by blast
    then obtain n where n: "hex4 h1 h2 h3 h4 = Some n" using assms(2) by (cases "hex4 h1 h2 h3 h4") auto
    then have "m = ebind (parse_chars rest) (\<lambda>(s, r). Inr (char_of n # s, r))"
      using h(2) assms(2) by (simp split: if_split_asm)
    then have "length rest \<le> length cs \<and> m = ebind (parse_chars rest) (\<lambda>(s, r). Inr (char_of n # s, r))"
      by (simp add: cs h(1))
    then show ?thesis by blast
  qed
qed

lemma parse_chars_shorter: "parse_chars s = Inr (t, r) \<Longrightarrow> length r < length s"
proof (induction "length s" arbitrary: s t rule: less_induct)
  case less
  then obtain c cs where s: "s = c # cs" by (cases s) auto
  have "Inr (t, r) = Inr ([], cs) \<or> (\<exists>x rest. length rest \<le> length cs
      \<and> Inr (t, r) = ebind (parse_chars rest) (\<lambda>(s, r). Inr (x # s, r)))"
    using parse_chars_step [OF less.prems [unfolded s]] by simp
  then consider "r = cs" | rest t' where "length rest \<le> length cs" "parse_chars rest = Inr (t', r)"
    by (auto simp: ebind_eq_Inr dest!: sym [of "Inr (t, r)"])
  then show ?case
  proof cases
    case 1
    then show ?thesis by (simp add: s)
  next
    case 2
    then show ?thesis using less.hyps [of rest t'] by (simp add: s)
  qed
qed

lemma parse_chars_no_fuel: "parse_chars s \<noteq> Inl OutOfFuel"
proof (induction "length s" arbitrary: s rule: less_induct)
  case less
  show ?case
  proof
    assume a: "parse_chars s = Inl OutOfFuel"
    then obtain c cs where s: "s = c # cs" by (cases s) auto
    have "Inl OutOfFuel \<noteq> (Inl BadSyntax :: json_error + string \<times> string)" by simp
    from parse_chars_step [OF a [unfolded s] this] obtain x rest where "length rest \<le> length cs"
      "Inl OutOfFuel = ebind (parse_chars rest) (\<lambda>(s, r). Inr (x # s, r))" by auto
    then show False using less.hyps [of rest] s by (auto simp: ebind_eq_Inl dest!: sym [of "Inl OutOfFuel"])
  qed
qed

lemma parse_number_no_fuel: "parse_number s \<noteq> Inl OutOfFuel"
  by (simp add: parse_number_def Let_def split: option.split)

lemma object_pairs_no_fuel: "object_pairs d ps \<noteq> Inl OutOfFuel"
  by (induction d ps rule: object_pairs.induct) auto

lemma exp_part_shorter: "exp_part s = Some (neg, ds, t) \<Longrightarrow> length t \<le> length s"
proof (cases s)
  case (Cons c u)
  assume "exp_part s = Some (neg, ds, t)"
  then have "t = dropWhile is_digit (snd (exp_sign u))"
    using Cons by (auto simp: exp_part_def Let_def split: if_splits prod.splits)
  moreover have "length (snd (exp_sign u)) \<le> length u" by (simp add: exp_sign_def split: list.split)
  ultimately show ?thesis
    using Cons length_dropWhile_le [of is_digit "snd (exp_sign u)"] by simp
qed (simp add: exp_part_def)

lemma int_part_shorter: "int_part s \<noteq> [] \<Longrightarrow> length (drop (length (int_part s)) s) < length s"
  by (cases s) (simp_all add: int_part_def)

lemma parse_number_rest:
  assumes "parse_number s = Inr (v, r)"
  obtains s1 s3 where "length s1 \<le> length s" "int_part s1 \<noteq> []"
    "length s3 \<le> length (drop (length (int_part s1)) s1)"
    "r = s3 \<or> (\<exists>neg ds. exp_part s3 = Some (neg, ds, r))"
proof -
  define s1 where "s1 = (if take 1 s = ''-'' then drop 1 s else s)"
  define s2 where "s2 = drop (length (int_part s1)) s1"
  define s3 where "s3 = (if frac_part s2 = [] then s2 else drop (Suc (length (frac_part s2))) s2)"
  have "int_part s1 \<noteq> [] \<and> (r = s3 \<or> (\<exists>neg ds. exp_part s3 = Some (neg, ds, r)))"
    using assms
    by (simp only: parse_number_def Let_def s1_def [symmetric] s2_def [symmetric] s3_def [symmetric])
       (auto split: if_splits option.splits)
  moreover have "length s1 \<le> length s" "length s3 \<le> length s2"
    by (simp_all add: s1_def s3_def)
  ultimately show ?thesis using that by (simp add: s2_def)
qed

lemma parse_number_shorter: "parse_number s = Inr (v, r) \<Longrightarrow> length r < length s"
  by (erule parse_number_rest) (use int_part_shorter exp_part_shorter in fastforce)

lemma startswith_nonempty: "startswith s (c # t) \<Longrightarrow> 0 < length s"
  by (cases s) (simp_all add: startswith_def)

lemma length_skip_drop: "startswith t (c # u) \<Longrightarrow> length (skip_ws (drop (Suc 0) t)) < length t"
  using length_skip_ws [of "drop (Suc 0) t"] startswith_nonempty [of t c u] by (cases t) auto

lemma parse_value_shorter_step:
  assumes "\<And>s xs r. parse_items n s = Inr (xs, r) \<Longrightarrow> length r < length s"
    "\<And>s ps r. parse_pairs n s = Inr (ps, r) \<Longrightarrow> length r < length s"
    "parse_value (Suc n) s = Inr (v, r)"
  shows "length r < length s"
proof -
  have drops: "length (drop k s) < length s" if "startswith s (c # u)" "0 < k" for c u k
    using startswith_nonempty [OF that(1)] that(2) by simp
  have tail: "length r < length s" if "startswith s (c # u)" "length r < length (skip_ws (drop (Suc 0) s))" for c u r
    using that length_skip_drop [of s c u] by linarith
  have "length (drop (Suc 0) (skip_ws (drop (Suc 0) s))) < length s" if "startswith s (c # u)" for c u
    using length_skip_drop [OF that] by simp
  moreover have "length r < length s" if "parse_chars (drop (Suc 0) s) = Inr (t, r)" "startswith s (c # u)" for t r c u
    using parse_chars_shorter [OF that(1)] drops [OF that(2), of 1] by simp
  ultimately show ?thesis
    using assms(3) assms(1)[of "skip_ws (drop (Suc 0) s)"] assms(2)[of "skip_ws (drop (Suc 0) s)"] tail drops
    by (auto simp: res_simps Let_def parse_number_shorter split: if_splits simp del: length_drop startswith_simps)
qed

lemma after_ws: "length r < length s \<Longrightarrow> length (drop (Suc 0) (skip_ws r)) < length s"
  using length_skip_ws [of r] by simp

lemma after_ws2: "length r < length s \<Longrightarrow> length (skip_ws (drop (Suc 0) (skip_ws r))) < length s"
  using length_skip_ws [of "drop (Suc 0) (skip_ws r)"] after_ws [of r s] by linarith

lemma parse_items_shorter_step:
  assumes "\<And>s v r. parse_value n s = Inr (v, r) \<Longrightarrow> length r < length s"
    "\<And>s xs r. parse_items n s = Inr (xs, r) \<Longrightarrow> length r < length s"
    "parse_items (Suc n) s = Inr (xs, r)"
  shows "length r < length s"
proof -
  from assms(3) obtain x r1 where r1: "parse_value n s = Inr (x, r1)"
    and "(startswith (skip_ws r1) '']'' \<and> r = drop 1 (skip_ws r1)) \<or>
      (\<exists>ys. parse_items n (skip_ws (drop 1 (skip_ws r1))) = Inr (ys, r))"
    by (auto simp: ebind_eq_Inr Let_def split: if_split_asm)
  then show ?thesis
    using assms(1) [OF r1] after_ws [of r1 s] after_ws2 [of r1 s] assms(2) by fastforce
qed

lemma parse_pairs_shorter_step:
  assumes "\<And>s v r. parse_value n s = Inr (v, r) \<Longrightarrow> length r < length s"
    "\<And>s ps r. parse_pairs n s = Inr (ps, r) \<Longrightarrow> length r < length s"
    "parse_pairs (Suc n) s = Inr (ps, r)"
  shows "length r < length s"
proof -
  from assms(3) obtain k r1 v r2 where r1: "parse_chars (drop 1 s) = Inr (k, r1)"
    and r2: "parse_value n (skip_ws (drop 1 (skip_ws r1))) = Inr (v, r2)"
    and "(startswith (skip_ws r2) ''}'' \<and> r = drop 1 (skip_ws r2)) \<or>
      (\<exists>qs. parse_pairs n (skip_ws (drop 1 (skip_ws r2))) = Inr (qs, r))"
    by (auto simp: ebind_eq_Inr Let_def split: if_split_asm)
  moreover have l1: "length r1 < length s" using parse_chars_shorter [OF r1] by simp
  moreover have l2: "length r2 < length s"
    using assms(1) [OF r2] after_ws2 [OF l1] by simp
  ultimately show ?thesis
    using after_ws [OF l2] after_ws2 [OF l2] assms(2) by fastforce
qed

lemma parse_shorter:
  "(\<forall>s v r. parse_value n s = Inr (v, r) \<longrightarrow> length r < length s)
   \<and> (\<forall>s xs r. parse_items n s = Inr (xs, r) \<longrightarrow> length r < length s)
   \<and> (\<forall>s ps r. parse_pairs n s = Inr (ps, r) \<longrightarrow> length r < length s)"
proof (induction n)
  case 0
  then show ?case by simp
next
  case (Suc n)
  then show ?case
    using parse_value_shorter_step [of n] parse_items_shorter_step [of n] parse_pairs_shorter_step [of n]
    by meson
qed

text \<open>Fuel of twice the remaining length is enough.\<close>

lemma parse_value_fuel_step:
  assumes "\<And>s. 2 * length s + 2 \<le> n \<Longrightarrow> parse_items n s \<noteq> Inl OutOfFuel"
    "\<And>s. 2 * length s + 2 \<le> n \<Longrightarrow> parse_pairs n s \<noteq> Inl OutOfFuel"
    "2 * length s + 1 \<le> Suc n"
  shows "parse_value (Suc n) s \<noteq> Inl OutOfFuel"
proof -
  have "2 * length (skip_ws (drop (Suc 0) s)) + 2 \<le> n" if "startswith s (c # u)" for c u
    using length_skip_drop [OF that] assms(3) by simp
  then have "startswith s (c # u) \<Longrightarrow> parse_items n (skip_ws (drop (Suc 0) s)) \<noteq> Inl OutOfFuel"
    "startswith s (c # u) \<Longrightarrow> parse_pairs n (skip_ws (drop (Suc 0) s)) \<noteq> Inl OutOfFuel" for c u
    using assms(1, 2) by blast+
  then show ?thesis
    by (auto simp: ebind_eq_Inl Let_def parse_chars_no_fuel parse_number_no_fuel object_pairs_no_fuel
          object_without_duplicate_keys_def simp del: startswith_simps)
qed

lemma parse_items_fuel_step:
  assumes "\<And>s. 2 * length s + 1 \<le> n \<Longrightarrow> parse_value n s \<noteq> Inl OutOfFuel"
    "\<And>s. 2 * length s + 2 \<le> n \<Longrightarrow> parse_items n s \<noteq> Inl OutOfFuel"
    "2 * length s + 2 \<le> Suc n"
  shows "parse_items (Suc n) s \<noteq> Inl OutOfFuel"
proof
  assume "parse_items (Suc n) s = Inl OutOfFuel"
  moreover have "parse_value n s \<noteq> Inl OutOfFuel" using assms(1, 3) by simp
  ultimately obtain x r1 where r1: "parse_value n s = Inr (x, r1)"
    and r2: "parse_items n (skip_ws (drop 1 (skip_ws r1))) = Inl OutOfFuel"
    by (auto simp: ebind_eq_Inl Let_def split: if_split_asm)
  have "length r1 < length s" using parse_shorter r1 by blast
  then have "2 * length (skip_ws (drop 1 (skip_ws r1))) + 2 \<le> n"
    using after_ws2 [of r1 s] assms(3) by simp
  with assms(2) r2 show False by blast
qed

lemma parse_pairs_fuel_step:
  assumes "\<And>s. 2 * length s + 1 \<le> n \<Longrightarrow> parse_value n s \<noteq> Inl OutOfFuel"
    "\<And>s. 2 * length s + 2 \<le> n \<Longrightarrow> parse_pairs n s \<noteq> Inl OutOfFuel"
    "2 * length s + 2 \<le> Suc n"
  shows "parse_pairs (Suc n) s \<noteq> Inl OutOfFuel"
proof
  assume "parse_pairs (Suc n) s = Inl OutOfFuel"
  then obtain k r1 where r1: "parse_chars (drop 1 s) = Inr (k, r1)"
    and m: "parse_value n (skip_ws (drop 1 (skip_ws r1))) = Inl OutOfFuel \<or>
      (\<exists>v r2. parse_value n (skip_ws (drop 1 (skip_ws r1))) = Inr (v, r2)
        \<and> parse_pairs n (skip_ws (drop 1 (skip_ws r2))) = Inl OutOfFuel)"
    using parse_chars_no_fuel [of "drop 1 s"]
    by (auto simp: ebind_eq_Inl Let_def split: if_split_asm)
  have l1: "length r1 < length s" using parse_chars_shorter [OF r1] by simp
  then have "2 * length (skip_ws (drop 1 (skip_ws r1))) + 1 \<le> n"
    using after_ws2 [OF l1] assms(3) by simp
  with m assms(1) obtain v r2 where r2: "parse_value n (skip_ws (drop 1 (skip_ws r1))) = Inr (v, r2)"
    "parse_pairs n (skip_ws (drop 1 (skip_ws r2))) = Inl OutOfFuel" by blast
  have "length r2 < length (skip_ws (drop 1 (skip_ws r1)))" using parse_shorter r2(1) by blast
  then have l2: "length r2 < length s" using after_ws2 [OF l1] by simp
  have "2 * length (skip_ws (drop 1 (skip_ws r2))) + 2 \<le> n"
    using after_ws2 [OF l2] assms(3) by simp
  with assms(2) r2(2) show False by blast
qed

lemma parse_fuel:
  "(\<forall>s. 2 * length s + 1 \<le> n \<longrightarrow> parse_value n s \<noteq> Inl OutOfFuel)
   \<and> (\<forall>s. 2 * length s + 2 \<le> n \<longrightarrow> parse_items n s \<noteq> Inl OutOfFuel)
   \<and> (\<forall>s. 2 * length s + 2 \<le> n \<longrightarrow> parse_pairs n s \<noteq> Inl OutOfFuel)"
proof (induction n)
  case 0
  then show ?case by simp
next
  case (Suc n)
  then show ?case
    using parse_value_fuel_step [of n] parse_items_fuel_step [of n] parse_pairs_fuel_step [of n]
    by meson
qed

lemma json_loads_no_fuel: "json_loads s \<noteq> Inl OutOfFuel"
proof -
  have "2 * length (skip_ws s) + 1 \<le> 2 * length s + 2" using length_skip_ws [of s] by simp
  then have "parse_value (2 * length s + 2) (skip_ws s) \<noteq> Inl OutOfFuel" using parse_fuel by blast
  then show ?thesis by (simp only: json_loads_def ebind_eq_Inl) (auto split: if_split_asm)
qed

section \<open>Only dictionaries with distinct keys are built\<close>

lemma object_pairs_Inr:
  "object_pairs d ps = Inr r \<longleftrightarrow> r = d @ ps \<and> distinct (keys ps) \<and> set (keys d) \<inter> set (keys ps) = {}"
  by (induction d ps rule: object_pairs.induct) auto

lemma object_without_duplicate_keys_Inr:
  "object_without_duplicate_keys ps = Inr r \<longleftrightarrow> r = ps \<and> distinct (keys ps)"
  by (auto simp: object_without_duplicate_keys_def object_pairs_Inr)

lemma parse_number_wf: "parse_number s = Inr (v, r) \<Longrightarrow> wf_py v"
  by (auto simp: parse_number_def Let_def split: if_split_asm option.split_asm)

lemma parse_wf:
  "(\<forall>s v r. parse_value n s = Inr (v, r) \<longrightarrow> wf_py v)
   \<and> (\<forall>s xs r. parse_items n s = Inr (xs, r) \<longrightarrow> list_all wf_py xs)
   \<and> (\<forall>s ps r. parse_pairs n s = Inr (ps, r) \<longrightarrow> list_all (\<lambda>p. wf_py (snd p)) ps)"
proof (induction n)
  case 0
  then show ?case by simp
next
  case (Suc n)
  have "parse_value (Suc n) s = Inr (v, r) \<Longrightarrow> wf_py v" for s v r
    using Suc by (auto simp: ebind_eq_Inr Let_def object_without_duplicate_keys_Inr
        dest: parse_number_wf split: if_split_asm; blast)
  moreover have "parse_items (Suc n) s = Inr (xs, r) \<Longrightarrow> list_all wf_py xs" for s xs r
    using Suc by (auto simp: ebind_eq_Inr Let_def split: if_split_asm; blast)
  moreover have "parse_pairs (Suc n) s = Inr (ps, r) \<Longrightarrow> list_all (\<lambda>p. wf_py (snd p)) ps" for s ps r
    using Suc by (auto simp: ebind_eq_Inr Let_def split: if_split_asm; blast)
  ultimately show ?case by blast
qed

lemma strict_json_loads_wf: "strict_json_loads s = Inr v \<Longrightarrow> wf_json v"
proof -
  assume a: "strict_json_loads s = Inr v"
  then have j: "json_loads s = Inr v" "json_data v"
    by (auto simp: strict_json_loads_def ebind_eq_Inr split: option.split_asm)
  from j(1) obtain r where "parse_value (2 * length s + 2) (skip_ws s) = Inr (v, r)"
    by (simp only: json_loads_def ebind_eq_Inr) (auto split: if_split_asm)
  then have "wf_py v" using parse_wf by blast
  with j(2) show ?thesis by (simp add: wf_json_def)
qed

section \<open>Properties\<close>


definition sample_value :: py where
  "sample_value = PDict [(''b'', PList [PInt (- 7), PFloat (Fin (5 / 4)), PBool True]),
     (''a'', PStr [CHR ''x'', CHR 0x22, CHR 0x0A, CHR 0x1F]), (''c'', PDict [])]"


text \<open>C22: the decoder returns only values of the data model - every dictionary has distinct keys and
  every number is finite, so a document with a duplicate key or a constant such as \<open>NaN\<close> is an
  error - and the fuel it starts with is enough for every text.\<close>

theorem json_decoder_strict:
  "(\<forall>v. strict_json_loads s = Inr v \<longrightarrow> wf_json v) \<and> json_loads s \<noteq> Inl OutOfFuel
   \<and> strict_json_loads s \<noteq> Inl OutOfFuel"
  using strict_json_loads_wf json_loads_no_fuel
  by (auto simp: strict_json_loads_def ebind_eq_Inl split: option.split_asm)

lemma json_decoder_strict_witness:
  "strict_json_loads ''[1]'' = Inr (PList [PInt 1]) \<and> wf_json (PList [PInt 1])"
proof -
  have "strict_json_loads ''[1]'' = Inr (PList [PInt 1])" by code_simp
  then show ?thesis using json_decoder_strict [of "''[1]''"] by blast
qed

text \<open>Sorting keys keeps every lookup.\<close>

lemma dget_sort_key: "distinct (keys d) \<Longrightarrow> dget (sort_key fst d) k = dget d k"
proof -
  assume d: "distinct (keys d)"
  then have "distinct (map fst (sort_key fst d))" by (simp only: distinct_map distinct_sort set_sort)
  with d show ?thesis by (intro map_of_inject_set [THEN iffD2, THEN fun_cong]) simp_all
qed

end
