(* ===== verification/Specs.thy ===== *)
theory Specs
  imports Abi Json_Roundtrip
begin

text \<open>
  \<open>rlm/specs.py\<close>: the versioned, content-addressed harness.  Each frozen dataclass is a record,
  each \<open>__post_init__\<close> a constructor over the Python values a caller passes, and
  \<open>harness_spec_from_dict\<close> reads a snapshot back with the exceptions Python raises.
\<close>

section \<open>Python values as text, names and subscripts\<close>

text \<open>\<open>repr\<close> of a value of the data model.\<close>

fun repr_value :: "py \<Rightarrow> string" where
  "repr_value PNone = ''None''"
| "repr_value (PBool b) = (if b then ''True'' else ''False'')"
| "repr_value (PInt i) = show_int i"
| "repr_value (PFloat f) =
     (case f of Fin r \<Rightarrow> float_repr r | PosInf \<Rightarrow> ''inf'' | NegInf \<Rightarrow> ''-inf'' | NaN \<Rightarrow> ''nan'')"
| "repr_value (PStr s) = py_repr s"
| "repr_value (PList xs) = ''['' @ join_str '', '' (map repr_value xs) @ '']''"
| "repr_value (PDict d) =
     ''{'' @ join_str '', '' (map (\<lambda>p. py_repr (fst p) @ '': '' @ repr_value (snd p)) d) @ ''}''"
| "repr_value (POther t) = ''<'' @ t @ ''>''"

definition ident_start :: "char \<Rightarrow> bool" where
  "ident_start c \<longleftrightarrow>
     (65 \<le> code c \<and> code c \<le> 90) \<or> (97 \<le> code c \<and> code c \<le> 122) \<or> code c = 95
     \<or> code c = 170 \<or> code c = 181 \<or> code c = 186
     \<or> (192 \<le> code c \<and> code c \<noteq> 215 \<and> code c \<noteq> 247)"

definition is_identifier :: "string \<Rightarrow> bool" where
  "is_identifier s \<longleftrightarrow> (case s of [] \<Rightarrow> False
     | c # cs \<Rightarrow> ident_start c \<and> list_all (\<lambda>c. ident_start c \<or> is_digit c \<or> code c = 183) cs)"

text \<open>\<open>d[k]\<close> on a dictionary, and on any value.\<close>

definition item :: "dict \<Rightarrow> string \<Rightarrow> exn + py" where
  "item d k = (case dget d k of None \<Rightarrow> Inl (PyExc ''KeyError'' (py_repr k)) | Some v \<Rightarrow> Inr v)"

fun subscript :: "py \<Rightarrow> string \<Rightarrow> exn + py" where
  "subscript (PDict d) k = item d k"
| "subscript (PStr s) k = Inl (type_error (''string indices must be integers, not '' @ py_repr ''str''))"
| "subscript (PList xs) k = Inl (type_error ''list indices must be integers or slices, not str'')"
| "subscript v k = Inl (type_error (py_repr (type_name v) @ '' object is not subscriptable''))"

text \<open>\<open>tuple(v)\<close>\<close>

fun py_iter :: "py \<Rightarrow> exn + py list" where
  "py_iter (PList xs) = Inr xs"
| "py_iter (PStr s) = Inr (map (\<lambda>c. PStr [c]) s)"
| "py_iter (PDict d) = Inr (map (\<lambda>p. PStr (fst p)) d)"
| "py_iter v = Inl (type_error (py_repr (type_name v) @ '' object is not iterable''))"

text \<open>\<open>Enum(value)\<close>, for a string enumeration.\<close>

definition enum_of :: "string \<Rightarrow> (string \<times> 'a) list \<Rightarrow> py \<Rightarrow> exn + 'a" where
  "enum_of cls table v =
     (case as_str v of
        Some s \<Rightarrow> (case dget table s of
            Some x \<Rightarrow> Inr x
          | None \<Rightarrow> Inl (value_error (repr_value v @ '' is not a valid '' @ cls)))
      | None \<Rightarrow> Inl (value_error (repr_value v @ '' is not a valid '' @ cls)))"

text \<open>\<open>Cls(**d)\<close> with all parameters required: the two errors of the call itself.\<close>

definition quoted_list :: "string list \<Rightarrow> string" where
  "quoted_list names =
     (case rev names of
        [] \<Rightarrow> []
      | [x] \<Rightarrow> py_repr x
      | [y, x] \<Rightarrow> py_repr x @ '' and '' @ py_repr y
      | y # xs \<Rightarrow> join_str '', '' (map py_repr (rev xs)) @ '', and '' @ py_repr y)"

definition call_kwargs :: "string \<Rightarrow> string list \<Rightarrow> dict \<Rightarrow> exn + unit" where
  "call_kwargs cls params d =
     (case find (\<lambda>k. k \<notin> set params) (keys d) of
        Some k \<Rightarrow> Inl (type_error (cls @ ''.__init__() got an unexpected keyword argument '' @ py_repr k))
      | None \<Rightarrow>
          let missing = filter (\<lambda>p. p \<notin> set (keys d)) params
          in if missing = [] then Inr ()
             else Inl (type_error (cls @ ''.__init__() missing '' @ show_nat (length missing)
                    @ '' required positional argument'' @ (if length missing = 1 then [] else ''s'')
                    @ '': '' @ quoted_list missing)))"

section \<open>The records\<close>

definition nonempty :: "py \<Rightarrow> string \<Rightarrow> exn + string" where
  "nonempty v field_name =
     (case as_str v of
        Some s \<Rightarrow> if strip s = [] then Inl (value_error (field_name @ '' must be a non-empty string''))
                  else Inr s
      | None \<Rightarrow> Inl (value_error (field_name @ '' must be a non-empty string'')))"

definition py_bool :: "py \<Rightarrow> string \<Rightarrow> exn + bool" where
  "py_bool v field_name =
     (case v of PBool b \<Rightarrow> Inr b | _ \<Rightarrow> Inl (type_error (field_name @ '' must be a bool'')))"

datatype history_mode = LatestTurn
datatype bootstrap_type = ControllerBootstrap
datatype observation_type = ControllerObservation
datatype submission_kind = TextKind | ResponseKind
datatype recovery_mode = RepairMode | AbortMode

fun history_value :: "history_mode \<Rightarrow> string" where "history_value LatestTurn = ''latest_turn''"
fun bootstrap_value :: "bootstrap_type \<Rightarrow> string" where
  "bootstrap_value ControllerBootstrap = ''rlm.controller_bootstrap''"
fun observation_value :: "observation_type \<Rightarrow> string" where
  "observation_value ControllerObservation = ''rlm.controller_observation''"
fun submission_kind_value :: "submission_kind \<Rightarrow> string" where
  "submission_kind_value TextKind = ''text''"
| "submission_kind_value ResponseKind = ''response''"
fun recovery_mode_value :: "recovery_mode \<Rightarrow> string" where
  "recovery_mode_value RepairMode = ''repair''"
| "recovery_mode_value AbortMode = ''abort''"

record bootstrap_spec =
  bs_type :: bootstrap_type
  bs_schema_version :: string
  bs_content_in_message :: bool

definition mk_bootstrap :: "bootstrap_type \<Rightarrow> py \<Rightarrow> py \<Rightarrow> exn + bootstrap_spec" where
  "mk_bootstrap t version content =
     ebind (nonempty version ''schema_version'') (\<lambda>v.
     ebind (py_bool content ''content_in_message'') (\<lambda>c.
       if c then Inl (value_error ''controller bootstrap cannot contain caller content'')
       else Inr \<lparr>bs_type = t, bs_schema_version = v, bs_content_in_message = c\<rparr>))"

record prompt_spec =
  ps_name :: string
  ps_version :: string
  ps_protocol :: string
  ps_policy :: string

definition mk_prompt :: "py \<Rightarrow> py \<Rightarrow> py \<Rightarrow> py \<Rightarrow> exn + prompt_spec" where
  "mk_prompt nm version protocol policy =
     ebind (nonempty nm ''name'') (\<lambda>n.
     ebind (nonempty version ''version'') (\<lambda>v.
     ebind (nonempty protocol ''protocol'') (\<lambda>p.
     ebind (nonempty policy ''policy'') (\<lambda>q.
       Inr \<lparr>ps_name = n, ps_version = v, ps_protocol = p, ps_policy = q\<rparr>))))"

record prompt_digests =
  pd_nonrecursive :: string
  pd_recursive :: string

definition lowercase_sha256 :: "py \<Rightarrow> string \<Rightarrow> exn + string" where
  "lowercase_sha256 v field_name =
     (case as_str v of
        Some s \<Rightarrow> if is_sha256_text s then Inr s
                  else Inl (value_error (field_name @ '' must be a lowercase SHA-256 digest''))
      | None \<Rightarrow> Inl (value_error (field_name @ '' must be a lowercase SHA-256 digest'')))"

definition mk_digests :: "py \<Rightarrow> py \<Rightarrow> exn + prompt_digests" where
  "mk_digests nonrecursive recursive =
     ebind (lowercase_sha256 nonrecursive ''nonrecursive'') (\<lambda>n.
     ebind (lowercase_sha256 recursive ''recursive'') (\<lambda>r.
       Inr \<lparr>pd_nonrecursive = n, pd_recursive = r\<rparr>))"

record recovery_spec =
  rs_mode :: recovery_mode
  rs_version :: string

definition mk_recovery :: "recovery_mode \<Rightarrow> py \<Rightarrow> exn + recovery_spec" where
  "mk_recovery m version =
     ebind (nonempty version ''version'') (\<lambda>v. Inr \<lparr>rs_mode = m, rs_version = v\<rparr>)"

record observation_spec =
  os_type :: observation_type
  os_schema_version :: string

definition mk_observation :: "observation_type \<Rightarrow> py \<Rightarrow> exn + observation_spec" where
  "mk_observation t version =
     ebind (nonempty version ''schema_version'') (\<lambda>v. Inr \<lparr>os_type = t, os_schema_version = v\<rparr>)"

record context_spec =
  cs_history :: history_mode
  cs_preserve_reasoning :: bool

definition mk_context :: "history_mode \<Rightarrow> py \<Rightarrow> exn + context_spec" where
  "mk_context h preserve =
     ebind (py_bool preserve ''preserve_reasoning'') (\<lambda>b.
       Inr \<lparr>cs_history = h, cs_preserve_reasoning = b\<rparr>)"

record prelude_spec =
  pr_source :: string
  pr_exports :: "(string \<times> string) list"
  pr_version :: string

text \<open>One export: a pair of strings, its name an identifier, its description not blank.\<close>

definition mk_export :: "py list \<Rightarrow> exn + string \<times> string" where
  "mk_export part =
     (case part of
        [PStr n, PStr d] \<Rightarrow>
          if \<not> is_identifier n
          then Inl (value_error (''export name is not an identifier: '' @ py_repr n))
          else ebind (nonempty (PStr d) ''export description'') (\<lambda>d. Inr (n, d))
      | _ \<Rightarrow> Inl (type_error ''each export must be a (name, description) pair of strings''))"

definition mk_prelude :: "py \<Rightarrow> py list list \<Rightarrow> py \<Rightarrow> exn + prelude_spec" where
  "mk_prelude source exports version =
     ebind (nonempty source ''source'') (\<lambda>s.
     ebind (nonempty version ''version'') (\<lambda>v.
       if exports = []
       then Inl (type_error ''exports must be a non-empty tuple of (name, description) pairs'')
       else ebind (emap mk_export exports) (\<lambda>es.
         Inr \<lparr>pr_source = s, pr_exports = es, pr_version = v\<rparr>)))"

definition prelude_digest :: "prelude_spec \<Rightarrow> string" where
  "prelude_digest p = sha256_text (pr_source p)"

record harness_spec =
  hs_prompt :: prompt_spec
  hs_rendered_prompts :: prompt_digests
  hs_schema_version :: string
  hs_abi_version :: string
  hs_abi_digest :: string
  hs_bootstrap :: bootstrap_spec
  hs_recovery :: recovery_spec
  hs_observation :: observation_spec
  hs_context :: context_spec
  hs_prelude :: "prelude_spec option"

definition mk_harness ::
  "prompt_spec \<Rightarrow> prompt_digests \<Rightarrow> py \<Rightarrow> py \<Rightarrow> py \<Rightarrow> bootstrap_spec \<Rightarrow> recovery_spec \<Rightarrow> observation_spec
   \<Rightarrow> context_spec \<Rightarrow> prelude_spec option \<Rightarrow> exn + harness_spec" where
  "mk_harness p r sv av ad b rc ob cx pre =
     ebind (nonempty sv ''schema_version'') (\<lambda>s.
     ebind (nonempty av ''abi_version'') (\<lambda>a.
     ebind (nonempty ad ''abi_digest'') (\<lambda>d.
       Inr \<lparr>hs_prompt = p, hs_rendered_prompts = r, hs_schema_version = s, hs_abi_version = a,
            hs_abi_digest = d, hs_bootstrap = b, hs_recovery = rc, hs_observation = ob,
            hs_context = cx, hs_prelude = pre\<rparr>)))"

section \<open>Snapshot and fingerprint\<close>

definition prelude_dict :: "prelude_spec \<Rightarrow> dict" where
  "prelude_dict p =
     [(''source'', PStr (pr_source p)),
      (''exports'', PList (map (\<lambda>e. PList [PStr (fst e), PStr (snd e)]) (pr_exports p))),
      (''version'', PStr (pr_version p))]"

text \<open>\<open>_jsonable(asdict(self))\<close> without a missing prelude.\<close>

definition harness_snapshot :: "harness_spec \<Rightarrow> dict" where
  "harness_snapshot h =
     [(''prompt'', PDict [
        (''name'', PStr (ps_name (hs_prompt h))), (''version'', PStr (ps_version (hs_prompt h))),
        (''protocol'', PStr (ps_protocol (hs_prompt h))), (''policy'', PStr (ps_policy (hs_prompt h)))]),
      (''rendered_prompts'', PDict [
        (''nonrecursive'', PStr (pd_nonrecursive (hs_rendered_prompts h))),
        (''recursive'', PStr (pd_recursive (hs_rendered_prompts h)))]),
      (''schema_version'', PStr (hs_schema_version h)),
      (''abi_version'', PStr (hs_abi_version h)),
      (''abi_digest'', PStr (hs_abi_digest h)),
      (''bootstrap'', PDict [
        (''type'', PStr (bootstrap_value (bs_type (hs_bootstrap h)))),
        (''schema_version'', PStr (bs_schema_version (hs_bootstrap h))),
        (''content_in_message'', PBool (bs_content_in_message (hs_bootstrap h)))]),
      (''recovery'', PDict [
        (''mode'', PStr (recovery_mode_value (rs_mode (hs_recovery h)))),
        (''version'', PStr (rs_version (hs_recovery h)))]),
      (''observation'', PDict [
        (''type'', PStr (observation_value (os_type (hs_observation h)))),
        (''schema_version'', PStr (os_schema_version (hs_observation h)))]),
      (''context'', PDict [
        (''history'', PStr (history_value (cs_history (hs_context h)))),
        (''preserve_reasoning'', PBool (cs_preserve_reasoning (hs_context h)))])]
     @ (case hs_prelude h of None \<Rightarrow> [] | Some p \<Rightarrow> [(''prelude'', PDict (prelude_dict p))])"

definition harness_canonical_json :: "harness_spec \<Rightarrow> exn + string" where
  "harness_canonical_json h = dumps canonical (PDict (harness_snapshot h))"

definition harness_to_dict :: "harness_spec \<Rightarrow> exn + dict" where
  "harness_to_dict h =
     ebind (ebind (harness_canonical_json h) loads) (\<lambda>v.
       case as_dict v of
         None \<Rightarrow> Inl (type_error ''canonical HarnessSpec must encode an object'')
       | Some d \<Rightarrow> Inr d)"

definition fingerprint :: "harness_spec \<Rightarrow> exn + string" where
  "fingerprint h = sha_value (PDict (harness_snapshot h))"

section \<open>Reading a snapshot\<close>

definition read_prompt :: "dict \<Rightarrow> exn + prompt_spec" where
  "read_prompt d =
     ebind (call_kwargs ''PromptSpec'' [''name'', ''version'', ''protocol'', ''policy''] d) (\<lambda>_.
       mk_prompt (pget d ''name'') (pget d ''version'') (pget d ''protocol'') (pget d ''policy''))"

definition read_digests :: "dict \<Rightarrow> exn + prompt_digests" where
  "read_digests d =
     ebind (call_kwargs ''PromptDigests'' [''nonrecursive'', ''recursive''] d) (\<lambda>_.
       mk_digests (pget d ''nonrecursive'') (pget d ''recursive''))"

definition read_bootstrap :: "dict \<Rightarrow> exn + bootstrap_spec" where
  "read_bootstrap d =
     ebind (item d ''type'') (\<lambda>t.
     ebind (enum_of ''BootstrapType'' [(''rlm.controller_bootstrap'', ControllerBootstrap)] t) (\<lambda>ty.
     ebind (item d ''schema_version'') (\<lambda>v.
     ebind (item d ''content_in_message'') (\<lambda>c. mk_bootstrap ty v c))))"

definition read_recovery :: "dict \<Rightarrow> exn + recovery_spec" where
  "read_recovery d =
     ebind (item d ''mode'') (\<lambda>m.
     ebind (enum_of ''RecoveryMode'' [(''repair'', RepairMode), (''abort'', AbortMode)] m) (\<lambda>md.
     ebind (item d ''version'') (\<lambda>v. mk_recovery md v)))"

definition read_observation :: "dict \<Rightarrow> exn + observation_spec" where
  "read_observation d =
     ebind (item d ''type'') (\<lambda>t.
     ebind (enum_of ''ObservationType'' [(''rlm.controller_observation'', ControllerObservation)] t) (\<lambda>ty.
     ebind (item d ''schema_version'') (\<lambda>v. mk_observation ty v)))"

definition read_context :: "dict \<Rightarrow> exn + context_spec" where
  "read_context d =
     ebind (item d ''history'') (\<lambda>t.
     ebind (enum_of ''HistoryMode'' [(''latest_turn'', LatestTurn)] t) (\<lambda>h.
     ebind (item d ''preserve_reasoning'') (\<lambda>v. mk_context h v)))"

definition read_prelude :: "dict \<Rightarrow> exn + prelude_spec option" where
  "read_prelude value =
     (if pget value ''prelude'' = PNone then Inr None
      else let p = pget value ''prelude'' in
        ebind (subscript p ''source'') (\<lambda>s.
        ebind (subscript p ''exports'') (\<lambda>e.
        ebind (py_iter e) (\<lambda>es.
        ebind (emap py_iter es) (\<lambda>parts.
        ebind (subscript p ''version'') (\<lambda>v.
        ebind (mk_prelude s parts v) (\<lambda>r. Inr (Some r))))))))"

definition harness_spec_from_dict :: "dict \<Rightarrow> exn + harness_spec" where
  "harness_spec_from_dict value =
     ebind (item value ''prompt'') (\<lambda>prompt.
     ebind (item value ''rendered_prompts'') (\<lambda>rendered.
     ebind (item value ''bootstrap'') (\<lambda>bootstrap.
     ebind (item value ''recovery'') (\<lambda>recovery.
     ebind (item value ''observation'') (\<lambda>observation.
     ebind (item value ''context'') (\<lambda>cx.
       if \<not> list_all is_dict [prompt, rendered, bootstrap, recovery, observation, cx]
       then Inl (type_error ''harness snapshot sections must be objects'')
       else
         ebind (read_prompt (the (as_dict prompt))) (\<lambda>p.
         ebind (read_digests (the (as_dict rendered))) (\<lambda>r.
         ebind (item value ''schema_version'') (\<lambda>sv.
         ebind (item value ''abi_version'') (\<lambda>av.
         ebind (item value ''abi_digest'') (\<lambda>ad.
         ebind (read_bootstrap (the (as_dict bootstrap))) (\<lambda>b.
         ebind (read_recovery (the (as_dict recovery))) (\<lambda>rc.
         ebind (read_observation (the (as_dict observation))) (\<lambda>ob.
         ebind (read_prelude value) (\<lambda>pre.
         ebind (read_context (the (as_dict cx))) (\<lambda>c.
           mk_harness p r sv av ad b rc ob c pre))))))))))))))))"

section \<open>Valid harnesses survive their snapshot\<close>

definition not_blank :: "string \<Rightarrow> bool" where
  "not_blank s \<longleftrightarrow> strip s \<noteq> []"

definition valid_prelude :: "prelude_spec \<Rightarrow> bool" where
  "valid_prelude p \<longleftrightarrow> not_blank (pr_source p) \<and> not_blank (pr_version p) \<and> pr_exports p \<noteq> []
     \<and> list_all (\<lambda>e. is_identifier (fst e) \<and> not_blank (snd e)) (pr_exports p)"

definition valid_harness :: "harness_spec \<Rightarrow> bool" where
  "valid_harness h \<longleftrightarrow>
     list_all not_blank [ps_name (hs_prompt h), ps_version (hs_prompt h), ps_protocol (hs_prompt h),
       ps_policy (hs_prompt h), hs_schema_version h, hs_abi_version h, hs_abi_digest h,
       bs_schema_version (hs_bootstrap h), rs_version (hs_recovery h), os_schema_version (hs_observation h)]
     \<and> is_sha256_text (pd_nonrecursive (hs_rendered_prompts h))
     \<and> is_sha256_text (pd_recursive (hs_rendered_prompts h))
     \<and> \<not> bs_content_in_message (hs_bootstrap h)
     \<and> (case hs_prelude h of None \<Rightarrow> True | Some p \<Rightarrow> valid_prelude p)"

lemma nonempty_Inr [simp]: "nonempty v f = Inr s \<longleftrightarrow> v = PStr s \<and> not_blank s"
  by (auto simp: nonempty_def not_blank_def split: option.split if_split_asm)

lemma nonempty_PStr [simp]: "not_blank s \<Longrightarrow> nonempty (PStr s) f = Inr s"
  by simp

lemma py_bool_Inr [simp]: "py_bool v f = Inr b \<longleftrightarrow> v = PBool b"
  by (cases v) (auto simp: py_bool_def)

lemma lowercase_sha256_Inr [simp]: "lowercase_sha256 v f = Inr s \<longleftrightarrow> v = PStr s \<and> is_sha256_text s"
  by (auto simp: lowercase_sha256_def split: option.split if_split_asm)

lemma py_bool_PBool [simp]: "py_bool (PBool b) f = Inr b"
  by simp

lemma lowercase_sha256_PStr [simp]: "is_sha256_text s \<Longrightarrow> lowercase_sha256 (PStr s) f = Inr s"
  by simp

lemma item_simps [simp]:
  "item ((j, v) # d) k = (if j = k then Inr v else item d k)"
  by (simp add: item_def)

lemma mk_export_Inr:
  "mk_export part = Inr e \<longleftrightarrow>
     part = [PStr (fst e), PStr (snd e)] \<and> is_identifier (fst e) \<and> not_blank (snd e)"
  by (cases e) (auto simp: mk_export_def ebind_eq_Inr split: list.split py.split if_split_asm)

lemma mk_prelude_Inr:
  "mk_prelude s es v = Inr p \<longleftrightarrow> valid_prelude p \<and> s = PStr (pr_source p) \<and> v = PStr (pr_version p)
     \<and> es = map (\<lambda>e. [PStr (fst e), PStr (snd e)]) (pr_exports p)"
proof -
  have "emap mk_export es = Inr xs \<longleftrightarrow>
      es = map (\<lambda>e. [PStr (fst e), PStr (snd e)]) xs \<and> list_all (\<lambda>e. is_identifier (fst e) \<and> not_blank (snd e)) xs"
    for xs
  proof -
    have "list_all2 (\<lambda>x e. x = g e \<and> Q e) as bs \<longleftrightarrow> as = map g bs \<and> list_all Q bs"
      for as bs and g :: "string \<times> string \<Rightarrow> py list" and Q
      by (induction bs arbitrary: as) (auto simp: list_all2_Cons2)
    then show ?thesis by (simp add: emap_Inr_iff mk_export_Inr)
  qed
  then show ?thesis
    by (cases p) (auto simp: mk_prelude_def ebind_eq_Inr valid_prelude_def)
qed

lemma sorted_prelude:
  "sorted_keys (PDict (prelude_dict p)) =
   PDict [(''exports'', PList (map (\<lambda>e. PList [PStr (fst e), PStr (snd e)]) (pr_exports p))),
          (''source'', PStr (pr_source p)), (''version'', PStr (pr_version p))]"
  by (simp add: prelude_dict_def sort_key_def comp_def)

definition sorted_snapshot :: "harness_spec \<Rightarrow> dict" where
  "sorted_snapshot h =
     [(''abi_digest'', PStr (hs_abi_digest h)),
      (''abi_version'', PStr (hs_abi_version h)),
      (''bootstrap'', PDict [
        (''content_in_message'', PBool (bs_content_in_message (hs_bootstrap h))),
        (''schema_version'', PStr (bs_schema_version (hs_bootstrap h))),
        (''type'', PStr (bootstrap_value (bs_type (hs_bootstrap h))))]),
      (''context'', PDict [
        (''history'', PStr (history_value (cs_history (hs_context h)))),
        (''preserve_reasoning'', PBool (cs_preserve_reasoning (hs_context h)))]),
      (''observation'', PDict [
        (''schema_version'', PStr (os_schema_version (hs_observation h))),
        (''type'', PStr (observation_value (os_type (hs_observation h))))])]
     @ (case hs_prelude h of None \<Rightarrow> [] | Some p \<Rightarrow> [(''prelude'', sorted_keys (PDict (prelude_dict p)))])
     @ [(''prompt'', PDict [
        (''name'', PStr (ps_name (hs_prompt h))), (''policy'', PStr (ps_policy (hs_prompt h))),
        (''protocol'', PStr (ps_protocol (hs_prompt h))), (''version'', PStr (ps_version (hs_prompt h)))]),
      (''recovery'', PDict [
        (''mode'', PStr (recovery_mode_value (rs_mode (hs_recovery h)))),
        (''version'', PStr (rs_version (hs_recovery h)))]),
      (''rendered_prompts'', PDict [
        (''nonrecursive'', PStr (pd_nonrecursive (hs_rendered_prompts h))),
        (''recursive'', PStr (pd_recursive (hs_rendered_prompts h)))]),
      (''schema_version'', PStr (hs_schema_version h))]"

lemma sorted_keys_snapshot: "sorted_keys (PDict (harness_snapshot h)) = PDict (sorted_snapshot h)"
  by (cases "hs_prelude h")
     (simp_all add: harness_snapshot_def sorted_snapshot_def sort_key_def del: sorted_keys.simps(2)
        add: sorted_keys.simps(2) [of "_ # _"])

lemma snapshot_text_value: "json_text_value (PDict (harness_snapshot h))"
  by (cases "hs_prelude h") (auto simp: harness_snapshot_def prelude_dict_def)

lemma harness_to_dict_sorted: "harness_to_dict h = Inr (sorted_snapshot h)"
  using loads_dumps_canonical [OF snapshot_text_value [of h]]
  by (simp only: harness_to_dict_def harness_canonical_json_def sorted_keys_snapshot ebind_Inr
        as_dict.simps option.case)

lemmas harness_readers = read_prompt_def read_digests_def read_bootstrap_def read_recovery_def
  read_observation_def read_context_def mk_prompt_def mk_digests_def
  mk_bootstrap_def mk_recovery_def mk_observation_def mk_context_def mk_harness_def enum_of_def
  call_kwargs_def

lemma enum_values:
  "bootstrap_value t = ''rlm.controller_bootstrap''" "observation_value u = ''rlm.controller_observation''"
  "history_value w = ''latest_turn''"
  by (cases t, simp) (cases u, simp, cases w, simp)

lemma single_enums [simp]:
  "(t :: bootstrap_type) = ControllerBootstrap" "(u :: observation_type) = ControllerObservation"
  "(w :: history_mode) = LatestTurn"
  by (cases t, simp) (cases u, simp, cases w, simp)

lemmas single_enums_sym [simp] = single_enums [symmetric]

lemma read_prelude_dict:
  "valid_prelude p \<Longrightarrow> ebind (emap py_iter (map (\<lambda>e. PList [PStr (fst e), PStr (snd e)]) (pr_exports p)))
     (\<lambda>parts. mk_prelude (PStr (pr_source p)) parts (PStr (pr_version p))) = Inr p"
proof -
  assume v: "valid_prelude p"
  have "emap py_iter (map (\<lambda>e. PList [PStr (fst e), PStr (snd e)]) es) =
      Inr (map (\<lambda>e. [PStr (fst e), PStr (snd e)]) es)" for es :: "(string \<times> string) list"
    by (induction es) simp_all
  then show ?thesis using v by (simp add: mk_prelude_Inr)
qed

lemma snapshot_items:
  "item (sorted_snapshot h) ''prompt'' = Inr (PDict [
        (''name'', PStr (ps_name (hs_prompt h))), (''policy'', PStr (ps_policy (hs_prompt h))),
        (''protocol'', PStr (ps_protocol (hs_prompt h))), (''version'', PStr (ps_version (hs_prompt h)))])"
  "item (sorted_snapshot h) ''rendered_prompts'' = Inr (PDict [
        (''nonrecursive'', PStr (pd_nonrecursive (hs_rendered_prompts h))),
        (''recursive'', PStr (pd_recursive (hs_rendered_prompts h)))])"
  "item (sorted_snapshot h) ''bootstrap'' = Inr (PDict [
        (''content_in_message'', PBool (bs_content_in_message (hs_bootstrap h))),
        (''schema_version'', PStr (bs_schema_version (hs_bootstrap h))),
        (''type'', PStr (bootstrap_value (bs_type (hs_bootstrap h))))])"
  "item (sorted_snapshot h) ''recovery'' = Inr (PDict [
        (''mode'', PStr (recovery_mode_value (rs_mode (hs_recovery h)))),
        (''version'', PStr (rs_version (hs_recovery h)))])"
  "item (sorted_snapshot h) ''observation'' = Inr (PDict [
        (''schema_version'', PStr (os_schema_version (hs_observation h))),
        (''type'', PStr (observation_value (os_type (hs_observation h))))])"
  "item (sorted_snapshot h) ''context'' = Inr (PDict [
        (''history'', PStr (history_value (cs_history (hs_context h)))),
        (''preserve_reasoning'', PBool (cs_preserve_reasoning (hs_context h)))])"
  "item (sorted_snapshot h) ''schema_version'' = Inr (PStr (hs_schema_version h))"
  "item (sorted_snapshot h) ''abi_version'' = Inr (PStr (hs_abi_version h))"
  "item (sorted_snapshot h) ''abi_digest'' = Inr (PStr (hs_abi_digest h))"
  by (simp_all add: sorted_snapshot_def item_def split: option.split)

lemma harness_from_sorted:
  assumes "valid_harness h"
  shows "harness_spec_from_dict (sorted_snapshot h) = Inr h"
proof -
  have pre: "read_prelude (sorted_snapshot h) = Inr (hs_prelude h)"
    using assms read_prelude_dict
    by (cases "hs_prelude h")
       (auto simp: read_prelude_def sorted_snapshot_def sorted_prelude valid_harness_def ebind_assoc [symmetric]
             simp del: sorted_keys.simps)
  show ?thesis
    using assms
    by (cases "rs_mode (hs_recovery h)")
       (simp_all add: harness_spec_from_dict_def snapshot_items pre is_dict_def valid_harness_def
          harness_readers enum_values)
qed

lemma readers_valid:
  "read_prompt d = Inr p \<Longrightarrow> list_all not_blank [ps_name p, ps_version p, ps_protocol p, ps_policy p]"
  "read_digests d = Inr r \<Longrightarrow> is_sha256_text (pd_nonrecursive r) \<and> is_sha256_text (pd_recursive r)"
  "read_bootstrap d = Inr b \<Longrightarrow> not_blank (bs_schema_version b) \<and> \<not> bs_content_in_message b"
  "read_recovery d = Inr rc \<Longrightarrow> not_blank (rs_version rc)"
  "read_observation d = Inr ob \<Longrightarrow> not_blank (os_schema_version ob)"
  "read_prelude d = Inr pre \<Longrightarrow> (case pre of None \<Rightarrow> True | Some q \<Rightarrow> valid_prelude q)"
  by (auto simp: harness_readers read_prelude_def ebind_eq_Inr mk_prelude_Inr Let_def split: if_split_asm)

lemma harness_spec_from_dict_valid:
  assumes "harness_spec_from_dict d = Inr h"
  shows "valid_harness h"
proof -
  obtain p r sv av ad b rc ob pre c dp dr db drc dob where
    "read_prompt dp = Inr p" "read_digests dr = Inr r" "read_bootstrap db = Inr b"
    "read_recovery drc = Inr rc" "read_observation dob = Inr ob" "read_prelude d = Inr pre"
    "mk_harness p r sv av ad b rc ob c pre = Inr h"
    using assms unfolding harness_spec_from_dict_def ebind_eq_Inr by (auto split: if_split_asm simp: ebind_eq_Inr)
  then show ?thesis
    by (auto simp: valid_harness_def mk_harness_def ebind_eq_Inr dest!: readers_valid)
qed

lemma sha_value_ok: "json_data v \<Longrightarrow> \<exists>f. sha_value v = Inr f \<and> is_sha256_text f"
  by (simp add: sha_value_def dumps_ok)

section \<open>Properties\<close>

text \<open>C32: a valid harness survives its canonical snapshot: \<open>to_dict\<close> succeeds and
  \<open>harness_spec_from_dict\<close> of it returns the same harness; whatever that function accepts is valid;
  and the fingerprint of every harness is 64 lowercase hexadecimal digits.\<close>

theorem harness_snapshot_roundtrip:
  "(valid_harness h \<longrightarrow> (\<exists>d. harness_to_dict h = Inr d \<and> harness_spec_from_dict d = Inr h))
   \<and> (harness_spec_from_dict e = Inr g \<longrightarrow> valid_harness g)
   \<and> (\<exists>f. fingerprint h = Inr f \<and> is_sha256_text f)"
proof -
  have "json_data (PDict (harness_snapshot h))"
    using snapshot_text_value by (simp only: json_text_value_def wf_json_def)
  then show ?thesis
    using harness_to_dict_sorted harness_from_sorted harness_spec_from_dict_valid sha_value_ok
    unfolding fingerprint_def by blast
qed

definition sample_harness :: harness_spec where
  "sample_harness =
     \<lparr>hs_prompt = \<lparr>ps_name = ''n'', ps_version = ''1'', ps_protocol = ''p'', ps_policy = ''q''\<rparr>,
      hs_rendered_prompts = \<lparr>pd_nonrecursive = replicate 64 CHR ''a'', pd_recursive = replicate 64 CHR ''0''\<rparr>,
      hs_schema_version = ''1'', hs_abi_version = ''2'', hs_abi_digest = ''d'',
      hs_bootstrap = \<lparr>bs_type = ControllerBootstrap, bs_schema_version = ''2'', bs_content_in_message = False\<rparr>,
      hs_recovery = \<lparr>rs_mode = AbortMode, rs_version = ''1''\<rparr>,
      hs_observation = \<lparr>os_type = ControllerObservation, os_schema_version = ''2''\<rparr>,
      hs_context = \<lparr>cs_history = LatestTurn, cs_preserve_reasoning = True\<rparr>,
      hs_prelude = Some \<lparr>pr_source = ''x = 1'', pr_exports = [(''x'', ''one'')], pr_version = ''1''\<rparr>\<rparr>"

lemma sample_harness_valid: "valid_harness sample_harness"
  by (simp add: valid_harness_def sample_harness_def valid_prelude_def not_blank_def strip_def lstrip_def
      rstrip_def is_space_def is_identifier_def ident_start_def is_sha256_text_def is_hex_lower_def list_all_iff)

lemma harness_snapshot_roundtrip_witness:
  "valid_harness sample_harness
   \<and> (\<exists>d. harness_to_dict sample_harness = Inr d \<and> harness_spec_from_dict d = Inr sample_harness)"
proof -
  show ?thesis
    using sample_harness_valid harness_snapshot_roundtrip [of sample_harness "[]" sample_harness] by blast
qed

end
