(* ===== verification/Protocol.thy ===== *)
theory Protocol
  imports Response Specs
begin

text \<open>
  \<open>rlm/protocol.py\<close>: the private controller conversation, its one request shape, and the grammar
  of a controller turn, a single fenced Python cell; and \<open>rlm/recovery.py\<close>, the decision a run
  takes on a controller fault.
\<close>

section \<open>The controller's output\<close>

definition protocol_error :: "string \<Rightarrow> exn" where
  "protocol_error m = ProtocolErr m None"

definition is_item_of :: "string list \<Rightarrow> py \<Rightarrow> bool" where
  "is_item_of types v \<longleftrightarrow> (case as_dict v of
     Some d \<Rightarrow> (case as_str (pget d ''type'') of Some t \<Rightarrow> t \<in> set types | None \<Rightarrow> False) | None \<Rightarrow> False)"

definition controller_output_text :: "dict \<Rightarrow> exn + string" where
  "controller_output_text response =
     (case as_list (pget response ''output'') of
        None \<Rightarrow> Inl (protocol_error ''controller response output must be a list'')
      | Some output \<Rightarrow>
          if \<not> list_all (is_item_of [''reasoning'', ''message'']) output
          then Inl (protocol_error ''controller output may contain only reasoning and one message'')
          else case filter (is_item_of [''message'']) output of
            [PDict message] \<Rightarrow>
              if pget message ''role'' \<noteq> PStr ''assistant''
              then Inl (protocol_error ''controller message must have assistant role'')
              else (case pget message ''content'' of
                  PList [PDict part] \<Rightarrow>
                    if pget part ''type'' = PStr ''output_text''
                    then (case as_str (pget part ''text'') of
                        Some text \<Rightarrow> Inr text
                      | None \<Rightarrow> Inl (protocol_error
                          ''controller message must contain exactly one output_text part''))
                    else Inl (protocol_error ''controller message must contain exactly one output_text part'')
                | _ \<Rightarrow> Inl (protocol_error ''controller message must contain exactly one output_text part''))
          | _ \<Rightarrow> Inl (protocol_error ''controller must return exactly one assistant message''))"

definition fence :: string where "fence = ''```''"

definition newline :: string where "newline = [CHR 0x0A]"

definition middle :: "'a list \<Rightarrow> 'a list" where "middle xs = butlast (tl xs)"

definition python_cell :: "string \<Rightarrow> exn + string" where
  "python_cell text =
     (let lines = splitlines (strip text)
      in if length lines < 3 \<or> hd lines \<noteq> ''```python'' \<or> last lines \<noteq> fence
         then Inl (protocol_error ''controller must return exactly one fenced python cell'')
         else if list_ex (\<lambda>l. startswith (strip l) fence) (middle lines)
         then Inl (protocol_error ''controller returned more than one fenced cell'')
         else let code = strip (join_str newline (middle lines))
              in if code = [] then Inl (protocol_error ''controller returned an empty Python cell'')
                 else Inr code)"

text \<open>\<open>ControllerAction\<close>, and \<open>PythonCellControllerProtocol.parse\<close>.\<close>

record controller_action =
  ca_code :: string

definition parse_action :: "dict \<Rightarrow> exn + controller_action" where
  "parse_action response =
     ebind (controller_output_text response) (\<lambda>t.
     ebind (python_cell t) (\<lambda>c. Inr \<lparr>ca_code = c\<rparr>))"

section \<open>The conversation\<close>

definition protocol_owned_fields :: "string list" where
  "protocol_owned_fields = [''model'', ''instructions'', ''input'']"

definition unsupported_controller_fields :: "string list" where
  "unsupported_controller_fields =
     [''background'', ''stream'', ''modalities'', ''response_format'', ''text'', ''tools'', ''tool_choice'']"

record conversation =
  cv_system :: string
  cv_context :: context_spec
  cv_items :: "dict list"

definition user_item :: "string \<Rightarrow> dict" where
  "user_item content = [(''role'', PStr ''user''), (''content'', PStr content)]"

definition start_conversation :: "string \<Rightarrow> string \<Rightarrow> context_spec \<Rightarrow> conversation" where
  "start_conversation system first_user cx =
     \<lparr>cv_system = system, cv_context = cx, cv_items = [user_item first_user]\<rparr>"

definition controller_request :: "conversation \<Rightarrow> string \<Rightarrow> dict \<Rightarrow> dict" where
  "controller_request cv model options =
     dupdate options
       [(''model'', PStr model), (''instructions'', PStr (cv_system cv)),
        (''input'', PList (map PDict (cv_items cv)))]"

definition retained_items :: "conversation \<Rightarrow> dict \<Rightarrow> dict list" where
  "retained_items cv response =
     (case as_list (pget response ''output'') of
        None \<Rightarrow> []
      | Some output \<Rightarrow> List.map_filter (\<lambda>v. case as_dict v of
            None \<Rightarrow> None
          | Some d \<Rightarrow>
              if pget d ''type'' = PStr ''message''
                 \<or> pget d ''type'' = PStr ''reasoning'' \<and> cs_preserve_reasoning (cv_context cv)
              then Some d else None) output)"

definition append_response :: "conversation \<Rightarrow> dict \<Rightarrow> conversation" where
  "append_response cv response = cv\<lparr>cv_items := hd (cv_items cv) # retained_items cv response\<rparr>"

definition append_observation :: "conversation \<Rightarrow> dict \<Rightarrow> exn + conversation" where
  "append_observation cv observation =
     ebind (dumps compact (PDict observation)) (\<lambda>s.
       Inr (cv\<lparr>cv_items := cv_items cv @ [user_item s]\<rparr>))"

section \<open>Recovery\<close>

datatype fault_kind = ControllerProtocolFault | ExecutionFault | ModelOutputKind | FinalSubmissionKind

fun fault_kind_value :: "fault_kind \<Rightarrow> string" where
  "fault_kind_value ControllerProtocolFault = ''controller_protocol''"
| "fault_kind_value ExecutionFault = ''execution''"
| "fault_kind_value ModelOutputKind = ''model_output''"
| "fault_kind_value FinalSubmissionKind = ''final_submission''"

record controller_fault =
  cf_kind :: fault_kind
  cf_fault_message :: string
  cf_details :: "dict option"

definition mk_fault :: "fault_kind \<Rightarrow> string \<Rightarrow> dict option \<Rightarrow> exn + controller_fault" where
  "mk_fault k m det =
     (if m = [] then Inl (value_error ''message must be a non-empty string'')
      else case Option.bind det (\<lambda>d. json_compatibility_error (PDict d)) of
        Some e \<Rightarrow> Inl (value_error (''details must contain strict JSON: '' @ e))
      | None \<Rightarrow> Inr \<lparr>cf_kind = k, cf_fault_message = m, cf_details = det\<rparr>)"

definition fault_to_dict :: "controller_fault \<Rightarrow> exn + dict" where
  "fault_to_dict f =
     (let base = [(''kind'', PStr (fault_kind_value (cf_kind f))), (''message'', PStr (cf_fault_message f))]
      in case cf_details f of
           None \<Rightarrow> Inr base
         | Some d \<Rightarrow> ebind (dumps spaced (PDict d)) (\<lambda>s. ebind (loads s) (\<lambda>v.
             Inr (base @ [(''details'', v)]))))"

datatype recovery_decision = Repair controller_fault | Abort controller_fault

definition decision_to_dict :: "recovery_decision \<Rightarrow> exn + dict" where
  "decision_to_dict r =
     (case r of
        Repair f \<Rightarrow> ebind (fault_to_dict f) (\<lambda>d.
          Inr [(''kind'', PStr ''repair''), (''fault'', PDict d)])
      | Abort f \<Rightarrow> ebind (fault_to_dict f) (\<lambda>d.
          Inr [(''kind'', PStr ''abort''), (''fault'', PDict d)]))"

definition decide :: "recovery_spec \<Rightarrow> controller_fault \<Rightarrow> int \<Rightarrow> exn + recovery_decision" where
  "decide spec fault turn =
     (if turn < 1 then Inl (value_error ''turn must be positive'')
      else case rs_mode spec of RepairMode \<Rightarrow> Inr (Repair fault) | AbortMode \<Rightarrow> Inr (Abort fault))"

section \<open>The cell grammar\<close>

lemma skip_lf_other: "code d \<noteq> 10 \<Longrightarrow> skip_lf (d # ds) = d # ds"
  by (simp add: skip_lf_def)

lemma splitlines_from_line:
  "list_all (\<lambda>c. \<not> is_linebreak c) l \<Longrightarrow>
   splitlines_from cur (l @ CHR 0x0A # rest) = (rev cur @ l) # splitlines_from [] rest"
  by (induction l arbitrary: cur) (simp_all add: is_linebreak_def)

lemma splitlines_from_last:
  "list_all (\<lambda>c. \<not> is_linebreak c) l \<Longrightarrow> rev cur @ l \<noteq> [] \<Longrightarrow> splitlines_from cur l = [rev cur @ l]"
  by (induction l arbitrary: cur) auto

lemma splitlines_join:
  "ls \<noteq> [] \<Longrightarrow> \<forall>l\<in>set ls. list_all (\<lambda>c. \<not> is_linebreak c) l \<Longrightarrow> last ls \<noteq> [] \<Longrightarrow>
   splitlines_from [] (join_str newline ls) = ls"
proof (induction newline ls rule: join_str.induct)
  case (2 x)
  then show ?case using splitlines_from_last [of x "[]"] by simp
next
  case (3 x y zs)
  then show ?case using splitlines_from_line [of x "[]"] by (simp add: newline_def)
qed simp

lemma strip_id: "s \<noteq> [] \<Longrightarrow> \<not> is_space (hd s) \<Longrightarrow> \<not> is_space (last s) \<Longrightarrow> strip s = s"
proof -
  assume "s \<noteq> []" "\<not> is_space (hd s)" "\<not> is_space (last s)"
  moreover have "xs \<noteq> [] \<Longrightarrow> \<not> P (hd xs) \<Longrightarrow> dropWhile P xs = xs" for P :: "char \<Rightarrow> bool" and xs
    by (cases xs) auto
  ultimately show ?thesis by (simp add: strip_def lstrip_def rstrip_def hd_rev)
qed

lemma join_str_hd: "xs \<noteq> [] \<Longrightarrow> hd xs \<noteq> [] \<Longrightarrow> join_str sep xs \<noteq> [] \<and> hd (join_str sep xs) = hd (hd xs)"
  by (induction sep xs rule: join_str.induct) auto

lemma join_str_last:
  "xs \<noteq> [] \<Longrightarrow> last xs \<noteq> [] \<Longrightarrow> join_str sep xs \<noteq> [] \<and> last (join_str sep xs) = last (last xs)"
  by (induction sep xs rule: join_str.induct) auto

lemma middle_fenced [simp]: "middle (a # xs @ [b]) = xs"
  by (simp add: middle_def)

lemma fenced_lines:
  "3 \<le> length ls \<Longrightarrow> ls = hd ls # middle ls @ [last ls]"
  by (cases ls; cases "tl ls" rule: rev_cases) (auto simp: middle_def)

definition no_linebreak :: "string \<Rightarrow> bool" where
  "no_linebreak l \<longleftrightarrow> list_all (\<lambda>c. \<not> is_linebreak c) l"

text \<open>The fenced text of a cell given by its lines.\<close>

definition fenced_cell :: "string list \<Rightarrow> string" where
  "fenced_cell ls = join_str newline (''```python'' # ls @ [fence])"

lemma splitlines_fenced:
  assumes "\<forall>l\<in>set ls. no_linebreak l"
  shows "splitlines (strip (fenced_cell ls)) = ''```python'' # ls @ [fence]"
proof -
  let ?ls = "''```python'' # ls @ [fence]"
  have "strip (fenced_cell ls) = fenced_cell ls"
    using join_str_hd [of ?ls newline] join_str_last [of ?ls newline]
    by (intro strip_id) (simp_all add: fenced_cell_def fence_def is_space_def)
  moreover have "\<forall>l\<in>set ?ls. list_all (\<lambda>c. \<not> is_linebreak c) l"
    using assms by (auto simp: no_linebreak_def fence_def is_linebreak_def)
  ultimately show ?thesis
    using splitlines_join [of ?ls] by (simp add: fenced_cell_def splitlines_def fence_def)
qed

lemma python_cell_Inr:
  "python_cell text = Inr c \<longleftrightarrow>
     (\<exists>ls. splitlines (strip text) = ''```python'' # ls @ [fence] \<and> ls \<noteq> []
        \<and> (\<forall>l\<in>set ls. \<not> startswith (strip l) fence)
        \<and> c = strip (join_str newline ls) \<and> c \<noteq> [])" (is "?l \<longleftrightarrow> ?r")
proof
  assume ?l
  then have p: "3 \<le> length (splitlines (strip text))" "hd (splitlines (strip text)) = ''```python''"
    "last (splitlines (strip text)) = fence" "\<forall>l\<in>set (middle (splitlines (strip text))). \<not> startswith (strip l) fence"
    "c = strip (join_str newline (middle (splitlines (strip text))))" "c \<noteq> []"
    by (auto simp: python_cell_def Let_def list_ex_iff split: if_split_asm)
  from fenced_lines [OF p(1)] p(1) p(2,3) have
    "splitlines (strip text) = ''```python'' # middle (splitlines (strip text)) @ [fence]"
    "middle (splitlines (strip text)) \<noteq> []" by (metis, metis append_Nil length_Cons list.size(3) numeral_3_eq_3 Suc_n_not_le_n)
  with p(4-6) show ?r by blast
next
  assume ?r
  then obtain ls where ls: "splitlines (strip text) = ''```python'' # ls @ [fence]" "ls \<noteq> []"
    "\<forall>l\<in>set ls. \<not> startswith (strip l) fence" "c = strip (join_str newline ls)" "c \<noteq> []" by blast
  then have "Suc 0 \<le> length ls" by (cases ls) auto
  then show ?l
    using ls unfolding python_cell_def Let_def ls(1) middle_fenced
    by (auto simp: list_ex_iff)
qed

section \<open>The conversation keeps one turn\<close>

text \<open>Histories of the conversation: a response is always followed by its observation.\<close>

inductive turns_of :: "conversation \<Rightarrow> conversation \<Rightarrow> bool" for start where
  start: "turns_of start start"
| turn: "turns_of start cv \<Longrightarrow> append_observation (append_response cv response) obs = Inr cv' \<Longrightarrow>
    turns_of start cv'"

lemma append_observation_Inr:
  "append_observation cv obs = Inr cv' \<longleftrightarrow>
     (\<exists>s. dumps compact (PDict obs) = Inr s \<and> cv' = cv\<lparr>cv_items := cv_items cv @ [user_item s]\<rparr>)"
  by (auto simp: append_observation_def ebind_eq_Inr)

lemma turns_of_keep:
  "turns_of start cv \<Longrightarrow> cv_system cv = cv_system start \<and> cv_context cv = cv_context start
     \<and> (cv_items start \<noteq> [] \<longrightarrow> cv_items cv \<noteq> [] \<and> hd (cv_items cv) = hd (cv_items start))"
  by (induction rule: turns_of.induct) (auto simp: append_observation_Inr append_response_def)

lemma retained_items_types:
  "d \<in> set (retained_items cv response) \<Longrightarrow>
     pget d ''type'' = PStr ''message'' \<or> pget d ''type'' = PStr ''reasoning'' \<and> cs_preserve_reasoning (cv_context cv)"
  by (auto simp: retained_items_def set_map_filter split: option.split_asm if_split_asm)

section \<open>Properties\<close>

text \<open>C31: a controller turn is accepted exactly when its one message is a fenced Python cell: the
  stripped text is the opening fence, at least one line none of which opens another fence, and the
  closing fence; the code is the stripped lines between, never empty.  Every cell given by its lines
  is read back from its fenced text.\<close>

theorem python_cell_exact:
  "(python_cell text = Inr c \<longleftrightarrow>
     (\<exists>ls. splitlines (strip text) = ''```python'' # ls @ [fence] \<and> ls \<noteq> []
        \<and> (\<forall>l\<in>set ls. \<not> startswith (strip l) fence)
        \<and> c = strip (join_str newline ls) \<and> c \<noteq> []))
   \<and> (ls \<noteq> [] \<longrightarrow> (\<forall>l\<in>set ls. no_linebreak l \<and> \<not> startswith (strip l) fence) \<longrightarrow>
      strip (join_str newline ls) \<noteq> [] \<longrightarrow>
      python_cell (fenced_cell ls) = Inr (strip (join_str newline ls)))"
  unfolding python_cell_Inr using splitlines_fenced [of ls] by blast

lemma python_cell_exact_witness:
  "python_cell (fenced_cell [''x = 1'', ''FINAL_TEXT(x)'']) = Inr (''x = 1'' @ newline @ ''FINAL_TEXT(x)'')"
proof -
  let ?ls = "[''x = 1'', ''FINAL_TEXT(x)'']"
  have "strip (join_str newline ?ls) = ''x = 1'' @ newline @ ''FINAL_TEXT(x)''"
    by (simp add: strip_def lstrip_def rstrip_def is_space_def newline_def)
  moreover have "\<forall>l\<in>set ?ls. no_linebreak l \<and> \<not> startswith (strip l) fence"
    by (simp add: no_linebreak_def is_linebreak_def startswith_def fence_def strip_def lstrip_def rstrip_def is_space_def)
  ultimately show ?thesis
    using python_cell_exact [of undefined undefined ?ls] by simp
qed

text \<open>C14: the history is the latest turn: after any number of turns the conversation is the first user
  item, the message and permitted reasoning items of the last response and its observation - no
  item of an earlier turn - and a request carries exactly these items, the system prompt and the
  model, whatever the options hold under those names.\<close>

theorem latest_turn_only:
  assumes "turns_of (start_conversation system first_user cx) cv"
    "append_observation (append_response cv response) obs = Inr cv'"
  shows "(\<exists>s. dumps compact (PDict obs) = Inr s
      \<and> cv_items cv' = user_item first_user # retained_items cv response @ [user_item s])
    \<and> (\<forall>d\<in>set (retained_items cv response). pget d ''type'' = PStr ''message''
         \<or> pget d ''type'' = PStr ''reasoning'' \<and> cs_preserve_reasoning cx)
    \<and> pget (controller_request cv' model options) ''input'' = PList (map PDict (cv_items cv'))
    \<and> pget (controller_request cv' model options) ''instructions'' = PStr system
    \<and> pget (controller_request cv' model options) ''model'' = PStr model"
proof -
  have k: "cv_system cv = system" "cv_context cv = cx" "hd (cv_items cv) = user_item first_user"
    using turns_of_keep [OF assms(1)] by (simp_all add: start_conversation_def)
  from assms(2) obtain s where s: "dumps compact (PDict obs) = Inr s"
    "cv' = (append_response cv response)\<lparr>cv_items := cv_items (append_response cv response) @ [user_item s]\<rparr>"
    by (auto simp: append_observation_Inr)
  then have "cv_items cv' = user_item first_user # retained_items cv response @ [user_item s]"
    "cv_system cv' = system"
    by (simp_all add: append_response_def k)
  moreover have "pget (controller_request cv' model options) n = pget
       [(''model'', PStr model), (''instructions'', PStr (cv_system cv')),
        (''input'', PList (map PDict (cv_items cv')))] n" if "n \<in> set protocol_owned_fields" for n
    using that by (auto simp: pget_def controller_request_def dget_dupdate protocol_owned_fields_def)
  ultimately show ?thesis
    using s(1) retained_items_types [of _ cv response] k(2) by (auto simp: protocol_owned_fields_def)
qed

definition sample_conversation :: conversation where
  "sample_conversation = start_conversation ''sys'' ''boot''
     \<lparr>cs_history = LatestTurn, cs_preserve_reasoning = True\<rparr>"

lemma latest_turn_only_witness:
  "\<exists>cv'. append_observation (append_response sample_conversation [(''output'', PList [])]) [] = Inr cv'
     \<and> pget (controller_request cv' ''m'' [(''model'', PStr ''other'')]) ''model'' = PStr ''m''"
proof -
  obtain cv' where "append_observation (append_response sample_conversation [(''output'', PList [])]) [] = Inr cv'"
    by (simp add: append_observation_def dumps_ok)
  then show ?thesis
    using latest_turn_only [OF turns_of.start, of "''sys''" "''boot''" "\<lparr>cs_history = LatestTurn, cs_preserve_reasoning = True\<rparr>"]
    unfolding sample_conversation_def by blast
qed

end
