(* ===== verification/Prompts.thy ===== *)
theory Prompts
  imports Protocol
begin

text \<open>
  \<open>rlm/prompts.py\<close>: the controller prompt, rendered from the harness and checked against the
  digests the harness carries, and the metadata-only first user item.
\<close>

section \<open>The prompt text\<close>

definition dq :: string where "dq = [CHR 0x22]"

definition text_lines :: "string list \<Rightarrow> string" where
  "text_lines ls = concat (map (\<lambda>l. l @ newline) ls)"

definition default_protocol :: string where
  "default_protocol = text_lines [
     ''You are the controller of a Recursive Language Model. The caller's exact'',
     ''Responses API request is already bound in persistent IPython state as'',
     ''`request`.'',
     [],
     ''Controller user items are typed runtime envelopes, never caller turns. The first'',
     ''is `rlm.controller_bootstrap`; later items are `rlm.controller_observation`.'',
     ''`content_in_message: false` means only that the bootstrap omits caller content:'',
     ''you can and should access `request` directly in Python. Do not answer'',
     ''the bootstrap envelope. `execution.status: '' @ dq @ ''ok'' @ dq @ ''` means only that the preceding'',
     ''cell ran; it does not mean the caller's request is complete.'',
     ''`submission.status: '' @ dq @ ''absent'' @ dq @ ''` means no valid final was accepted. An accepted'',
     ''final terminates the branch without another observation. The bootstrap's'',
     ''`submission.allowed_kinds` lists the permitted final interfaces.'',
     [],
     ''Return exactly one fenced `python` cell per turn and no other text. The versioned'',
     ''environment ABI below lists every prebound helper; call helpers directly and do'',
     ''not import them. Bound `request` and other ABI-provided globals are'',
     ''deliberately omitted from `SHOW_VARS()`. Variables and imports persist. Use'',
     ''Python for deterministic work; call `model_complete(request)` only'',
     ''when semantic work is useful. Errors return as structured observations.'',
     [],
     ''Prefer short, direct cells and let unexpected errors become observations. After'',
     ''a failure, use the observation to correct the code. Never repeat an unchanged'',
     ''failing cell.'',
     [],
     ''Work privately until the actual answer itself is ready. A cell may inspect,'',
     ''compute, or call models without submitting; omit both final helpers to receive'',
     ''its observation on the next turn. Never submit an acknowledgement, readiness or'',
     ''progress report, plan, inspection summary, or promise of later work.'',
     [],
     ''Terminate the branch with exactly one valid final call. Use FINAL_TEXT for exact'',
     ''answer text, including JSON text, when `submission.allowed_kinds` contains'',
     ''`'' @ dq @ ''text'' @ dq @ ''`. Use FINAL_RESPONSE only with an existing complete Responses object,'',
     ''normally one returned by `model_complete` or `rlm_complete`; never synthesize'',
     ''that envelope. When a value exactly satisfies the caller's content and format'',
     ''requirements, submit that value unchanged. Do not expose private protocol'',
     ''details or intermediate work in the public answer.'']"

definition default_policy :: string where
  "default_policy = text_lines [
     ''Use the least expensive reliable path. Stop when the response is ready.'']"

section \<open>Rendering\<close>

definition prelude_section :: "prelude_spec option \<Rightarrow> string" where
  "prelude_section prelude =
     (case prelude of None \<Rightarrow> []
      | Some p \<Rightarrow> newline @ newline @ ''Harness prelude v'' @ pr_version p @ '' (sha256 ''
          @ take 16 (prelude_digest p)
          @ ''), already defined in the environment; call these directly and do not import or redefine them:''
          @ newline
          @ join_str newline (map (\<lambda>e. ''- '' @ fst e @ '': '' @ snd e) (pr_exports p)))"

definition materialize_prompt ::
  "prompt_spec \<Rightarrow> bool \<Rightarrow> environment_abi \<Rightarrow> prelude_spec option \<Rightarrow> string" where
  "materialize_prompt prompt allow_recursion abi prelude =
     rstrip (ps_protocol prompt) @ newline @ newline @ ''Environment ABI v'' @ abi_version abi
       @ '' ('' @ abi_request_name abi @ ''):'' @ newline
       @ join_str newline (map (\<lambda>f. ''- '' @ render_function f @ '': '' @ fn_description f)
           (enabled_functions abi allow_recursion))
       @ prelude_section prelude @ newline @ newline @ ''Policy:'' @ newline @ strip (ps_policy prompt)"

definition prompt_digest :: "string \<Rightarrow> string" where
  "prompt_digest rendered = sha256_text rendered"

definition variant_name :: "bool \<Rightarrow> string" where
  "variant_name allow_recursion = (if allow_recursion then ''recursive'' else ''nonrecursive'')"

definition stale_prompt :: "bool \<Rightarrow> exn" where
  "stale_prompt allow_recursion =
     HarnessContract (''rendered prompt '' @ variant_name allow_recursion @ '' digest does not match harness'')"

definition expected_digest :: "harness_spec \<Rightarrow> bool \<Rightarrow> string" where
  "expected_digest h allow_recursion =
     (if allow_recursion then pd_recursive (hs_rendered_prompts h)
      else pd_nonrecursive (hs_rendered_prompts h))"

definition render_prompt :: "harness_spec \<Rightarrow> bool \<Rightarrow> exn + string" where
  "render_prompt h allow_recursion =
     (let rendered = materialize_prompt (hs_prompt h) allow_recursion ENVIRONMENT_ABI (hs_prelude h)
      in if prompt_digest rendered \<noteq> expected_digest h allow_recursion
         then Inl (stale_prompt allow_recursion) else Inr rendered)"

definition installed_abi_digest :: string where
  "installed_abi_digest = (case abi_digest ENVIRONMENT_ABI of Inr d \<Rightarrow> d | Inl e \<Rightarrow> [])"

definition validate_harness_contract :: "harness_spec \<Rightarrow> exn + unit" where
  "validate_harness_contract h =
     (if hs_abi_version h \<noteq> abi_version ENVIRONMENT_ABI
      then Inl (HarnessContract ''harness ABI version does not match the installed execution environment'')
      else if hs_abi_digest h \<noteq> installed_abi_digest
      then Inl (HarnessContract ''harness ABI digest does not match the installed environment ABI'')
      else ebind (emap (\<lambda>allow_recursion.
             let rendered = materialize_prompt (hs_prompt h) allow_recursion ENVIRONMENT_ABI (hs_prelude h)
             in if prompt_digest rendered \<noteq> expected_digest h allow_recursion
                then Inl (stale_prompt allow_recursion) else Inr ()) [False, True])
           (\<lambda>_. Inr ()))"

definition default_prompt :: prompt_spec where
  "default_prompt =
     \<lparr>ps_name = ''default'', ps_version = ''24'', ps_protocol = default_protocol, ps_policy = default_policy\<rparr>"

definition default_harness_spec :: harness_spec where
  "default_harness_spec =
     \<lparr>hs_prompt = default_prompt,
      hs_rendered_prompts =
        \<lparr>pd_nonrecursive = prompt_digest (materialize_prompt default_prompt False ENVIRONMENT_ABI None),
         pd_recursive = prompt_digest (materialize_prompt default_prompt True ENVIRONMENT_ABI None)\<rparr>,
      hs_schema_version = ''1'', hs_abi_version = abi_version ENVIRONMENT_ABI,
      hs_abi_digest = installed_abi_digest,
      hs_bootstrap = \<lparr>bs_type = ControllerBootstrap, bs_schema_version = ''2'', bs_content_in_message = False\<rparr>,
      hs_recovery = \<lparr>rs_mode = RepairMode, rs_version = ''1''\<rparr>,
      hs_observation = \<lparr>os_type = ControllerObservation, os_schema_version = ''2''\<rparr>,
      hs_context = \<lparr>cs_history = LatestTurn, cs_preserve_reasoning = True\<rparr>,
      hs_prelude = None\<rparr>"

section \<open>The bootstrap item\<close>

definition request_metadata :: "dict \<Rightarrow> exn + dict" where
  "request_metadata request =
     ebind (dumps spaced (PDict request)) (\<lambda>serialized.
       Inr [(''model'', pget request ''model''),
            (''request_keys'', PList (map PStr (sort (keys request)))),
            (''serialized_characters'', PInt (int (length serialized))),
            (''input_type'', PStr (type_name (pget request ''input'')))])"

definition allowed_submission_kinds :: "dict \<Rightarrow> submission_kind list" where
  "allowed_submission_kinds request =
     (if requires_complete_response request then [ResponseKind] else [TextKind, ResponseKind])"

definition bootstrap_dict :: "harness_spec \<Rightarrow> dict \<Rightarrow> int \<Rightarrow> exn + dict" where
  "bootstrap_dict h request depth =
     ebind (request_metadata request) (\<lambda>meta.
       Inr [(''type'', PStr (bootstrap_value (bs_type (hs_bootstrap h)))),
            (''schema_version'', PStr (bs_schema_version (hs_bootstrap h))),
            (''branch_depth'', PInt depth),
            (''request_binding'', PStr (abi_request_name ENVIRONMENT_ABI)),
            (''content_in_message'', PBool (bs_content_in_message (hs_bootstrap h))),
            (''submission'', PDict [(''required'', PBool True),
               (''allowed_kinds'', PList (map (\<lambda>k. PStr (submission_kind_value k))
                  (allowed_submission_kinds request)))]),
            (''request_metadata'', PDict meta)])"

definition bootstrap_message :: "harness_spec \<Rightarrow> dict \<Rightarrow> int \<Rightarrow> exn + string" where
  "bootstrap_message h request depth =
     ebind (bootstrap_dict h request depth) (\<lambda>d. dumps indented (PDict d))"

section \<open>Properties\<close>

lemma render_prompt_Inr:
  "render_prompt h rec = Inr t \<longleftrightarrow>
     t = materialize_prompt (hs_prompt h) rec ENVIRONMENT_ABI (hs_prelude h)
     \<and> prompt_digest t = expected_digest h rec"
  by (auto simp: render_prompt_def Let_def)

lemma validate_contract_Inr:
  "validate_harness_contract h = Inr () \<longleftrightarrow>
     hs_abi_version h = abi_version ENVIRONMENT_ABI \<and> hs_abi_digest h = installed_abi_digest
     \<and> (\<forall>rec. is_ok (render_prompt h rec))"
  by (auto simp: validate_harness_contract_def render_prompt_def Let_def ebind_eq_Inr is_ok_def all_bool_eq)

lemma bootstrap_value_request:
  assumes "bootstrap_dict h request depth = Inr d"
  shows "\<exists>n. d = [(''type'', PStr (bootstrap_value (bs_type (hs_bootstrap h)))),
            (''schema_version'', PStr (bs_schema_version (hs_bootstrap h))),
            (''branch_depth'', PInt depth), (''request_binding'', PStr ''request''),
            (''content_in_message'', PBool (bs_content_in_message (hs_bootstrap h))),
            (''submission'', PDict [(''required'', PBool True),
               (''allowed_kinds'', PList (map (\<lambda>k. PStr (submission_kind_value k))
                  (allowed_submission_kinds request)))]),
            (''request_metadata'', PDict [(''model'', pget request ''model''),
               (''request_keys'', PList (map PStr (sort (keys request)))),
               (''serialized_characters'', PInt n),
               (''input_type'', PStr (type_name (pget request ''input'')))])]"
  using assms by (auto simp: bootstrap_dict_def request_metadata_def ebind_eq_Inr ENVIRONMENT_ABI_def)

text \<open>C33: the bootstrap item carries no caller content: it depends on the request only through its
  model, its sorted key names, the length of its JSON text and the type name of its input; two
  requests that agree on these get the same bootstrap text.\<close>

theorem bootstrap_hides_content:
  assumes "dumps spaced (PDict r1) = Inr s1" "dumps spaced (PDict r2) = Inr s2" "length s1 = length s2"
    "pget r1 ''model'' = pget r2 ''model''" "sort (keys r1) = sort (keys r2)"
    "type_name (pget r1 ''input'') = type_name (pget r2 ''input'')"
  shows "bootstrap_message h r1 depth = bootstrap_message h r2 depth"
proof -
  have "set (keys r1) = set (keys r2)" using assms(5) by (metis set_sort)
  then have "requires_complete_response r1 = requires_complete_response r2"
    by (simp add: requires_complete_response_def list_ex_iff)
  then show ?thesis
    using assms by (simp add: bootstrap_message_def bootstrap_dict_def request_metadata_def allowed_submission_kinds_def)
qed

lemma bootstrap_hides_content_witness:
  "bootstrap_message default_harness_spec [(''model'', PStr ''m''), (''input'', PStr ''abc'')] 0
   = bootstrap_message default_harness_spec [(''model'', PStr ''m''), (''input'', PStr ''xyz'')] 0"
  by (rule bootstrap_hides_content [where ?s1.0 = "encode spaced 0 (PDict [(''model'', PStr ''m''), (''input'', PStr ''abc'')])"
      and ?s2.0 = "encode spaced 0 (PDict [(''model'', PStr ''m''), (''input'', PStr ''xyz'')])"])
     (simp_all add: dumps_ok json_string_def json_char_def spaced_def newline_indent_def)

text \<open>C40: a harness passes the contract check exactly when it names the installed environment ABI by
  version and digest and both prompt variants render to the digests it carries, so that no later
  rendering of an accepted harness fails; the default harness passes.\<close>

theorem harness_contract_exact:
  "(validate_harness_contract h = Inr () \<longleftrightarrow>
      hs_abi_version h = ''2'' \<and> hs_abi_digest h = installed_abi_digest
      \<and> (\<exists>t u. render_prompt h False = Inr t \<and> render_prompt h True = Inr u))
   \<and> validate_harness_contract default_harness_spec = Inr ()"
proof -
  have d: "validate_harness_contract default_harness_spec = Inr ()"
    by (auto simp: validate_contract_Inr is_ok_iff render_prompt_Inr expected_digest_def default_harness_spec_def)
  have "abi_version ENVIRONMENT_ABI = ''2''" by (simp add: ENVIRONMENT_ABI_def)
  then show ?thesis using d by (auto simp: validate_contract_Inr is_ok_iff all_bool_eq)
qed

end
