(* ===== verification/Config.thy ===== *)
theory Config
  imports Prompts
begin

text \<open>
  \<open>rlm/config.py\<close>: the validated runtime configuration.  A limit that may be an integer or a float
  in Python stays the value that was passed, with \<open>seconds_of\<close> its number.
\<close>

section \<open>Limits\<close>

definition min_observation_chars :: int where "min_observation_chars = 512"

definition positive_int :: "py \<Rightarrow> string \<Rightarrow> int \<Rightarrow> exn + int" where
  "positive_int v nm minimum =
     (case as_int v of
        Some i \<Rightarrow> if i < minimum
          then Inl (value_error (nm @ '' must be an integer of at least '' @ show_int minimum)) else Inr i
      | None \<Rightarrow> Inl (value_error (nm @ '' must be an integer of at least '' @ show_int minimum)))"

definition positive_number :: "py \<Rightarrow> string \<Rightarrow> exn + py" where
  "positive_number v nm =
     (case as_number v of
        Some (Fin r) \<Rightarrow> if r \<le> 0
          then Inl (value_error (nm @ '' must be a positive finite number'')) else Inr v
      | _ \<Rightarrow> Inl (value_error (nm @ '' must be a positive finite number'')))"

record run_limits =
  max_turns :: int
  max_model_calls :: int
  max_subcalls :: int
  max_parallel_model_calls :: int
  max_depth :: int
  max_total_tokens :: "int option"
  deadline_seconds :: py
  execution_timeout_seconds :: py
  max_execution_output_chars :: int
  max_observation_chars :: int

definition default_limits :: dict where
  "default_limits =
     [(''max_turns'', PInt 12), (''max_model_calls'', PInt 64), (''max_subcalls'', PInt 48),
      (''max_parallel_model_calls'', PInt 8), (''max_depth'', PInt 0), (''max_total_tokens'', PNone),
      (''deadline_seconds'', PFloat (Fin 600)), (''execution_timeout_seconds'', PFloat (Fin 120)),
      (''max_execution_output_chars'', PInt 1000000), (''max_observation_chars'', PInt 6000)]"

text \<open>\<open>RunLimits(**d)\<close>: the keyword call, the defaults, then \<open>__post_init__\<close> in its order.\<close>

definition limit_arg :: "dict \<Rightarrow> string \<Rightarrow> py" where
  "limit_arg d k = (case dget d k of Some v \<Rightarrow> v | None \<Rightarrow> pget default_limits k)"

definition mk_run_limits :: "dict \<Rightarrow> exn + run_limits" where
  "mk_run_limits d =
     (case find (\<lambda>k. k \<notin> set (keys default_limits)) (keys d) of
        Some k \<Rightarrow> Inl (type_error (''RunLimits.__init__() got an unexpected keyword argument '' @ py_repr k))
      | None \<Rightarrow>
        ebind (positive_int (limit_arg d ''max_turns'') ''max_turns'' 1) (\<lambda>turns.
        ebind (positive_int (limit_arg d ''max_model_calls'') ''max_model_calls'' 1) (\<lambda>mcalls.
        ebind (positive_int (limit_arg d ''max_parallel_model_calls'') ''max_parallel_model_calls'' 1) (\<lambda>par.
        ebind (positive_int (limit_arg d ''max_execution_output_chars'') ''max_execution_output_chars'' 1) (\<lambda>out.
        ebind (positive_int (limit_arg d ''max_observation_chars'') ''max_observation_chars''
                 min_observation_chars) (\<lambda>obs.
        ebind (positive_int (limit_arg d ''max_subcalls'') ''max_subcalls'' 0) (\<lambda>sub.
        ebind (positive_int (limit_arg d ''max_depth'') ''max_depth'' 0) (\<lambda>dep.
        ebind (if limit_arg d ''max_total_tokens'' = PNone then Inr None
               else ebind (positive_int (limit_arg d ''max_total_tokens'') ''max_total_tokens'' 1)
                      (\<lambda>t. Inr (Some t))) (\<lambda>tokens.
        ebind (positive_number (limit_arg d ''deadline_seconds'') ''deadline_seconds'') (\<lambda>dl.
        ebind (positive_number (limit_arg d ''execution_timeout_seconds'') ''execution_timeout_seconds'') (\<lambda>xt.
          Inr \<lparr>max_turns = turns, max_model_calls = mcalls, max_subcalls = sub,
               max_parallel_model_calls = par, max_depth = dep, max_total_tokens = tokens,
               deadline_seconds = dl, execution_timeout_seconds = xt,
               max_execution_output_chars = out, max_observation_chars = obs\<rparr>)))))))))))"

definition limits_to_dict :: "run_limits \<Rightarrow> dict" where
  "limits_to_dict l =
     [(''max_turns'', PInt (max_turns l)), (''max_model_calls'', PInt (max_model_calls l)),
      (''max_subcalls'', PInt (max_subcalls l)),
      (''max_parallel_model_calls'', PInt (max_parallel_model_calls l)),
      (''max_depth'', PInt (max_depth l)),
      (''max_total_tokens'', case max_total_tokens l of None \<Rightarrow> PNone | Some t \<Rightarrow> PInt t),
      (''deadline_seconds'', deadline_seconds l),
      (''execution_timeout_seconds'', execution_timeout_seconds l),
      (''max_execution_output_chars'', PInt (max_execution_output_chars l)),
      (''max_observation_chars'', PInt (max_observation_chars l))]"

definition seconds_of :: "py \<Rightarrow> rat" where
  "seconds_of v = (case as_number v of Some (Fin r) \<Rightarrow> r | _ \<Rightarrow> 0)"

definition valid_limits :: "run_limits \<Rightarrow> bool" where
  "valid_limits l \<longleftrightarrow>
     1 \<le> max_turns l \<and> 1 \<le> max_model_calls l \<and> 1 \<le> max_parallel_model_calls l
     \<and> 1 \<le> max_execution_output_chars l \<and> min_observation_chars \<le> max_observation_chars l
     \<and> 0 \<le> max_subcalls l \<and> 0 \<le> max_depth l
     \<and> (case max_total_tokens l of None \<Rightarrow> True | Some t \<Rightarrow> 1 \<le> t)
     \<and> is_ok (positive_number (deadline_seconds l) [])
     \<and> is_ok (positive_number (execution_timeout_seconds l) [])"

section \<open>The controller's options\<close>

definition offending :: "string list \<Rightarrow> dict \<Rightarrow> string list" where
  "offending names options = sort (filter (\<lambda>n. n \<in> set (keys options)) names)"

definition validate_controller_options :: "py \<Rightarrow> exn + dict" where
  "validate_controller_options v =
     (case as_dict v of
        None \<Rightarrow> Inl (type_error ''controller options must be an object'')
      | Some d \<Rightarrow>
      case json_compatibility_error v of
        Some e \<Rightarrow> Inl (value_error (''controller options must be strict JSON: '' @ e))
      | None \<Rightarrow>
          if offending unsupported_controller_fields d \<noteq> []
          then Inl (value_error (''controller options contain unsupported fields: ''
                 @ join_str '', '' (offending unsupported_controller_fields d)))
          else if offending protocol_owned_fields d \<noteq> []
          then Inl (value_error (''controller options cannot replace protocol fields: ''
                 @ join_str '', '' (offending protocol_owned_fields d)))
          else Inr d)"

definition strict_json_object :: "dict \<Rightarrow> exn + dict" where
  "strict_json_object options =
     ebind (dumps spaced_sorted (PDict options)) (\<lambda>s.
     ebind (loads s) (\<lambda>v. case as_dict v of
         Some d \<Rightarrow> Inr d
       | None \<Rightarrow> Inl (type_error ''controller options must be an object'')))"

record controller_config =
  cc_model :: "string option"
  cc_options :: dict

definition mk_controller_config :: "py \<Rightarrow> py \<Rightarrow> exn + controller_config" where
  "mk_controller_config model options =
     ebind (case model of
              PNone \<Rightarrow> Inr None
            | PStr s \<Rightarrow> if strip s = []
                then Inl (value_error ''controller model must be a non-empty string or None'') else Inr (Some s)
            | _ \<Rightarrow> Inl (value_error ''controller model must be a non-empty string or None'')) (\<lambda>m.
     ebind (validate_controller_options options) (\<lambda>d.
     ebind (strict_json_object d) (\<lambda>owned.
       Inr \<lparr>cc_model = m, cc_options = owned\<rparr>)))"

section \<open>The whole configuration\<close>

text \<open>Paths are their text.\<close>

record trace_config =
  tc_enabled :: bool
  tc_directory :: string
  tc_markdown :: bool

record rlm_config =
  cfg_harness :: harness_spec
  cfg_limits :: run_limits
  cfg_controller :: controller_config
  cfg_working_directory :: "string option"
  cfg_tracing :: trace_config

definition config_value :: "rlm_config \<Rightarrow> exn + dict" where
  "config_value c =
     ebind (harness_to_dict (cfg_harness c)) (\<lambda>h.
       Inr [(''harness'', PDict h), (''limits'', PDict (limits_to_dict (cfg_limits c))),
            (''controller'', PDict [(''model'', opt_str (cc_model (cfg_controller c))),
               (''options'', PDict (cc_options (cfg_controller c)))]),
            (''execution'', PDict [(''working_directory'', opt_str (cfg_working_directory c))]),
            (''tracing'', PDict [(''enabled'', PBool (tc_enabled (cfg_tracing c))),
               (''directory'', PStr (tc_directory (cfg_tracing c))),
               (''markdown'', PBool (tc_markdown (cfg_tracing c)))])])"

definition config_to_dict :: "rlm_config \<Rightarrow> exn + dict" where
  "config_to_dict c =
     ebind (config_value c) (\<lambda>v.
     ebind (dumps spaced_sorted (PDict v)) (\<lambda>s.
     ebind (loads s) (\<lambda>d. case as_dict d of
         None \<Rightarrow> Inl (type_error ''runtime config must encode an object'')
       | Some o' \<Rightarrow> (case json_compatibility_error d of
           Some e \<Rightarrow> Inl (type_error (''runtime config must be strict JSON: '' @ e))
         | None \<Rightarrow> Inr o'))))"

text \<open>The keyword calls that rebuild a configuration from the sections of its dictionary.\<close>

definition unexpected_keyword :: "string \<Rightarrow> string list \<Rightarrow> dict \<Rightarrow> exn option" where
  "unexpected_keyword cls params d =
     map_option (\<lambda>k. type_error (cls @ ''.__init__() got an unexpected keyword argument '' @ py_repr k))
       (find (\<lambda>k. k \<notin> set params) (keys d))"

definition mk_execution_config :: "dict \<Rightarrow> exn + string option" where
  "mk_execution_config d =
     (case unexpected_keyword ''ExecutionConfig'' [''working_directory''] d of
        Some e \<Rightarrow> Inl e
      | None \<Rightarrow>
          (case pget d ''working_directory'' of
             PNone \<Rightarrow> Inr None
           | PStr s \<Rightarrow> Inr (Some s)
           | _ \<Rightarrow> Inl (type_error ''working_directory must be a string, Path, or None'')))"

definition arg_or :: "dict \<Rightarrow> string \<Rightarrow> py \<Rightarrow> py" where
  "arg_or d k v = (case dget d k of Some w \<Rightarrow> w | None \<Rightarrow> v)"

definition mk_trace_config :: "dict \<Rightarrow> exn + trace_config" where
  "mk_trace_config d =
     (case unexpected_keyword ''TraceConfig'' [''enabled'', ''directory'', ''markdown''] d of
        Some e \<Rightarrow> Inl e
      | None \<Rightarrow>
          (case (arg_or d ''enabled'' (PBool False), arg_or d ''markdown'' (PBool False)) of
             (PBool enabled, PBool markdown) \<Rightarrow>
               (case as_str (arg_or d ''directory'' (PStr ''runs'')) of
                  Some directory \<Rightarrow>
                    Inr \<lparr>tc_enabled = enabled, tc_directory = directory, tc_markdown = markdown\<rparr>
                | None \<Rightarrow> Inl (type_error ''trace directory must be a string or Path''))
           | _ \<Rightarrow> Inl (type_error ''trace enabled and markdown values must be bool'')))"

definition controller_config_of :: "dict \<Rightarrow> exn + controller_config" where
  "controller_config_of d =
     (case unexpected_keyword ''ControllerConfig'' [''model'', ''options''] d of
        Some e \<Rightarrow> Inl e
      | None \<Rightarrow> mk_controller_config (pget d ''model'') (arg_or d ''options'' (PDict [])))"

definition config_of_sections :: "harness_spec \<Rightarrow> dict \<Rightarrow> dict \<Rightarrow> dict \<Rightarrow> dict \<Rightarrow> exn + rlm_config" where
  "config_of_sections h limits controller execution tracing =
     ebind (mk_run_limits limits) (\<lambda>l.
     ebind (controller_config_of controller) (\<lambda>c.
     ebind (mk_execution_config execution) (\<lambda>x.
     ebind (mk_trace_config tracing) (\<lambda>t.
       Inr \<lparr>cfg_harness = h, cfg_limits = l, cfg_controller = c, cfg_working_directory = x, cfg_tracing = t\<rparr>))))"

text \<open>\<open>**value[k]\<close> of a section.\<close>

definition section_of :: "dict \<Rightarrow> string \<Rightarrow> exn + dict" where
  "section_of d k =
     ebind (item d k) (\<lambda>v. case as_dict v of
       Some s \<Rightarrow> Inr s
     | None \<Rightarrow> Inl (type_error (''argument after ** must be a mapping, not '' @ type_name v)))"

definition config_snapshot :: "rlm_config \<Rightarrow> exn + rlm_config" where
  "config_snapshot c =
     ebind (config_to_dict c) (\<lambda>value.
     ebind (section_of value ''harness'') (\<lambda>hd.
     ebind (harness_spec_from_dict hd) (\<lambda>h.
     ebind (section_of value ''limits'') (\<lambda>limits.
     ebind (section_of value ''controller'') (\<lambda>controller.
     ebind (section_of value ''execution'') (\<lambda>execution.
     ebind (section_of value ''tracing'') (\<lambda>tracing.
       config_of_sections h limits controller execution tracing)))))))"

section \<open>Lemmas\<close>

lemma positive_int_Inr [simp]: "positive_int v nm m = Inr i \<longleftrightarrow> v = PInt i \<and> m \<le> i"
  by (auto simp: positive_int_def split: option.split)

lemma positive_number_Inr:
  "positive_number v nm = Inr w \<longleftrightarrow> w = v \<and> as_number v = Some (Fin (seconds_of v)) \<and> 0 < seconds_of v"
  by (cases "as_number v") (auto simp: positive_number_def seconds_of_def split: fl.split)

lemma mk_run_limits_valid: "mk_run_limits d = Inr l \<Longrightarrow> valid_limits l"
  by (auto simp: mk_run_limits_def ebind_eq_Inr valid_limits_def is_ok_iff positive_number_Inr
           split: option.split_asm if_split_asm)

lemma limits_roundtrip:
  assumes "valid_limits l"
  shows "mk_run_limits (limits_to_dict l) = Inr l"
proof -
  have "find (\<lambda>k. k \<notin> set (keys default_limits)) (keys (limits_to_dict l)) = None"
    by (simp add: find_None_iff limits_to_dict_def default_limits_def)
  moreover have arg: "limit_arg (limits_to_dict l) k = pget (limits_to_dict l) k"
    if "k \<in> set (keys (limits_to_dict l))" for k
    using that by (auto simp: limit_arg_def pget_def split: option.split simp: map_of_eq_None_iff)
  have pos: "positive_number (deadline_seconds l) nm = Inr (deadline_seconds l)"
    "positive_number (execution_timeout_seconds l) nm = Inr (execution_timeout_seconds l)" for nm
    using assms by (auto simp: valid_limits_def is_ok_iff positive_number_Inr)
  have get: "limit_arg (limits_to_dict l) ''max_turns'' = PInt (max_turns l)"
    "limit_arg (limits_to_dict l) ''max_model_calls'' = PInt (max_model_calls l)"
    "limit_arg (limits_to_dict l) ''max_subcalls'' = PInt (max_subcalls l)"
    "limit_arg (limits_to_dict l) ''max_parallel_model_calls'' = PInt (max_parallel_model_calls l)"
    "limit_arg (limits_to_dict l) ''max_depth'' = PInt (max_depth l)"
    "limit_arg (limits_to_dict l) ''max_total_tokens'' = (case max_total_tokens l of None \<Rightarrow> PNone | Some t \<Rightarrow> PInt t)"
    "limit_arg (limits_to_dict l) ''deadline_seconds'' = deadline_seconds l"
    "limit_arg (limits_to_dict l) ''execution_timeout_seconds'' = execution_timeout_seconds l"
    "limit_arg (limits_to_dict l) ''max_execution_output_chars'' = PInt (max_execution_output_chars l)"
    "limit_arg (limits_to_dict l) ''max_observation_chars'' = PInt (max_observation_chars l)"
    by (simp_all add: limit_arg_def limits_to_dict_def)
  have pint: "m \<le> i \<Longrightarrow> positive_int (PInt i) nm m = Inr i" for i nm m by simp
  ultimately show ?thesis
    using assms unfolding mk_run_limits_def
    by (cases "max_total_tokens l") (simp_all add: get pos pint valid_limits_def)
qed

lemma offending_Nil: "offending names d = [] \<longleftrightarrow> (\<forall>n\<in>set names. n \<notin> set (keys d))"
proof -
  have "sort xs = [] \<longleftrightarrow> xs = []" for xs :: "string list"
    by (metis length_0_conv length_sort)
  then show ?thesis by (simp add: offending_def filter_empty_conv)
qed

lemma validate_options_Inr:
  "validate_controller_options v = Inr d \<longleftrightarrow> v = PDict d \<and> json_data v
     \<and> (\<forall>n\<in>set unsupported_controller_fields \<union> set protocol_owned_fields. n \<notin> set (keys d))"
  by (auto simp: validate_controller_options_def offending_Nil dest: json_compatibility_error_Some
           split: option.split)

section \<open>Properties\<close>

text \<open>The limits a run starts with are exactly the valid ones: \<open>RunLimits\<close> accepts a dictionary only
  with values in their ranges, and reads back the limits that \<open>to_dict\<close> wrote.\<close>

theorem run_limits_exact:
  "(mk_run_limits d = Inr l \<longrightarrow> valid_limits l)
   \<and> (valid_limits l \<longrightarrow> mk_run_limits (limits_to_dict l) = Inr l)"
  using mk_run_limits_valid limits_roundtrip by blast

lemma run_limits_exact_witness:
  "\<exists>l. mk_run_limits [(''max_depth'', PInt 2)] = Inr l \<and> max_depth l = 2 \<and> valid_limits l
     \<and> mk_run_limits (limits_to_dict l) = Inr l"
proof -
  have "\<exists>l. mk_run_limits [(''max_depth'', PInt 2)] = Inr l \<and> max_depth l = 2"
    by (simp add: mk_run_limits_def limit_arg_def default_limits_def positive_int_def positive_number_def
          min_observation_chars_def)
  then show ?thesis using run_limits_exact by blast
qed



section \<open>Snapshots\<close>

text \<open>The configurations the constructors build, over JSON that keeps its floats.\<close>

definition valid_config :: "rlm_config \<Rightarrow> bool" where
  "valid_config c \<longleftrightarrow>
     valid_harness (cfg_harness c) \<and> valid_limits (cfg_limits c)
     \<and> (case cc_model (cfg_controller c) of None \<Rightarrow> True | Some m \<Rightarrow> not_blank m)
     \<and> is_ok (validate_controller_options (PDict (cc_options (cfg_controller c))))
     \<and> json_text_value (PDict (cc_options (cfg_controller c)))
     \<and> sorted_keys (PDict (cc_options (cfg_controller c))) = PDict (cc_options (cfg_controller c))
     \<and> json_text_value (deadline_seconds (cfg_limits c)) \<and> json_text_value (execution_timeout_seconds (cfg_limits c))"

lemma insort_key_map_snd:
  "insort_key fst (fst p, f (snd p)) (map (\<lambda>p. (fst p, f (snd p))) xs) = map (\<lambda>p. (fst p, f (snd p))) (insort_key fst p xs)"
  by (induction xs) auto

lemma sort_key_map_snd:
  "sort_key fst (map (\<lambda>p. (fst p, f (snd p))) d) = map (\<lambda>p. (fst p, f (snd p))) (sort_key fst d)"
  by (induction d) (simp_all add: insort_key_map_snd)

lemma sorted_keys_idem [simp]: "sorted_keys (sorted_keys v) = sorted_keys v"
proof (induction v)
  case (PDict d)
  let ?ss = "\<lambda>v. sorted_keys (sorted_keys v)"
  have "sorted_keys (sorted_keys (PDict d)) = PDict (sort_key fst (map (\<lambda>p. (fst p, ?ss (snd p))) (sort_key fst d)))"
    by (simp add: sort_key_map_snd [of sorted_keys] comp_def)
  also have "\<dots> = PDict (map (\<lambda>p. (fst p, ?ss (snd p))) (sort_key fst d))"
    by (simp add: sort_key_map_snd [of ?ss] sort_key_id_if_sorted)
  also have "\<dots> = PDict (map (\<lambda>p. (fst p, sorted_keys (snd p))) (sort_key fst d))"
    using PDict.IH by (fastforce simp: snds.simps)
  also have "\<dots> = sorted_keys (PDict d)" by (simp add: sort_key_map_snd [of sorted_keys])
  finally show ?case .
qed simp_all

text \<open>Reading a dictionary that was sorted on the way.\<close>

definition sorted_dict :: "dict \<Rightarrow> dict" where
  "sorted_dict d = sort_key fst (map (\<lambda>p. (fst p, sorted_keys (snd p))) d)"

lemma sorted_keys_PDict: "sorted_keys (PDict d) = PDict (sorted_dict d)"
  by (simp add: sorted_dict_def)

lemma dget_map_snd: "dget (map (\<lambda>p. (fst p, f (snd p))) d) k = map_option f (dget d k)"
  by (induction d) auto

lemma dget_sorted_dict: "distinct (keys d) \<Longrightarrow> dget (sorted_dict d) k = map_option sorted_keys (dget d k)"
  unfolding sorted_dict_def by (subst dget_sort_key) (simp_all add: comp_def dget_map_snd)

lemma keys_sorted_dict: "set (keys (sorted_dict d)) = set (keys d)"
  by (simp add: sorted_dict_def image_image)

lemma find_keys_sorted: "find (\<lambda>k. k \<notin> S) (keys (sorted_dict d)) = None \<longleftrightarrow> set (keys d) \<subseteq> S"
  using keys_sorted_dict [of d] by (auto simp: find_None_iff simp del: set_map)

lemma limits_sorted:
  assumes "valid_limits l"
  shows "mk_run_limits (sorted_dict (limits_to_dict l)) = Inr l"
proof -
  let ?d = "limits_to_dict l"
  have dist: "distinct (keys ?d)" by (simp add: limits_to_dict_def)
  have num: "sorted_keys v = v" if "as_number v \<noteq> None" for v using that by (cases v) simp_all
  have "as_number (deadline_seconds l) \<noteq> None" "as_number (execution_timeout_seconds l) \<noteq> None"
    using assms by (auto simp: valid_limits_def is_ok_iff positive_number_Inr)
  then have "map_option sorted_keys (dget ?d k) = dget ?d k" for k
    by (simp add: limits_to_dict_def num split: option.split)
  then have "limit_arg (sorted_dict ?d) k = limit_arg ?d k" for k
    by (simp add: limit_arg_def dget_sorted_dict [OF dist])
  moreover have "find (\<lambda>k. k \<notin> set (keys default_limits)) (keys (sorted_dict ?d)) = None"
    "find (\<lambda>k. k \<notin> set (keys default_limits)) (keys ?d) = None"
    unfolding find_keys_sorted by (simp_all add: limits_to_dict_def default_limits_def)
  ultimately have "mk_run_limits (sorted_dict ?d) = mk_run_limits ?d"
    by (simp add: mk_run_limits_def)
  with limits_roundtrip [OF assms] show ?thesis by simp
qed

lemma config_sections:
  assumes "valid_config c"
  obtains V where "config_value c = Inr V" "json_text_value (PDict V)" "distinct (keys V)"
    "dget V ''harness'' = Some (PDict (sorted_snapshot (cfg_harness c)))"
    "dget V ''limits'' = Some (PDict (limits_to_dict (cfg_limits c)))"
    "dget V ''controller'' = Some (PDict [(''model'', opt_str (cc_model (cfg_controller c))),
               (''options'', PDict (cc_options (cfg_controller c)))])"
    "dget V ''execution'' = Some (PDict [(''working_directory'', opt_str (cfg_working_directory c))])"
    "dget V ''tracing'' = Some (PDict [(''enabled'', PBool (tc_enabled (cfg_tracing c))),
               (''directory'', PStr (tc_directory (cfg_tracing c))),
               (''markdown'', PBool (tc_markdown (cfg_tracing c)))])"
proof -
  have h: "json_text_value (PDict (sorted_snapshot (cfg_harness c)))"
    using sorted_keys_text_value [OF snapshot_text_value [of "cfg_harness c"]] by (simp only: sorted_keys_snapshot)
  have l: "json_text_value (PDict (limits_to_dict (cfg_limits c)))"
    using assms by (auto simp: limits_to_dict_def valid_config_def split: option.split)
  have o1: "json_text_value (opt_str x)" for x by (cases x) (simp_all add: opt_str_def)
  have o2: "json_text_value (PDict (cc_options (cfg_controller c)))" using assms by (simp add: valid_config_def)
  show ?thesis
    by (rule that [of "the (case config_value c of Inr V \<Rightarrow> Some V | _ \<Rightarrow> None)"])
       (use h l o1 o2 in \<open>simp_all add: config_value_def harness_to_dict_sorted\<close>)
qed

lemma config_roundtrip:
  assumes "valid_config c"
  obtains D where "config_to_dict c = Inr D" "json_text_value (PDict D)"
    "set (keys D) = {''harness'', ''limits'', ''controller'', ''execution'', ''tracing''}"
    "section_of D ''harness'' = Inr (sorted_snapshot (cfg_harness c))"
    "\<exists>l ct x t. section_of D ''limits'' = Inr l \<and> section_of D ''controller'' = Inr ct
       \<and> section_of D ''execution'' = Inr x \<and> section_of D ''tracing'' = Inr t
       \<and> config_of_sections (cfg_harness c) l ct x t = Inr c
       \<and> set (keys l) = set (keys (limits_to_dict (cfg_limits c))) \<and> set (keys ct) = {''model'', ''options''}
       \<and> set (keys x) = {''working_directory''} \<and> set (keys t) = {''enabled'', ''directory'', ''markdown''}"
proof -
  from assms obtain V where V: "config_value c = Inr V" "json_text_value (PDict V)" and dist: "distinct (keys V)"
    and get: "dget V ''harness'' = Some (PDict (sorted_snapshot (cfg_harness c)))"
    "dget V ''limits'' = Some (PDict (limits_to_dict (cfg_limits c)))"
    "dget V ''controller'' = Some (PDict [(''model'', opt_str (cc_model (cfg_controller c))),
               (''options'', PDict (cc_options (cfg_controller c)))])"
    "dget V ''execution'' = Some (PDict [(''working_directory'', opt_str (cfg_working_directory c))])"
    "dget V ''tracing'' = Some (PDict [(''enabled'', PBool (tc_enabled (cfg_tracing c))),
               (''directory'', PStr (tc_directory (cfg_tracing c))),
               (''markdown'', PBool (tc_markdown (cfg_tracing c)))])"
    by (rule config_sections)
  have ld: "ebind (dumps spaced_sorted (PDict V)) loads = Inr (PDict (sorted_dict V))"
    using loads_dumps [OF style_ok_styles(4) V(2)] by (simp add: spaced_sorted_def sorted_keys_PDict del: sorted_keys.simps)
  have jd: "json_data (PDict (sorted_dict V))"
    using sorted_keys_text_value [OF V(2)]
    by (simp add: sorted_keys_PDict json_text_value_def wf_json_def del: sorted_keys.simps json_data.simps)
  have to_dict: "config_to_dict c = Inr (sorted_dict V)"
    using ld jd by (auto simp: config_to_dict_def V(1) ebind_eq_Inr)
  have sec: "section_of (sorted_dict V) k = Inr (sorted_dict d)" if "dget V k = Some (PDict d)" for k d
    using that by (simp add: section_of_def item_def dget_sorted_dict [OF dist] sorted_keys_PDict del: sorted_keys.simps)
  have hs: "sorted_dict (sorted_snapshot (cfg_harness c)) = sorted_snapshot (cfg_harness c)"
    using sorted_keys_idem [of "PDict (harness_snapshot (cfg_harness c))"]
    unfolding sorted_keys_snapshot by (simp only: sorted_keys_PDict py.inject)
  have valid: "valid_harness (cfg_harness c)" "valid_limits (cfg_limits c)" using assms by (simp_all add: valid_config_def)
  have opts: "sorted_keys (PDict (cc_options (cfg_controller c))) = PDict (cc_options (cfg_controller c))"
    "is_ok (validate_controller_options (PDict (cc_options (cfg_controller c))))"
    "json_text_value (PDict (cc_options (cfg_controller c)))"
    using assms by (simp_all add: valid_config_def)
  then have strict: "strict_json_object (cc_options (cfg_controller c)) = Inr (cc_options (cfg_controller c))"
    using loads_dumps [OF style_ok_styles(4), of "PDict (cc_options (cfg_controller c))"]
    by (auto simp: strict_json_object_def spaced_sorted_def ebind_eq_Inr)
  have "validate_controller_options (PDict (cc_options (cfg_controller c))) = Inr (cc_options (cfg_controller c))"
    using opts(2) by (auto simp only: is_ok_iff validate_options_Inr py.inject)
  moreover have "case cc_model (cfg_controller c) of None \<Rightarrow> True | Some m \<Rightarrow> strip m \<noteq> []"
    using assms by (auto simp: valid_config_def not_blank_def split: option.split)
  ultimately have "mk_controller_config (opt_str (cc_model (cfg_controller c))) (PDict (cc_options (cfg_controller c)))
      = Inr (cfg_controller c)"
    using strict
    by (cases "cc_model (cfg_controller c)") (simp_all add: mk_controller_config_def opt_str_def)
  moreover have "sorted_keys (opt_str x) = opt_str x" for x by (cases x) (simp_all add: opt_str_def)
  ultimately have ctl: "controller_config_of (sorted_dict [(''model'', opt_str (cc_model (cfg_controller c))),
               (''options'', PDict (cc_options (cfg_controller c)))]) = Inr (cfg_controller c)"
    using opts(1) by (simp add: controller_config_of_def unexpected_keyword_def sorted_dict_def pget_def arg_or_def
        del: sorted_keys.simps)
  have ex: "mk_execution_config (sorted_dict [(''working_directory'', opt_str (cfg_working_directory c))])
      = Inr (cfg_working_directory c)"
    by (cases "cfg_working_directory c")
       (simp_all add: mk_execution_config_def unexpected_keyword_def sorted_dict_def pget_def opt_str_def)
  have tr: "mk_trace_config (sorted_dict [(''enabled'', PBool (tc_enabled (cfg_tracing c))),
               (''directory'', PStr (tc_directory (cfg_tracing c))),
               (''markdown'', PBool (tc_markdown (cfg_tracing c)))]) = Inr (cfg_tracing c)"
    by (simp add: mk_trace_config_def unexpected_keyword_def sorted_dict_def arg_or_def)
  have sets: "set (keys V) = {''harness'', ''limits'', ''controller'', ''execution'', ''tracing''}"
    using V(1) by (auto simp: config_value_def ebind_eq_Inr)
  let ?l = "limits_to_dict (cfg_limits c)"
  let ?ct = "[(''model'', opt_str (cc_model (cfg_controller c))), (''options'', PDict (cc_options (cfg_controller c)))]"
  let ?x = "[(''working_directory'', opt_str (cfg_working_directory c))]"
  let ?t = "[(''enabled'', PBool (tc_enabled (cfg_tracing c))), (''directory'', PStr (tc_directory (cfg_tracing c))),
        (''markdown'', PBool (tc_markdown (cfg_tracing c)))]"
  have made: "config_of_sections (cfg_harness c) (sorted_dict ?l) (sorted_dict ?ct) (sorted_dict ?x) (sorted_dict ?t) = Inr c"
    using limits_sorted [OF valid(2)] ctl ex tr by (simp add: config_of_sections_def)
  have key_sets: "set (keys (sorted_dict ?l)) = set (keys ?l)" "set (keys (sorted_dict ?ct)) = {''model'', ''options''}"
    "set (keys (sorted_dict ?x)) = {''working_directory''}" "set (keys (sorted_dict ?t)) = {''enabled'', ''directory'', ''markdown''}"
    unfolding keys_sorted_dict by simp_all
  have text_value: "json_text_value (PDict (sorted_dict V))"
    using sorted_keys_text_value [OF V(2)] by (simp only: sorted_keys_PDict)
  have vkeys: "set (keys (sorted_dict V)) = {''harness'', ''limits'', ''controller'', ''execution'', ''tracing''}"
    unfolding keys_sorted_dict by (rule sets)
  have harness: "section_of (sorted_dict V) ''harness'' = Inr (sorted_snapshot (cfg_harness c))"
    using sec [OF get(1)] unfolding hs .
  show ?thesis
    by (rule that [OF to_dict text_value vkeys harness])
       (intro exI conjI, rule sec [OF get(2)], rule sec [OF get(3)], rule sec [OF get(4)], rule sec [OF get(5)],
        rule made, (rule key_sets)+)
qed

lemma config_snapshot_valid:
  assumes "valid_config c"
  shows "config_snapshot c = Inr c"
proof -
  have "valid_harness (cfg_harness c)" using assms by (simp add: valid_config_def)
  then have "harness_spec_from_dict (sorted_snapshot (cfg_harness c)) = Inr (cfg_harness c)"
    by (rule harness_from_sorted)
  moreover obtain D l ct x t where "config_to_dict c = Inr D" "section_of D ''harness'' = Inr (sorted_snapshot (cfg_harness c))"
    "section_of D ''limits'' = Inr l" "section_of D ''controller'' = Inr ct" "section_of D ''execution'' = Inr x"
    "section_of D ''tracing'' = Inr t" "config_of_sections (cfg_harness c) l ct x t = Inr c"
    by (rule config_roundtrip [OF assms]) (elim exE conjE, rule that, assumption+)
  ultimately show ?thesis by (simp add: config_snapshot_def)
qed

text \<open>C25: a snapshot of a valid configuration is the configuration itself: what \<open>to_dict\<close> encodes is read back
  section by section, through the same constructors, without loss.\<close>

theorem config_snapshot_exact:
  assumes "valid_config c"
  shows "config_snapshot c = Inr c"
  using assms by (rule config_snapshot_valid)

definition sample_config :: rlm_config where
  "sample_config =
     \<lparr>cfg_harness = sample_harness,
      cfg_limits = \<lparr>max_turns = 12, max_model_calls = 64, max_subcalls = 48, max_parallel_model_calls = 8,
        max_depth = 1, max_total_tokens = Some 1000, deadline_seconds = PInt 600,
        execution_timeout_seconds = PInt 120, max_execution_output_chars = 1000000,
        max_observation_chars = 6000\<rparr>,
      cfg_controller = \<lparr>cc_model = Some ''m'', cc_options = [(''top_k'', PInt 4), (''top_p'', PInt 1)]\<rparr>,
      cfg_working_directory = None,
      cfg_tracing = \<lparr>tc_enabled = True, tc_directory = ''runs'', tc_markdown = False\<rparr>\<rparr>"

lemma sample_config_valid: "valid_config sample_config"
proof -
  show ?thesis
    using sample_harness_valid
    by (simp add: valid_config_def sample_config_def valid_limits_def min_observation_chars_def positive_number_def
        not_blank_def strip_def lstrip_def rstrip_def is_space_def is_ok_iff validate_options_Inr
        unsupported_controller_fields_def protocol_owned_fields_def)
qed

lemma config_snapshot_exact_witness: "config_snapshot sample_config = Inr sample_config"
  by (rule config_snapshot_exact [OF sample_config_valid])

end
