(* ===== verification/Ledger.thy ===== *)
theory Ledger
  imports Config
begin

text \<open>
  \<open>rlm/ledger.py\<close>: the budgets, the deadline and the usage shared by a run and all of its branches.
  Every operation is one atomic action on the ledger record (the code holds its lock for it); the
  clock reading it makes is an argument.  An operation returns the new ledger together with its
  result, because one of them (\<open>record_response\<close>) raises after it has changed the totals.  The
  concurrency of \<open>model_slot\<close> is a step relation over the atomic actions of many threads.
\<close>

section \<open>State and operations\<close>

record ledger =
  lg_limits :: run_limits
  lg_started_at :: rat
  lg_deadline_at :: rat
  lg_slots :: int
  lg_model_calls :: int
  lg_subcalls :: int
  lg_active :: int
  lg_peak :: int
  lg_input :: int
  lg_output :: int
  lg_unreported :: int

definition new_ledger :: "run_limits \<Rightarrow> rat \<Rightarrow> ledger" where
  "new_ledger limits now =
     \<lparr>lg_limits = limits, lg_started_at = now,
      lg_deadline_at = now + seconds_of (deadline_seconds limits),
      lg_slots = max_parallel_model_calls limits, lg_model_calls = 0, lg_subcalls = 0,
      lg_active = 0, lg_peak = 0, lg_input = 0, lg_output = 0, lg_unreported = 0\<rparr>"

definition deadline_error :: "ledger \<Rightarrow> rat \<Rightarrow> exn" where
  "deadline_error lg now =
     LimitExceeded (''run deadline exceeded after '' @ fmt_fixed 3 (max 0 (now - lg_started_at lg))
       @ '' seconds (limit '' @ fmt_fixed 3 (seconds_of (deadline_seconds (lg_limits lg))) @ '' seconds)'')
       ''deadline_exceeded''"

text \<open>\<open>check\<close> and \<open>_check_deadline_locked\<close>\<close>

definition check :: "ledger \<Rightarrow> rat \<Rightarrow> exn + unit" where
  "check lg now = (if lg_deadline_at lg \<le> now then Inl (deadline_error lg now) else Inr ())"

definition reserve_model_call :: "rat \<Rightarrow> ledger \<Rightarrow> ledger \<times> (exn + int)" where
  "reserve_model_call now lg =
     (case check lg now of
        Inl e \<Rightarrow> (lg, Inl e)
      | Inr _ \<Rightarrow>
          if max_model_calls (lg_limits lg) \<le> lg_model_calls lg
          then (lg, Inl (LimitExceeded (''model call limit reached (''
                  @ show_int (max_model_calls (lg_limits lg)) @ '')'') ''model_call_limit''))
          else (lg\<lparr>lg_model_calls := lg_model_calls lg + 1\<rparr>, Inr (lg_model_calls lg + 1)))"

definition reserve_subcalls :: "rat \<Rightarrow> int \<Rightarrow> ledger \<Rightarrow> ledger \<times> (exn + int)" where
  "reserve_subcalls now n lg =
     (if n < 0 then (lg, Inl (value_error ''subcall count must be a non-negative integer''))
      else case check lg now of
        Inl e \<Rightarrow> (lg, Inl e)
      | Inr _ \<Rightarrow>
          let requested_total = lg_subcalls lg + n
          in if max_subcalls (lg_limits lg) < requested_total
             then (lg, Inl (LimitExceeded (''subcall limit would be exceeded: requested '' @ show_int n
                    @ '', used '' @ show_int (lg_subcalls lg) @ '', limit ''
                    @ show_int (max_subcalls (lg_limits lg))) ''subcall_limit''))
             else (lg\<lparr>lg_subcalls := requested_total\<rparr>, Inr requested_total))"

text \<open>The atomic actions of \<open>model_slot\<close>: taking the semaphore, entering, leaving, releasing it.\<close>

definition take_slot :: "ledger \<Rightarrow> ledger option" where
  "take_slot lg = (if 0 < lg_slots lg then Some (lg\<lparr>lg_slots := lg_slots lg - 1\<rparr>) else None)"

definition enter_slot :: "rat \<Rightarrow> ledger \<Rightarrow> ledger \<times> (exn + unit)" where
  "enter_slot now lg =
     (case check lg now of
        Inl e \<Rightarrow> (lg, Inl e)
      | Inr _ \<Rightarrow> (lg\<lparr>lg_active := lg_active lg + 1, lg_peak := max (lg_peak lg) (lg_active lg + 1)\<rparr>, Inr ()))"

definition leave_slot :: "ledger \<Rightarrow> ledger" where
  "leave_slot lg = lg\<lparr>lg_active := lg_active lg - 1\<rparr>"

definition release_slot :: "ledger \<Rightarrow> ledger" where
  "release_slot lg = lg\<lparr>lg_slots := lg_slots lg + 1\<rparr>"

text \<open>\<open>with model_slot(): body\<close> on one thread: the three clock readings and the body's effect.\<close>

definition with_model_slot ::
  "rat \<Rightarrow> rat \<Rightarrow> rat \<Rightarrow> (ledger \<Rightarrow> ledger \<times> (exn + 'a)) \<Rightarrow> ledger \<Rightarrow> ledger \<times> (exn + 'a)" where
  "with_model_slot t1 t2 t3 body lg =
     (case check lg t1 of
        Inl e \<Rightarrow> (lg, Inl e)
      | Inr _ \<Rightarrow>
      case take_slot lg of
        None \<Rightarrow> (lg, Inl (deadline_error lg t2))
      | Some lg1 \<Rightarrow>
      case enter_slot t3 lg1 of
        (lg2, Inl e) \<Rightarrow> (release_slot lg2, Inl e)
      | (lg2, Inr _) \<Rightarrow>
          let (lg3, r) = body lg2 in (release_slot (leave_slot lg3), r))"

section \<open>Usage\<close>

definition token_count :: "py \<Rightarrow> string \<Rightarrow> exn + int" where
  "token_count v nm =
     (case as_int v of
        Some i \<Rightarrow> if i < 0
          then Inl (BackendProtocol (''backend response usage '' @ nm @ '' must be a non-negative integer''))
          else Inr i
      | None \<Rightarrow>
          Inl (BackendProtocol (''backend response usage '' @ nm @ '' must be a non-negative integer'')))"

definition usage_from_response :: "dict \<Rightarrow> exn + token_usage" where
  "usage_from_response response =
     (case pget response ''usage'' of
        PNone \<Rightarrow> Inr \<lparr>input_tokens = 0, output_tokens = 0, calls = 1, unreported_calls = 1\<rparr>
      | PDict raw \<Rightarrow>
          ebind (token_count (pget raw ''input_tokens'') ''input_tokens'') (\<lambda>i.
          ebind (token_count (pget raw ''output_tokens'') ''output_tokens'') (\<lambda>out.
          ebind (token_count (pget raw ''total_tokens'') ''total_tokens'') (\<lambda>t.
            if t \<noteq> i + out
            then Inl (BackendProtocol
               ''backend response usage total_tokens must equal input_tokens + output_tokens'')
            else Inr \<lparr>input_tokens = i, output_tokens = out, calls = 1, unreported_calls = 0\<rparr>)))
      | _ \<Rightarrow> Inl (BackendProtocol ''backend response usage must be an object or null''))"

definition record_response :: "dict \<Rightarrow> ledger \<Rightarrow> ledger \<times> (exn + token_usage)" where
  "record_response response lg =
     (case usage_from_response response of
        Inl e \<Rightarrow> (lg, Inl e)
      | Inr u \<Rightarrow>
          if max_total_tokens (lg_limits lg) \<noteq> None \<and> unreported_calls u \<noteq> 0
          then (lg, Inl (BackendProtocol ''token budget requires usage from every backend response''))
          else let lg' = lg\<lparr>lg_input := lg_input lg + input_tokens u,
                            lg_output := lg_output lg + output_tokens u,
                            lg_unreported := lg_unreported lg + unreported_calls u\<rparr>
               in (lg', case max_total_tokens (lg_limits lg) of
                     Some cap \<Rightarrow> if cap < lg_input lg' + lg_output lg'
                       then Inl (LimitExceeded (''token limit exceeded (''
                              @ show_int (lg_input lg' + lg_output lg') @ ''/'' @ show_int cap @ '')'')
                              ''token_limit'')
                       else Inr u
                   | None \<Rightarrow> Inr u))"

definition snapshot :: "ledger \<Rightarrow> token_usage" where
  "snapshot lg = \<lparr>input_tokens = lg_input lg, output_tokens = lg_output lg,
                  calls = lg_model_calls lg, unreported_calls = lg_unreported lg\<rparr>"

definition remaining_seconds :: "ledger \<Rightarrow> rat \<Rightarrow> rat" where
  "remaining_seconds lg now = max 0 (lg_deadline_at lg - now)"

definition timeout :: "ledger \<Rightarrow> rat option \<Rightarrow> rat \<Rightarrow> exn + rat" where
  "timeout lg cap now =
     (if (case cap of Some c \<Rightarrow> c \<le> 0 | None \<Rightarrow> False)
      then Inl (value_error ''timeout cap must be positive'')
      else let remaining = lg_deadline_at lg - now
           in if remaining \<le> 0 then Inl (deadline_error lg now)
              else Inr (case cap of None \<Rightarrow> remaining | Some c \<Rightarrow> min remaining c))"

definition stats :: "ledger \<Rightarrow> rat \<Rightarrow> dict" where
  "stats lg now =
     [(''model_calls'', PInt (lg_model_calls lg)), (''subcalls'', PInt (lg_subcalls lg)),
      (''active_model_calls'', PInt (lg_active lg)),
      (''peak_parallel_model_calls'', PInt (lg_peak lg)),
      (''max_model_calls'', PInt (max_model_calls (lg_limits lg))),
      (''max_subcalls'', PInt (max_subcalls (lg_limits lg))),
      (''max_parallel_model_calls'', PInt (max_parallel_model_calls (lg_limits lg))),
      (''max_total_tokens'', case max_total_tokens (lg_limits lg) of None \<Rightarrow> PNone | Some t \<Rightarrow> PInt t),
      (''started_at'', PFloat (Fin (lg_started_at lg))), (''deadline_at'', PFloat (Fin (lg_deadline_at lg))),
      (''deadline_seconds'', deadline_seconds (lg_limits lg)),
      (''elapsed_seconds'', PFloat (Fin (max 0 (now - lg_started_at lg)))),
      (''remaining_seconds'', PFloat (Fin (remaining_seconds lg now))),
      (''usage'', PDict (usage_to_dict (snapshot lg)))]"

section \<open>Budgets\<close>

text \<open>
  What a client of a budget relies on: an accepted reservation adds exactly its amount and stays
  within the cap, a refused one changes nothing.
\<close>

locale budget =
  fixes reserve :: "int \<Rightarrow> 's \<Rightarrow> 's \<times> (exn + int)"
    and used :: "'s \<Rightarrow> int"
    and cap :: "'s \<Rightarrow> int"
    and amount :: "int \<Rightarrow> bool"
  assumes accepted: "amount n \<Longrightarrow> reserve n s = (t, Inr m) \<Longrightarrow>
      used t = used s + n \<and> m = used t \<and> used t \<le> cap t \<and> cap t = cap s \<and> 0 \<le> n"
    and refused: "amount n \<Longrightarrow> reserve n s = (t, Inl e) \<Longrightarrow> t = s"
begin

primrec reserve_all :: "int list \<Rightarrow> 's \<Rightarrow> 's \<times> int" where
  "reserve_all [] s = (s, 0)"
| "reserve_all (n # ns) s =
     (case reserve n s of
        (t, Inl e) \<Rightarrow> reserve_all ns t
      | (t, Inr m) \<Rightarrow> let (u, total) = reserve_all ns t in (u, n + total))"

lemma reserve_all_exact:
  "\<forall>n\<in>set ns. amount n \<Longrightarrow> reserve_all ns s = (t, added) \<Longrightarrow>
   used t = used s + added \<and> cap t = cap s \<and> 0 \<le> added \<and> (used s \<le> cap s \<longrightarrow> used t \<le> cap t)"
proof (induction ns arbitrary: s t added)
  case Nil
  then show ?case by simp
next
  case (Cons n ns)
  show ?case
  proof (cases "reserve n s")
    case (Pair u r)
    show ?thesis
    proof (cases r)
      case (Inl e)
      then have "u = s" using Cons.prems Pair refused [of n s u e] by simp
      moreover have "reserve_all ns u = (t, added)" using Cons.prems Pair Inl by simp
      ultimately show ?thesis using Cons.IH [of s t added] Cons.prems(1) by auto
    next
      case (Inr m)
      obtain v k where v: "reserve_all ns u = (v, k)" by (cases "reserve_all ns u")
      have "used u = used s + n \<and> used u \<le> cap u \<and> cap u = cap s \<and> 0 \<le> n"
        using accepted [of n s u m] Cons.prems Pair Inr by simp
      moreover have "used v = used u + k \<and> cap v = cap u \<and> 0 \<le> k \<and> (used u \<le> cap u \<longrightarrow> used v \<le> cap v)"
        using Cons.IH [OF _ v] Cons.prems(1) by auto
      moreover have "t = v" "added = n + k" using Cons.prems Pair Inr v by simp_all
      ultimately show ?thesis by simp
    qed
  qed
qed

end

lemma check_cases: "check lg now = Inr () \<and> now < lg_deadline_at lg \<or> check lg now = Inl (deadline_error lg now)"
  by (simp add: check_def)

interpretation subcalls: budget "reserve_subcalls now" lg_subcalls "\<lambda>lg. max_subcalls (lg_limits lg)" "\<lambda>n. True"
  for now
  by unfold_locales (auto simp: reserve_subcalls_def Let_def split: sum.split_asm if_split_asm)

interpretation model_calls: budget "\<lambda>_. reserve_model_call now" lg_model_calls
  "\<lambda>lg. max_model_calls (lg_limits lg)" "\<lambda>n. n = 1" for now
  by unfold_locales (auto simp: reserve_model_call_def split: sum.split_asm if_split_asm)

section \<open>Many threads\<close>

text \<open>
  Where a thread is in \<open>model_slot\<close>: outside, waiting on the semaphore, holding it but not yet
  counted, counted as active, uncounted but still holding.
\<close>

datatype phase = Outside | Waiting | Holding | Active | Leaving

record slot_system =
  sys_ledger :: ledger
  sys_threads :: "phase list"

definition holders :: "phase list \<Rightarrow> int" where
  "holders ps = int (length (filter (\<lambda>p. p = Holding \<or> p = Active \<or> p = Leaving) ps))"

definition actives :: "phase list \<Rightarrow> int" where
  "actives ps = int (length (filter (\<lambda>p. p = Active) ps))"

inductive slot_step :: "slot_system \<Rightarrow> slot_system \<Rightarrow> bool" where
  wait: "i < length ps \<Longrightarrow> ps ! i = Outside \<Longrightarrow> check lg now = Inr () \<Longrightarrow>
    slot_step \<lparr>sys_ledger = lg, sys_threads = ps\<rparr> \<lparr>sys_ledger = lg, sys_threads = ps[i := Waiting]\<rparr>"
| take: "i < length ps \<Longrightarrow> ps ! i = Waiting \<Longrightarrow> take_slot lg = Some lg' \<Longrightarrow>
    slot_step \<lparr>sys_ledger = lg, sys_threads = ps\<rparr> \<lparr>sys_ledger = lg', sys_threads = ps[i := Holding]\<rparr>"
| give_up: "i < length ps \<Longrightarrow> ps ! i = Waiting \<Longrightarrow> take_slot lg = None \<Longrightarrow>
    slot_step \<lparr>sys_ledger = lg, sys_threads = ps\<rparr> \<lparr>sys_ledger = lg, sys_threads = ps[i := Outside]\<rparr>"
| enter: "i < length ps \<Longrightarrow> ps ! i = Holding \<Longrightarrow> enter_slot now lg = (lg', Inr ()) \<Longrightarrow>
    slot_step \<lparr>sys_ledger = lg, sys_threads = ps\<rparr> \<lparr>sys_ledger = lg', sys_threads = ps[i := Active]\<rparr>"
| too_late: "i < length ps \<Longrightarrow> ps ! i = Holding \<Longrightarrow> enter_slot now lg = (lg', Inl e) \<Longrightarrow>
    slot_step \<lparr>sys_ledger = lg, sys_threads = ps\<rparr>
      \<lparr>sys_ledger = release_slot lg', sys_threads = ps[i := Outside]\<rparr>"
| leave: "i < length ps \<Longrightarrow> ps ! i = Active \<Longrightarrow>
    slot_step \<lparr>sys_ledger = lg, sys_threads = ps\<rparr> \<lparr>sys_ledger = leave_slot lg, sys_threads = ps[i := Leaving]\<rparr>"
| release: "i < length ps \<Longrightarrow> ps ! i = Leaving \<Longrightarrow>
    slot_step \<lparr>sys_ledger = lg, sys_threads = ps\<rparr> \<lparr>sys_ledger = release_slot lg, sys_threads = ps[i := Outside]\<rparr>"
| call: "reserve_model_call now lg = (lg', r) \<Longrightarrow>
    slot_step \<lparr>sys_ledger = lg, sys_threads = ps\<rparr> \<lparr>sys_ledger = lg', sys_threads = ps\<rparr>"
| subcall: "reserve_subcalls now n lg = (lg', r) \<Longrightarrow>
    slot_step \<lparr>sys_ledger = lg, sys_threads = ps\<rparr> \<lparr>sys_ledger = lg', sys_threads = ps\<rparr>"
| account: "record_response response lg = (lg', r) \<Longrightarrow>
    slot_step \<lparr>sys_ledger = lg, sys_threads = ps\<rparr> \<lparr>sys_ledger = lg', sys_threads = ps\<rparr>"

definition ledger_ok :: "ledger \<Rightarrow> bool" where
  "ledger_ok lg \<longleftrightarrow>
     0 \<le> lg_model_calls lg \<and> lg_model_calls lg \<le> max_model_calls (lg_limits lg)
     \<and> 0 \<le> lg_subcalls lg \<and> lg_subcalls lg \<le> max_subcalls (lg_limits lg)
     \<and> 0 \<le> lg_input lg \<and> 0 \<le> lg_output lg \<and> 0 \<le> lg_unreported lg
     \<and> 0 \<le> lg_slots lg \<and> 0 \<le> lg_active lg \<and> lg_active lg \<le> lg_peak lg
     \<and> lg_peak lg \<le> max_parallel_model_calls (lg_limits lg)
     \<and> lg_active lg + lg_slots lg \<le> max_parallel_model_calls (lg_limits lg)"

definition slots_ok :: "slot_system \<Rightarrow> bool" where
  "slots_ok s \<longleftrightarrow> ledger_ok (sys_ledger s)
     \<and> lg_active (sys_ledger s) = actives (sys_threads s)
     \<and> lg_slots (sys_ledger s) + holders (sys_threads s)
         = max_parallel_model_calls (lg_limits (sys_ledger s))"

lemma filter_update:
  "i < length ps \<Longrightarrow> int (length (filter P (ps[i := p]))) =
     int (length (filter P ps)) - (if P (ps ! i) then 1 else 0) + (if P p then 1 else 0)"
proof (induction ps arbitrary: i)
  case Nil
  then show ?case by simp
next
  case (Cons q ps)
  show ?case
  proof (cases i)
    case 0
    then show ?thesis by simp
  next
    case (Suc j)
    then show ?thesis using Cons.IH [of j] Cons.prems by (cases "P (ps ! j)"; cases "P p") simp_all
  qed
qed

lemma holders_update:
  "i < length ps \<Longrightarrow> holders (ps[i := p]) = holders ps
     - (if ps ! i = Holding \<or> ps ! i = Active \<or> ps ! i = Leaving then 1 else 0)
     + (if p = Holding \<or> p = Active \<or> p = Leaving then 1 else 0)"
  by (simp only: holders_def filter_update)

lemma actives_update:
  "i < length ps \<Longrightarrow> actives (ps[i := p]) = actives ps
     - (if ps ! i = Active then 1 else 0) + (if p = Active then 1 else 0)"
  by (simp only: actives_def filter_update)

lemma actives_le_holders: "actives ps \<le> holders ps"
  unfolding actives_def holders_def by (induction ps) auto

lemma actives_lt_holders: "i < length ps \<Longrightarrow> ps ! i = Holding \<Longrightarrow> actives ps < holders ps"
  using actives_le_holders [of "ps[i := Outside]"] by (simp add: holders_update actives_update)

lemma actives_nonneg: "0 \<le> actives ps" "i < length ps \<Longrightarrow> ps ! i = Active \<Longrightarrow> 0 < actives ps"
  using actives_update [of i ps Outside] by (auto simp: actives_def)

lemma usage_from_response_nonneg:
  "usage_from_response response = Inr u \<Longrightarrow>
   0 \<le> input_tokens u \<and> 0 \<le> output_tokens u \<and> 0 \<le> unreported_calls u \<and> calls u = 1
   \<and> (unreported_calls u = 0 \<longleftrightarrow> (\<exists>d. pget response ''usage'' = PDict d))"
  by (auto simp: usage_from_response_def token_count_def ebind_eq_Inr split: py.split_asm if_split_asm option.split_asm)

inductive_cases slot_stepE: "slot_step s t"

lemma slot_step_ok:
  assumes "slot_step s t" "slots_ok s"
  shows "slots_ok t \<and> lg_limits (sys_ledger t) = lg_limits (sys_ledger s)
    \<and> lg_deadline_at (sys_ledger t) = lg_deadline_at (sys_ledger s)"
  using assms
proof (cases rule: slot_step.cases)
  case (account response lg lg' r ps)
  then show ?thesis
    using assms(2) usage_from_response_nonneg [of response]
    by (auto simp: slots_ok_def ledger_ok_def record_response_def Let_def split: sum.split_asm if_split_asm)
next
  case (enter i ps now lg lg')
  then show ?thesis
    using assms(2) actives_lt_holders [of i ps]
    by (auto simp: slots_ok_def ledger_ok_def enter_slot_def holders_update actives_update split: sum.split_asm)
next
  case (take i ps lg lg')
  then show ?thesis using assms(2)
    by (auto simp: slots_ok_def ledger_ok_def take_slot_def holders_update actives_update split: if_split_asm)
next
  case (too_late i ps now lg lg' e)
  then show ?thesis using assms(2) actives_lt_holders [of i ps]
    by (auto simp: slots_ok_def ledger_ok_def enter_slot_def release_slot_def holders_update actives_update
        split: sum.split_asm)
next
  case (leave i ps lg)
  then show ?thesis using assms(2) actives_nonneg(2) [of i ps]
    by (auto simp: slots_ok_def ledger_ok_def leave_slot_def holders_update actives_update)
next
  case (release i ps lg)
  then show ?thesis
    using assms(2) actives_le_holders [of "ps[i := Outside]"]
    by (auto simp: slots_ok_def ledger_ok_def release_slot_def holders_update actives_update)
next
  case (call now lg lg' r ps)
  then show ?thesis using assms(2)
    by (auto simp: slots_ok_def ledger_ok_def reserve_model_call_def split: sum.split_asm if_split_asm)
next
  case (subcall now n lg lg' r ps)
  then show ?thesis using assms(2)
    by (auto simp: slots_ok_def ledger_ok_def reserve_subcalls_def Let_def split: sum.split_asm if_split_asm)
qed (auto simp: slots_ok_def holders_update actives_update)

definition start_system :: "run_limits \<Rightarrow> rat \<Rightarrow> nat \<Rightarrow> slot_system" where
  "start_system limits now n =
     \<lparr>sys_ledger = new_ledger limits now, sys_threads = replicate n Outside\<rparr>"

lemma start_system_ok: "valid_limits limits \<Longrightarrow> slots_ok (start_system limits now n)"
  by (auto simp: slots_ok_def start_system_def ledger_ok_def new_ledger_def valid_limits_def holders_def actives_def)

lemma slot_steps_ok:
  assumes "slot_step\<^sup>*\<^sup>* s t" "slots_ok s"
  shows "slots_ok t \<and> lg_limits (sys_ledger t) = lg_limits (sys_ledger s)"
  using assms by (induction rule: rtranclp_induct) (auto dest: slot_step_ok)

section \<open>Properties\<close>


definition sample_limits :: run_limits where
  "sample_limits =
     \<lparr>max_turns = 3, max_model_calls = 2, max_subcalls = 2, max_parallel_model_calls = 1, max_depth = 1,
      max_total_tokens = Some 100, deadline_seconds = PInt 60, execution_timeout_seconds = PInt 10,
      max_execution_output_chars = 1000, max_observation_chars = 600\<rparr>"

lemma sample_limits_valid: "valid_limits sample_limits"
  by (simp add: valid_limits_def sample_limits_def positive_number_def min_observation_chars_def)




text \<open>A sequence of subcall reservations of any sizes is charged exactly for the accepted ones, each
  of them whole, and never passes the subcall limit; a refused one leaves no trace.\<close>

theorem subcall_budget_exact:
  assumes "subcalls.reserve_all now ns lg = (lg', added)" "lg_subcalls lg \<le> max_subcalls (lg_limits lg)"
  shows "lg_subcalls lg' = lg_subcalls lg + added \<and> 0 \<le> added
     \<and> lg_subcalls lg' \<le> max_subcalls (lg_limits lg)
     \<and> (\<forall>n e. snd (reserve_subcalls now n lg) = Inl e \<longrightarrow> fst (reserve_subcalls now n lg) = lg)"
proof -
  have "reserve_subcalls now n lg = (fst (reserve_subcalls now n lg), Inl e) \<Longrightarrow>
      fst (reserve_subcalls now n lg) = lg" for n e
    by (rule subcalls.refused [OF TrueI])
  then have "snd (reserve_subcalls now n lg) = Inl e \<Longrightarrow> fst (reserve_subcalls now n lg) = lg" for n e
    by (metis prod.collapse)
  then show ?thesis
    using subcalls.reserve_all_exact [OF _ assms(1)] assms(2) by auto
qed

lemma subcall_budget_exact_witness:
  "\<exists>lg'. subcalls.reserve_all 0 [1, 5, 1] (new_ledger sample_limits 0) = (lg', 2) \<and> lg_subcalls lg' = 2"
proof -
  obtain lg' where r: "subcalls.reserve_all 0 [1, 5, 1] (new_ledger sample_limits 0) = (lg', 2)"
    by (simp add: reserve_subcalls_def check_def new_ledger_def sample_limits_def seconds_of_def)
  show ?thesis
    using subcall_budget_exact [OF r] r by (auto simp: new_ledger_def sample_limits_def)
qed

text \<open>A blocking timeout is positive and never passes the run's deadline or the caller's cap; once the
  deadline is reached every guarded operation is refused with the deadline error.\<close>

theorem timeout_bounds:
  "(timeout lg cap now = Inr t \<longrightarrow>
      0 < t \<and> now + t \<le> lg_deadline_at lg \<and> (case cap of None \<Rightarrow> True | Some c \<Rightarrow> t \<le> c))
   \<and> (lg_deadline_at lg \<le> now \<longrightarrow>
        check lg now = Inl (deadline_error lg now)
      \<and> reserve_model_call now lg = (lg, Inl (deadline_error lg now))
      \<and> (\<forall>n. 0 \<le> n \<longrightarrow> reserve_subcalls now n lg = (lg, Inl (deadline_error lg now)))
      \<and> enter_slot now lg = (lg, Inl (deadline_error lg now))
      \<and> timeout lg None now = Inl (deadline_error lg now))"
  by (auto simp: timeout_def check_def reserve_model_call_def reserve_subcalls_def enter_slot_def Let_def
           split: option.split_asm if_split_asm)

lemma timeout_bounds_witness:
  "timeout (new_ledger sample_limits 0) (Some 5) 58 = Inr 2
   \<and> reserve_model_call 60 (new_ledger sample_limits 0)
       = (new_ledger sample_limits 0, Inl (deadline_error (new_ledger sample_limits 0) 60))"
proof -
  have d: "lg_deadline_at (new_ledger sample_limits 0) = 60"
    by (simp add: new_ledger_def sample_limits_def seconds_of_def)
  then show ?thesis
    using timeout_bounds [of "new_ledger sample_limits 0" "Some 5" 58 2]
      timeout_bounds [of "new_ledger sample_limits 0" "Some 5" 60 2]
    by (simp add: timeout_def)
qed

lemma with_model_slot_restores:
  assumes "with_model_slot t1 t2 t3 body lg = (lg', r)"
    and "\<And>l l' x. body l = (l', x) \<Longrightarrow> lg_slots l' = lg_slots l \<and> lg_active l' = lg_active l"
  shows "lg_slots lg' = lg_slots lg \<and> lg_active lg' = lg_active lg"
  using assms(1)
  by (auto simp: with_model_slot_def take_slot_def enter_slot_def release_slot_def leave_slot_def Let_def
      split: sum.split_asm if_split_asm option.split_asm prod.split_asm dest!: assms(2))

end
