(* ===== verification/Observation.thy ===== *)
theory Observation
  imports Config
begin

text \<open>
  \<open>rlm/observation.py\<close>: the bounded observation a controller sees after a cell.  The function builds
  its value in place; here the mutable inner dictionary \<open>execution_value\<close> is passed along, and a
  deep copy is the value itself.  Lengths are of the canonical JSON text, measured by encoding.
\<close>

section \<open>Pieces\<close>

definition duration_text :: "rat \<Rightarrow> string" where
  "duration_text seconds = fmt_fixed 6 seconds"

text \<open>\<open>float(text)\<close> on decimal text.\<close>

definition py_float :: "string \<Rightarrow> exn + py" where
  "py_float text =
     (case parse_number text of
        Inr (PFloat f, []) \<Rightarrow> Inr (PFloat f)
      | Inr (PInt i, []) \<Rightarrow> Inr (PFloat (Fin (of_int i)))
      | _ \<Rightarrow> Inl (value_error (''could not convert string to float: '' @ py_repr text)))"

definition set_truncation :: "dict \<Rightarrow> (string \<times> nat) list \<Rightarrow> dict" where
  "set_truncation ex omitted =
     AList.update ''truncation'' (PDict [
       (''omitted_chars'', PInt (int (sum_list (map snd omitted)))),
       (''fields'', PDict (map (\<lambda>name. (name, PInt (int (the (dget omitted name))))) (sort (keys omitted))))]) ex"

definition update_inner :: "dict \<Rightarrow> string \<Rightarrow> string \<Rightarrow> py \<Rightarrow> exn + dict" where
  "update_inner ex outer key v =
     (case as_dict (pget ex outer) of
        None \<Rightarrow> Inl (PyExc ''AssertionError'' [])
      | Some d \<Rightarrow> Inr (AList.update outer (PDict (AList.update key v d)) ex))"

definition apply_one :: "dict \<Rightarrow> string \<times> string \<Rightarrow> exn + dict" where
  "apply_one ex nt =
     (let name = fst nt; text = snd nt in
      if name = ''fault.details'' then
        ebind (loads text) (\<lambda>v. update_inner ex ''fault'' ''details'' v)
      else if startswith name ''fault.'' then
        update_inner ex ''fault'' (removeprefix name ''fault.'') (PStr text)
      else if startswith name ''exception.'' then
        (let field = removeprefix name ''exception.'' in
         ebind (if field = ''details'' then loads text else Inr (PStr text)) (\<lambda>v.
           update_inner ex ''exception'' field v))
      else if name = ''namespace'' then ebind (loads text) (\<lambda>v. Inr (AList.update name v ex))
      else if name = ''duration_seconds'' then ebind (py_float text) (\<lambda>v. Inr (AList.update name v ex))
      else Inr (AList.update name (PStr text) ex))"

fun apply_retained :: "dict \<Rightarrow> (string \<times> string) list \<Rightarrow> exn + dict" where
  "apply_retained ex [] = Inr ex"
| "apply_retained ex (nt # nts) = ebind (apply_one ex nt) (\<lambda>ex'. apply_retained ex' nts)"

text \<open>The whole value around the execution dictionary, and its measured length.\<close>

definition envelope :: "observation_spec \<Rightarrow> dict \<Rightarrow> dict" where
  "envelope spec ex =
     [(''type'', PStr (observation_value (os_type spec))),
      (''schema_version'', PStr (os_schema_version spec)),
      (''request_binding'', PStr (abi_request_name ENVIRONMENT_ABI)),
      (''submission'', PDict [(''status'', PStr ''absent''), (''required'', PBool True)]),
      (''execution'', PDict ex)]"

definition encoded_length :: "dict \<Rightarrow> exn + nat" where
  "encoded_length v = ebind (dumps canonical (PDict v)) (\<lambda>s. Inr (length s))"

definition with_retained ::
  "dict \<Rightarrow> (string \<times> string) list \<Rightarrow> (string \<times> nat) list \<Rightarrow> exn + dict" where
  "with_retained ex retained omitted =
     ebind (apply_retained ex retained) (\<lambda>ex'. Inr (set_truncation ex' omitted))"

definition fits ::
  "observation_spec \<Rightarrow> int \<Rightarrow> dict \<Rightarrow> (string \<times> string) list \<Rightarrow> (string \<times> nat) list \<Rightarrow> exn + bool" where
  "fits spec max_chars ex retained omitted =
     ebind (with_retained ex retained omitted) (\<lambda>ex'.
     ebind (encoded_length (envelope spec ex')) (\<lambda>n. Inr (int n \<le> max_chars)))"

section \<open>The longest prefix, by binary search\<close>

definition proposed_omitted :: "(string \<times> nat) list \<Rightarrow> string \<Rightarrow> nat \<Rightarrow> (string \<times> nat) list" where
  "proposed_omitted omitted name remaining =
     (if remaining \<noteq> 0 then AList.update name remaining omitted else AList.delete name omitted)"

definition prefix_fits ::
  "observation_spec \<Rightarrow> int \<Rightarrow> dict \<Rightarrow> (string \<times> string) list \<Rightarrow> (string \<times> nat) list
   \<Rightarrow> string \<Rightarrow> string \<Rightarrow> nat \<Rightarrow> exn + bool" where
  "prefix_fits spec max_chars ex retained omitted name text k =
     fits spec max_chars ex (AList.update name (take k text) retained)
       (proposed_omitted omitted name (length text - k))"

function search :: "(nat \<Rightarrow> exn + bool) \<Rightarrow> nat \<Rightarrow> nat \<Rightarrow> exn + nat" where
  "search ok low high =
     (if low < high
      then let middle = (low + high + 1) div 2
           in (case ok middle of
                 Inl e \<Rightarrow> Inl e
               | Inr b \<Rightarrow> if b then search ok middle high else search ok low (middle - 1))
      else Inr low)"
  by pat_completeness auto
termination
  by (relation "measure (\<lambda>(ok, low, high). high - low)") auto

declare search.simps [simp del]

definition max_prefix_that_fits ::
  "observation_spec \<Rightarrow> int \<Rightarrow> dict \<Rightarrow> (string \<times> string) list \<Rightarrow> (string \<times> nat) list
   \<Rightarrow> string \<Rightarrow> string \<Rightarrow> exn + nat" where
  "max_prefix_that_fits spec max_chars ex retained omitted name text =
     search (prefix_fits spec max_chars ex retained omitted name text) 0 (length text)"

section \<open>The observation\<close>

definition structured :: "string list" where
  "structured = [''fault.details'', ''exception.details'', ''namespace'', ''duration_seconds'']"

definition fault_candidates :: "controller_fault option \<Rightarrow> exn + (string \<times> string) list" where
  "fault_candidates fault =
     (case fault of
        None \<Rightarrow> Inr []
      | Some f \<Rightarrow>
          (case cf_details f of
             None \<Rightarrow> Inr [(''fault.message'', cf_fault_message f)]
           | Some d \<Rightarrow> ebind (dumps compact (PDict d)) (\<lambda>s.
               Inr [(''fault.message'', cf_fault_message f), (''fault.details'', s)])))"

definition exception_candidates :: "execution_exception option \<Rightarrow> exn + (string \<times> string) list" where
  "exception_candidates exc =
     (case exc of
        None \<Rightarrow> Inr []
      | Some x \<Rightarrow>
          let code = (case xe_code x of None \<Rightarrow> [] | Some c \<Rightarrow> [(''exception.code'', c)])
          in (case xe_details x of
                None \<Rightarrow> Inr ((''exception.message'', xe_message x) # code)
              | Some d \<Rightarrow> ebind (dumps compact (PDict d)) (\<lambda>s.
                  Inr ((''exception.message'', xe_message x) # code @ [(''exception.details'', s)]))))"

definition candidates ::
  "controller_fault option \<Rightarrow> execution_result \<Rightarrow> exn + (string \<times> string) list" where
  "candidates fault source =
     ebind (fault_candidates fault) (\<lambda>fs.
     ebind (exception_candidates (er_exception source)) (\<lambda>xs.
     ebind (dumps compact (PDict (namespace_dict (er_namespace source)))) (\<lambda>ns.
       Inr (fs @ xs @ [(''stdout'', er_stdout source), (''stderr'', er_stderr source),
              (''display'', er_display source), (''namespace'', ns),
              (''duration_seconds'', duration_text (er_duration source))]))))"

definition initial_execution :: "controller_fault option \<Rightarrow> execution_result \<Rightarrow> dict" where
  "initial_execution fault source =
     [(''status'', PStr (if fault = None then ''ok'' else ''error'')),
      (''truncation'', PDict [(''omitted_chars'', PInt 0), (''fields'', PDict [])])]
     @ (case fault of None \<Rightarrow> [] | Some f \<Rightarrow>
          [(''fault'', PDict [(''kind'', PStr (fault_kind_value (cf_kind f)))])])
     @ (case er_exception source of None \<Rightarrow> [] | Some x \<Rightarrow>
          [(''exception'', PDict [(''type'', PStr (xe_type x))])])"

record observation_state =
  ob_execution :: dict
  ob_retained :: "(string \<times> string) list"
  ob_omitted :: "(string \<times> nat) list"

definition accept_candidate :: "string \<Rightarrow> string \<Rightarrow> nat \<Rightarrow> observation_state \<Rightarrow> exn + observation_state" where
  "accept_candidate name text accepted st =
     (let retained = AList.update name (take accepted text) (ob_retained st);
          omitted = proposed_omitted (ob_omitted st) name (length text - accepted)
      in ebind (with_retained (ob_execution st) retained omitted) (\<lambda>ex.
           Inr \<lparr>ob_execution = ex, ob_retained = retained, ob_omitted = omitted\<rparr>))"

definition observe_one ::
  "observation_spec \<Rightarrow> int \<Rightarrow> string \<times> string \<Rightarrow> observation_state \<Rightarrow> exn + observation_state" where
  "observe_one spec max_chars nt st =
     (let name = fst nt; text = snd nt in
      if text = [] then Inr st
      else ebind
        (if name \<in> set structured then
           ebind (fits spec max_chars (ob_execution st)
                    (AList.update name text (ob_retained st)) (AList.delete name (ob_omitted st)))
             (\<lambda>b. Inr (if b then length text else 0))
         else max_prefix_that_fits spec max_chars (ob_execution st) (ob_retained st) (ob_omitted st) name text)
        (\<lambda>accepted. if accepted = 0 then Inr st else accept_candidate name text accepted st))"

fun observe_all ::
  "observation_spec \<Rightarrow> int \<Rightarrow> (string \<times> string) list \<Rightarrow> observation_state \<Rightarrow> exn + observation_state" where
  "observe_all spec max_chars [] st = Inr st"
| "observe_all spec max_chars (c # cs) st =
     ebind (observe_one spec max_chars c st) (\<lambda>st'. observe_all spec max_chars cs st')"

definition initial_omitted :: "(string \<times> string) list \<Rightarrow> (string \<times> nat) list" where
  "initial_omitted cs = map (\<lambda>c. (fst c, length (snd c))) (filter (\<lambda>c. snd c \<noteq> []) cs)"

definition controller_observation ::
  "observation_spec \<Rightarrow> controller_fault option \<Rightarrow> execution_result option \<Rightarrow> int \<Rightarrow> exn + dict" where
  "controller_observation spec fault execution max_chars =
     (if max_chars < 1 then Inl (value_error ''max_chars must be positive'')
      else let source = (case execution of None \<Rightarrow> empty_execution | Some x \<Rightarrow> x) in
        ebind (candidates fault source) (\<lambda>cs.
          let omitted = initial_omitted cs;
              ex = set_truncation (initial_execution fault source) omitted
          in ebind (encoded_length (envelope spec ex)) (\<lambda>n.
             if max_chars < int n
             then Inl (value_error ''observation structural metadata exceeds max_chars'')
             else ebind (observe_all spec max_chars cs
                    \<lparr>ob_execution = ex, ob_retained = [], ob_omitted = omitted\<rparr>) (\<lambda>st.
                  ebind (encoded_length (envelope spec (ob_execution st))) (\<lambda>m.
                    if max_chars < int m
                    then Inl (value_error ''observation encoding exceeds max_chars'')
                    else Inr (envelope spec (ob_execution st)))))))"

section \<open>The search returns a fitting prefix\<close>

lemma search_fits: "search ok low high = Inr k \<Longrightarrow> (k = low \<or> ok k = Inr True) \<and> low \<le> k \<and> (low \<le> high \<longrightarrow> k \<le> high)"
proof (induction ok low high rule: search.induct)
  case (1 ok low high)
  define mid where "mid = (low + high + 1) div 2"
  show ?case
  proof (cases "low < high")
    case False
    then show ?thesis using "1.prems" by (simp add: search.simps [of ok low high])
  next
    case True
    then have mid: "low < mid" "mid \<le> high" by (simp_all add: mid_def)
    obtain b where b: "ok mid = Inr b"
      using "1.prems" True by (cases "ok mid") (simp_all add: search.simps [of ok low high] mid_def Let_def)
    show ?thesis
    proof (cases b)
      case True
      with b \<open>low < high\<close> have "search ok mid high = Inr k"
        using "1.prems" by (simp add: search.simps [of ok low high] mid_def Let_def)
      with "1.IH"(1) [OF \<open>low < high\<close> mid_def b True] b True mid show ?thesis by auto
    next
      case False
      with b \<open>low < high\<close> have "search ok low (mid - 1) = Inr k"
        using "1.prems" by (simp add: search.simps [of ok low high] mid_def Let_def)
      with "1.IH"(2) [OF \<open>low < high\<close> mid_def b False] mid show ?thesis by auto
    qed
  qed
qed

section \<open>Invariant of the observation state\<close>

definition shown :: "dict \<Rightarrow> (string \<times> string) list \<Rightarrow> string \<Rightarrow> bool" where
  "shown ex retained name \<longleftrightarrow>
     pget ex name = (case dget retained name of None \<Rightarrow> PNone | Some r \<Rightarrow> PStr r)"

definition channels :: "string list" where
  "channels = [''stdout'', ''stderr'', ''display'']"

lemma pget_update [simp]: "pget (AList.update k v d) j = (if j = k then v else pget d j)"
  by (simp add: pget_def update_conv')

lemma update_inner_get:
  "update_inner ex outer key v = Inr ex' \<Longrightarrow> c \<noteq> outer \<Longrightarrow> pget ex' c = pget ex c"
  by (auto simp: update_inner_def split: option.split_asm)

lemma channel_names:
  assumes "c \<in> set channels \<union> {''status'', ''truncation''}"
  shows "c \<noteq> ''fault''" "c \<noteq> ''exception''" "c \<noteq> ''namespace''" "c \<noteq> ''duration_seconds''" "c \<noteq> ''fault.details''"
    "\<not> startswith c ''fault.''" "\<not> startswith c ''exception.''"
  using assms by (auto simp: channels_def startswith_def)

lemma apply_one_other:
  assumes "apply_one ex nt = Inr ex'" and c: "c \<in> set channels \<union> {''status'', ''truncation''}"
    and "fst nt \<notin> {''status'', ''truncation''}"
  shows "pget ex' c = (if c = fst nt then PStr (snd nt) else pget ex c)"
proof (cases "c = fst nt")
  case True
  then show ?thesis using assms(1) channel_names [OF c] by (auto simp: apply_one_def Let_def)
next
  case False
  consider (a) "fst nt = ''fault.details''" | (b) "fst nt \<noteq> ''fault.details''" "startswith (fst nt) ''fault.''"
    | (d) "fst nt \<noteq> ''fault.details''" "\<not> startswith (fst nt) ''fault.''" "startswith (fst nt) ''exception.''"
    | (e) "fst nt \<noteq> ''fault.details''" "\<not> startswith (fst nt) ''fault.''" "\<not> startswith (fst nt) ''exception.''"
    by blast
  then have "pget ex' c = pget ex c"
  proof cases
    case a
    then show ?thesis using assms(1) channel_names(1) [OF c]
      by (auto simp: apply_one_def ebind_eq_Inr dest: update_inner_get)
  next
    case b
    then show ?thesis using assms(1) channel_names(1) [OF c]
      by (auto simp: apply_one_def dest: update_inner_get)
  next
    case d
    then show ?thesis using assms(1) channel_names(2) [OF c]
      by (auto simp: apply_one_def ebind_eq_Inr Let_def dest: update_inner_get)
  next
    case e
    then show ?thesis using assms(1) False
      by (auto simp: apply_one_def ebind_eq_Inr Let_def split: if_split_asm)
  qed
  with False show ?thesis by simp
qed

lemma apply_retained_get:
  "apply_retained ex nts = Inr ex' \<Longrightarrow> distinct (keys nts) \<Longrightarrow> c \<in> set channels \<union> {''status'', ''truncation''} \<Longrightarrow>
   \<forall>n\<in>set (keys nts). n \<notin> {''status'', ''truncation''} \<Longrightarrow>
   pget ex' c = (case dget nts c of Some r \<Rightarrow> PStr r | None \<Rightarrow> pget ex c)"
proof (induction nts arbitrary: ex)
  case Nil
  then show ?case by simp
next
  case (Cons nt nts)
  then obtain ex1 where e: "apply_one ex nt = Inr ex1" "apply_retained ex1 nts = Inr ex'"
    by (auto simp: ebind_eq_Inr)
  obtain n t where nt: "nt = (n, t)" by (cases nt)
  have "pget ex' c = (case dget nts c of Some r \<Rightarrow> PStr r | None \<Rightarrow> pget ex1 c)"
    using Cons.IH [OF e(2)] Cons.prems by simp
  moreover have "pget ex1 c = (if c = n then PStr t else pget ex c)"
    using apply_one_other [OF e(1)] Cons.prems nt by simp
  moreover have "c = n \<Longrightarrow> dget nts c = None" using Cons.prems(2) nt by (simp add: map_of_eq_None_iff)
  ultimately show ?case using nt by (auto split: option.split)
qed

text \<open>Every candidate is accounted for: what is retained is a prefix, the rest is counted as omitted.\<close>

definition accounted :: "(string \<times> string) list \<Rightarrow> (string \<times> nat) list \<Rightarrow> string \<times> string \<Rightarrow> bool" where
  "accounted retained omitted c \<longleftrightarrow>
     (case dget retained (fst c) of
        None \<Rightarrow> dget omitted (fst c) = (if snd c = [] then None else Some (length (snd c)))
      | Some r \<Rightarrow> r = take (length r) (snd c) \<and> r \<noteq> []
          \<and> dget omitted (fst c) = (if length r = length (snd c) then None else Some (length (snd c) - length r)))"

definition truncation_of :: "(string \<times> nat) list \<Rightarrow> py" where
  "truncation_of omitted = PDict [
       (''omitted_chars'', PInt (int (sum_list (map snd omitted)))),
       (''fields'', PDict (map (\<lambda>name. (name, PInt (int (the (dget omitted name))))) (sort (keys omitted))))]"

definition observed ::
  "observation_spec \<Rightarrow> int \<Rightarrow> py \<Rightarrow> (string \<times> string) list \<Rightarrow> observation_state \<Rightarrow> bool" where
  "observed spec max_chars status cs st \<longleftrightarrow>
     (\<exists>n. encoded_length (envelope spec (ob_execution st)) = Inr n \<and> int n \<le> max_chars)
     \<and> distinct (keys (ob_retained st)) \<and> distinct (keys (ob_omitted st))
     \<and> set (keys (ob_retained st)) \<subseteq> set (keys cs)
     \<and> (\<forall>c\<in>set channels. shown (ob_execution st) (ob_retained st) c)
     \<and> pget (ob_execution st) ''status'' = status
     \<and> pget (ob_execution st) ''truncation'' = truncation_of (ob_omitted st)
     \<and> (\<forall>c\<in>set cs. accounted (ob_retained st) (ob_omitted st) c)"

lemma dget_update [simp]: "dget (AList.update k v d) j = (if j = k then Some v else dget d j)"
  by (simp add: update_conv')

lemma dget_delete [simp]: "dget (AList.delete k d) j = (if j = k then None else dget d j)"
  by (simp add: delete_conv')

lemma dget_proposed:
  "dget (proposed_omitted omitted name r) j =
     (if j = name then (if r = 0 then None else Some r) else dget omitted j)"
  by (simp add: proposed_omitted_def)

lemma distinct_proposed: "distinct (keys om) \<Longrightarrow> distinct (keys (proposed_omitted om name r))"
  by (simp add: proposed_omitted_def distinct_update distinct_delete)

lemma accept_observed:
  assumes "observed spec m status cs st" "accept_candidate name text k st = Inr st'"
    and fit: "fits spec m (ob_execution st) (AList.update name (take k text) (ob_retained st))
      (proposed_omitted (ob_omitted st) name (length text - k)) = Inr True"
    and c: "(name, text) \<in> set cs" "distinct (keys cs)" "0 < k" "k \<le> length text"
    and names: "set (keys cs) \<inter> {''status'', ''truncation''} = {}"
  shows "observed spec m status cs st'"
proof -
  let ?ret = "AList.update name (take k text) (ob_retained st)"
  let ?om = "proposed_omitted (ob_omitted st) name (length text - k)"
  obtain ex where ex: "with_retained (ob_execution st) ?ret ?om = Inr ex"
    "st' = \<lparr>ob_execution = ex, ob_retained = ?ret, ob_omitted = ?om\<rparr>"
    using assms(2) by (auto simp: accept_candidate_def Let_def ebind_eq_Inr)
  then obtain ex1 where ex1: "apply_retained (ob_execution st) ?ret = Inr ex1" "ex = set_truncation ex1 ?om"
    by (auto simp: with_retained_def ebind_eq_Inr)
  from fit ex(1) obtain n where n: "encoded_length (envelope spec ex) = Inr n" "int n \<le> m"
    by (auto simp: fits_def ebind_eq_Inr)
  have keys_of: "name \<in> set (keys cs)" using c(1) by force
  have d: "distinct (keys ?ret)" "distinct (keys ?om)" "set (keys ?ret) \<subseteq> set (keys cs)"
    using assms(1) keys_of c(1) by (auto simp: observed_def distinct_update distinct_proposed dom_update)
  have get: "pget ex1 ch = (case dget ?ret ch of Some r \<Rightarrow> PStr r | None \<Rightarrow> pget (ob_execution st) ch)"
    if "ch \<in> set channels \<union> {''status'', ''truncation''}" for ch
    using apply_retained_get [OF ex1(1) d(1) that] d(3) names by blast
  have "''status'' \<notin> set (keys ?ret)" using d(3) names by blast
  then have nost: "dget ?ret ''status'' = None" by (simp only: map_of_eq_None_iff set_map not_False_eq_True)
  have "shown ex ?ret ch" if "ch \<in> set channels" for ch
    using that get [of ch] assms(1) by (auto simp: shown_def ex1(2) set_truncation_def observed_def channels_def split: option.split)
  moreover have "pget ex ''status'' = status"
    using get [of "''status''"] nost assms(1) by (simp add: ex1(2) set_truncation_def observed_def)
  moreover have "pget ex ''truncation'' = truncation_of ?om"
    by (simp add: ex1(2) set_truncation_def truncation_of_def)
  moreover have "accounted ?ret ?om q" if "q \<in> set cs" for q
  proof (cases "fst q = name")
    case True
    then have "q = (name, text)"
      using that c(1,2) by (metis map_of_eq_Some_iff option.inject prod.collapse)
    then show ?thesis using c(3,4) by (auto simp: accounted_def dget_proposed)
  next
    case False
    then have "dget ?ret (fst q) = dget (ob_retained st) (fst q)"
      "dget ?om (fst q) = dget (ob_omitted st) (fst q)" by (simp_all add: dget_proposed)
    then show ?thesis using that assms(1) by (simp only: accounted_def observed_def)
  qed
  ultimately show ?thesis
    using n d by (simp add: observed_def ex(2))
qed

lemma observe_one_observed:
  assumes "observed spec m status cs st" "observe_one spec m c st = Inr st'"
    and c: "c \<in> set cs" "distinct (keys cs)" "set (keys cs) \<inter> {''status'', ''truncation''} = {}"
  shows "observed spec m status cs st'"
proof -
  obtain name tx where nt: "c = (name, tx)" by (cases c)
  let ?fits = "\<lambda>k. fits spec m (ob_execution st) (AList.update name (take k tx) (ob_retained st))
      (proposed_omitted (ob_omitted st) name (length tx - k))"
  have "st' = st \<or> (\<exists>k. 0 < k \<and> k \<le> length tx \<and> ?fits k = Inr True \<and> accept_candidate name tx k st = Inr st')"
  proof (cases "tx = []")
    case True
    then show ?thesis using assms(2) nt by (simp add: observe_one_def)
  next
    case False
    show ?thesis
    proof (cases "name \<in> set structured")
      case True
      then obtain b where b: "fits spec m (ob_execution st) (AList.update name tx (ob_retained st))
          (AList.delete name (ob_omitted st)) = Inr b"
        "(if b then accept_candidate name tx (length tx) st else Inr st) = Inr st'"
        using assms(2) nt False by (auto simp: observe_one_def ebind_eq_Inr split: if_split_asm)
      then show ?thesis
        using False by (intro disjCI exI [of _ "length tx"]) (auto simp: proposed_omitted_def split: if_split_asm)
    next
      case unstructured: False
      then obtain k where k: "max_prefix_that_fits spec m (ob_execution st) (ob_retained st) (ob_omitted st) name tx = Inr k"
        "(if k = 0 then Inr st else accept_candidate name tx k st) = Inr st'"
        using assms(2) nt False by (auto simp: observe_one_def ebind_eq_Inr)
      then show ?thesis
        using search_fits [OF k(1) [unfolded max_prefix_that_fits_def]]
        by (auto simp: prefix_fits_def split: if_split_asm)
    qed
  qed
  then show ?thesis
    using accept_observed [OF assms(1)] c assms(1) nt by blast
qed

lemma observe_all_observed:
  "observe_all spec m ds st = Inr st' \<Longrightarrow> set ds \<subseteq> set cs \<Longrightarrow> observed spec m status cs st \<Longrightarrow>
   distinct (keys cs) \<Longrightarrow> set (keys cs) \<inter> {''status'', ''truncation''} = {} \<Longrightarrow>
   observed spec m status cs st'"
proof (induction ds arbitrary: st)
  case (Cons d ds)
  then obtain st1 where "observe_one spec m d st = Inr st1" "observe_all spec m ds st1 = Inr st'"
    by (auto simp: ebind_eq_Inr)
  then show ?case using Cons observe_one_observed by simp
qed simp

lemma candidates_keys:
  assumes "candidates fault source = Inr cs"
  shows "distinct (keys cs)" "set (keys cs) \<inter> {''status'', ''truncation''} = {}" "set channels \<subseteq> set (keys cs)"
    "(''stdout'', er_stdout source) \<in> set cs" "(''stderr'', er_stderr source) \<in> set cs"
    "(''display'', er_display source) \<in> set cs"
  using assms
  by (auto simp: candidates_def fault_candidates_def exception_candidates_def ebind_eq_Inr channels_def Let_def
      split: option.split_asm)

section \<open>The observation is bounded and accounts for every character\<close>

definition channel_text :: "execution_result \<Rightarrow> string \<Rightarrow> string" where
  "channel_text source c =
     (if c = ''stdout'' then er_stdout source else if c = ''stderr'' then er_stderr source else er_display source)"

text \<open>What the value says of one output channel: a prefix of it, and how much of it was left out.\<close>

definition channel_shown :: "dict \<Rightarrow> execution_result \<Rightarrow> string \<Rightarrow> bool" where
  "channel_shown ex source c \<longleftrightarrow>
     (\<exists>k\<le>length (channel_text source c).
        pget ex c = (if k = 0 then PNone else PStr (take k (channel_text source c)))
        \<and> (\<exists>fields. pget (the (as_dict (pget ex ''truncation''))) ''fields'' = PDict fields
             \<and> dget fields c = (if k = length (channel_text source c) then None
                               else Some (PInt (int (length (channel_text source c) - k))))))"

lemma dget_map_keys:
  "dget (map (\<lambda>n. (n, f n)) ks) c = (if c \<in> set ks then Some (f c) else None)"
  by (induction ks) auto

lemma truncation_field:
  assumes "distinct (keys om)"
  shows "dget (map (\<lambda>n. (n, PInt (int (the (dget om n))))) (sort (keys om))) c = map_option (\<lambda>k. PInt (int k)) (dget om c)"
  by (cases "dget om c") (auto simp: dget_map_keys map_of_eq_None_iff dest: map_of_SomeD intro: rev_image_eqI)

lemma prefix_length_le: "r = take (length r) xs \<Longrightarrow> length r \<le> length xs"
  by (metis length_take min.cobounded1)

lemma observed_channel:
  assumes o: "observed spec m status cs st" and c: "c \<in> set channels" "(c, channel_text source c) \<in> set cs"
    and "ob_execution st = ex"
  shows "channel_shown ex source c"
proof -
  have a: "accounted (ob_retained st) (ob_omitted st) (c, channel_text source c)"
    and s: "shown ex (ob_retained st) c"
    and t: "pget ex ''truncation'' = truncation_of (ob_omitted st)" and d: "distinct (keys (ob_omitted st))"
    using o c assms(4) by (auto simp: observed_def)
  let ?k = "case dget (ob_retained st) c of None \<Rightarrow> 0 | Some r \<Rightarrow> length r"
  show ?thesis
    unfolding channel_shown_def
    using a s t truncation_field [OF d, of c]
    by (intro exI [of _ ?k])
       (auto simp: accounted_def shown_def truncation_of_def pget_def split: option.split_asm if_split_asm
          dest: prefix_length_le)
qed

lemma initial_observed:
  assumes "candidates fault source = Inr cs"
    and "encoded_length (envelope spec (set_truncation (initial_execution fault source) (initial_omitted cs))) = Inr n"
    and "int n \<le> m"
  shows "observed spec m (PStr (if fault = None then ''ok'' else ''error'')) cs
    \<lparr>ob_execution = set_truncation (initial_execution fault source) (initial_omitted cs),
     ob_retained = [], ob_omitted = initial_omitted cs\<rparr>"
proof -
  have d: "distinct (keys cs)" using candidates_keys(1) [OF assms(1)] .
  have om: "dget (initial_omitted cs) (fst q) = (if snd q = [] then None else Some (length (snd q)))" if "q \<in> set cs" for q
    using that d unfolding initial_omitted_def by (induction cs) (auto simp: map_of_eq_None_iff image_iff)
  have dom: "distinct (keys (initial_omitted cs))"
    using d unfolding initial_omitted_def by (induction cs) auto
  show ?thesis
    using assms(2,3) dom om
    by (auto simp: observed_def shown_def accounted_def initial_execution_def set_truncation_def truncation_of_def
        channels_def pget_def update_conv' split: option.split)
qed

lemma controller_observation_state:
  assumes "controller_observation spec fault execution m = Inr v"
  defines "source \<equiv> (case execution of None \<Rightarrow> empty_execution | Some x \<Rightarrow> x)"
  obtains cs st where "candidates fault source = Inr cs" "v = envelope spec (ob_execution st)"
    "observed spec m (PStr (if fault = None then ''ok'' else ''error'')) cs st"
proof -
  obtain cs n st where cs: "candidates fault source = Inr cs"
    and n: "encoded_length (envelope spec (set_truncation (initial_execution fault source) (initial_omitted cs))) = Inr n"
      "int n \<le> m"
    and st: "observe_all spec m cs
       \<lparr>ob_execution = set_truncation (initial_execution fault source) (initial_omitted cs),
        ob_retained = [], ob_omitted = initial_omitted cs\<rparr> = Inr st"
    and v: "v = envelope spec (ob_execution st)"
    using assms(1) unfolding controller_observation_def source_def
    by (auto simp: Let_def ebind_eq_Inr split: if_split_asm)
  have "observed spec m (PStr (if fault = None then ''ok'' else ''error'')) cs st"
    using observe_all_observed [OF st order_refl initial_observed [OF cs n]] candidates_keys [OF cs] by simp
  with cs v show ?thesis by (rule that)
qed

text \<open>C19: every observation the function returns encodes to at most \<open>max_chars\<close> characters of canonical JSON, names the
  fault status of the cell, and shows of each of stdout, stderr and display exactly a prefix, with the number of
  characters it leaves out recorded in the truncation fields.\<close>

theorem controller_observation_bounded:
  assumes "controller_observation spec fault execution max_chars = Inr v"
  shows "(\<exists>t. dumps canonical (PDict v) = Inr t \<and> int (length t) \<le> max_chars)
    \<and> (\<exists>ex. v = envelope spec ex
         \<and> pget ex ''status'' = PStr (if fault = None then ''ok'' else ''error'')
         \<and> (\<forall>c\<in>set channels. channel_shown ex (case execution of None \<Rightarrow> empty_execution | Some x \<Rightarrow> x) c))"
proof -
  let ?source = "case execution of None \<Rightarrow> empty_execution | Some x \<Rightarrow> x"
  obtain cs st where cs: "candidates fault ?source = Inr cs" and v: "v = envelope spec (ob_execution st)"
    and o: "observed spec max_chars (PStr (if fault = None then ''ok'' else ''error'')) cs st"
    by (rule controller_observation_state [OF assms])
  have "channel_shown (ob_execution st) ?source c" if "c \<in> set channels" for c
    by (rule observed_channel [OF o that])
       (use that candidates_keys(4-6) [OF cs] in \<open>auto simp: channels_def channel_text_def\<close>)
  moreover have "\<exists>t. dumps canonical (PDict v) = Inr t \<and> int (length t) \<le> max_chars"
    using o by (auto simp: v observed_def encoded_length_def ebind_eq_Inr)
  moreover have "pget (ob_execution st) ''status'' = PStr (if fault = None then ''ok'' else ''error'')"
    using o by (simp add: observed_def)
  ultimately show ?thesis using v by blast
qed

text \<open>Once the metadata fits, the second length check never fires: the result is the state's envelope.\<close>

lemma observation_guard_unreachable:
  assumes "controller_observation spec fault execution m = Inl e"
    and "candidates fault (case execution of None \<Rightarrow> empty_execution | Some x \<Rightarrow> x) = Inr cs"
    and "encoded_length (envelope spec (set_truncation
           (initial_execution fault (case execution of None \<Rightarrow> empty_execution | Some x \<Rightarrow> x)) (initial_omitted cs))) = Inr n"
      "int n \<le> m" "1 \<le> m"
  shows "observe_all spec m cs
     \<lparr>ob_execution = set_truncation
        (initial_execution fault (case execution of None \<Rightarrow> empty_execution | Some x \<Rightarrow> x)) (initial_omitted cs),
      ob_retained = [], ob_omitted = initial_omitted cs\<rparr> = Inl e"
proof -
  let ?st = "\<lparr>ob_execution = set_truncation
        (initial_execution fault (case execution of None \<Rightarrow> empty_execution | Some x \<Rightarrow> x)) (initial_omitted cs),
      ob_retained = [], ob_omitted = initial_omitted cs\<rparr>"
  show ?thesis
  proof (cases "observe_all spec m cs ?st")
    case (Inl e')
    then show ?thesis using assms by (simp add: controller_observation_def Let_def)
  next
    case (Inr st)
    obtain k where "encoded_length (envelope spec (ob_execution st)) = Inr k" "int k \<le> m"
      using observe_all_observed [OF Inr order_refl initial_observed [OF assms(2-4)]] candidates_keys [OF assms(2)]
      by (auto simp: observed_def)
    then show ?thesis using assms Inr by (simp add: controller_observation_def Let_def)
  qed
qed

text \<open>
  The search assumes that shorter prefixes never encode longer.  They may: while a prefix is cut, the truncation
  fields name the channel, and once the whole text is kept the entry goes away.  Here every proper prefix of
  \<open>abc\<close> is too long, the whole text fits with room to spare, and the search keeps nothing.
\<close>

lemma prefix_length_example:
  "prefix_fits \<lparr>os_type = ControllerObservation, os_schema_version = ''1''\<rparr> 216 [] [] [(''stdout'', 3)] ''stdout'' ''abc'' 1
     = Inr False"
  "prefix_fits \<lparr>os_type = ControllerObservation, os_schema_version = ''1''\<rparr> 216 [] [] [(''stdout'', 3)] ''stdout'' ''abc'' 2
     = Inr False"
  "prefix_fits \<lparr>os_type = ControllerObservation, os_schema_version = ''1''\<rparr> 216 [] [] [(''stdout'', 3)] ''stdout'' ''abc'' 3
     = Inr True"
  by code_simp+

lemma search_two_steps: "ok 2 = Inr False \<Longrightarrow> ok 1 = Inr False \<Longrightarrow> search ok 0 3 = Inr 0"
  by (simp add: search.simps [of ok 0 3] search.simps [of ok 0 "Suc 0"] search.simps [of ok 0 0] Let_def)

text \<open>The binary search for the longest fitting prefix can miss it: a limit under which the whole text fits and the
  search returns 0.\<close>

theorem prefix_search_not_maximal:
  "\<exists>spec m ex omitted tx.
     max_prefix_that_fits spec m ex [] omitted ''stdout'' tx = Inr 0
     \<and> prefix_fits spec m ex [] omitted ''stdout'' tx (length tx) = Inr True \<and> tx \<noteq> []"
proof (intro exI conjI)
  let ?spec = "\<lparr>os_type = ControllerObservation, os_schema_version = ''1''\<rparr>"
  show "max_prefix_that_fits ?spec 216 [] [] [(''stdout'', 3)] ''stdout'' ''abc'' = Inr 0"
    using search_two_steps [OF prefix_length_example(2,1)] by (simp add: max_prefix_that_fits_def eval_nat_numeral)
  show "prefix_fits ?spec 216 [] [] [(''stdout'', 3)] ''stdout'' ''abc'' (length ''abc'') = Inr True"
    using prefix_length_example(3) by (simp add: eval_nat_numeral)
qed simp

text \<open>A cell that prints \<open>x\<close> and does not fail, observed under a limit of 512 characters.\<close>

abbreviation sample_spec :: observation_spec where
  "sample_spec \<equiv> \<lparr>os_type = ControllerObservation, os_schema_version = ''1''\<rparr>"

abbreviation sample_execution :: "(string \<times> nat) list \<Rightarrow> dict \<Rightarrow> dict" where
  "sample_execution om others \<equiv> [(''status'', PStr ''ok''), (''truncation'', PDict [
      (''omitted_chars'', PInt (int (sum_list (map snd om)))),
      (''fields'', PDict (map (\<lambda>name. (name, PInt (int (the (dget om name))))) (sort (keys om))))])] @ others"

lemma sample_parts:
  "candidates None (empty_execution\<lparr>er_stdout := ''x''\<rparr>) =
     Inr [(''stdout'', ''x''), (''stderr'', []), (''display'', []), (''namespace'', ''{}''),
          (''duration_seconds'', ''0.000000'')]"
  "loads ''{}'' = Inr (PDict [])"
  "parse_number ''0.000000'' = Inr (PFloat (Fin 0), [])"
  by code_simp+

lemma sample_lengths:
  "encoded_length (envelope sample_spec (sample_execution [(''stdout'', 1), (''namespace'', 2), (''duration_seconds'', 8)] [])) = Inr 254"
  "encoded_length (envelope sample_spec (sample_execution [(''namespace'', 2), (''duration_seconds'', 8)] [(''stdout'', PStr ''x'')])) = Inr 256"
  "encoded_length (envelope sample_spec (sample_execution [(''duration_seconds'', 8)] [(''stdout'', PStr ''x''), (''namespace'', PDict [])])) = Inr 256"
  "encoded_length (envelope sample_spec (sample_execution [] [(''stdout'', PStr ''x''), (''namespace'', PDict []), (''duration_seconds'', PFloat (Fin 0))])) = Inr 259"
  by code_simp+

lemma empty_exception: "er_exception empty_execution = None"
  by (simp add: empty_execution_def)

lemma sample_observed:
  "controller_observation sample_spec None (Some (empty_execution\<lparr>er_stdout := ''x''\<rparr>)) 512 =
     Inr (envelope sample_spec
       (sample_execution [] [(''stdout'', PStr ''x''), (''namespace'', PDict []), (''duration_seconds'', PFloat (Fin 0))]))"
  using sample_lengths
  by (simp add: controller_observation_def sample_parts initial_omitted_def observe_one_def structured_def
      max_prefix_that_fits_def search.simps prefix_fits_def fits_def with_retained_def proposed_omitted_def
      accept_candidate_def apply_one_def py_float_def set_truncation_def initial_execution_def startswith_def
      empty_exception Let_def)

lemma controller_observation_bounded_witness:
  "\<exists>t. dumps canonical (PDict (envelope sample_spec (sample_execution []
       [(''stdout'', PStr ''x''), (''namespace'', PDict []), (''duration_seconds'', PFloat (Fin 0))]))) = Inr t
     \<and> int (length t) \<le> 512"
  using controller_observation_bounded [OF sample_observed] by blast

end
