(* ===== verification/Trace.thy ===== *)
theory Trace
  imports Observation
begin

text \<open>
  \<open>rlm/trace.py\<close>: the closed union of trace payloads, the event envelope, and the two trace sinks:
  the recorder that appends one JSON line per event, and the null sink.  The recorder's lock makes every
  operation atomic.  The clock reading of an event and the outcome of its write to the file are arguments;
  a failed write may or may not have left its line in the file.  Paths are their text.
\<close>

section \<open>Payloads\<close>

datatype trace_event_kind =
    RUN_STARTED | RUN_COMPLETED | RUN_FAILED | BRANCH_STARTED | BRANCH_COMPLETED
  | MODEL_REQUEST | MODEL_RESPONSE | MODEL_FAILED
  | CONTROLLER_ACTION | CONTROLLER_EXECUTION | CONTROLLER_OBSERVATION
  | CONTROLLER_RECOVERY_DECISION | CONTROLLER_REPAIR

fun event_kind_value :: "trace_event_kind \<Rightarrow> string" where
  "event_kind_value RUN_STARTED = ''run.started''"
| "event_kind_value RUN_COMPLETED = ''run.completed''"
| "event_kind_value RUN_FAILED = ''run.failed''"
| "event_kind_value BRANCH_STARTED = ''branch.started''"
| "event_kind_value BRANCH_COMPLETED = ''branch.completed''"
| "event_kind_value MODEL_REQUEST = ''model.request''"
| "event_kind_value MODEL_RESPONSE = ''model.response''"
| "event_kind_value MODEL_FAILED = ''model.failed''"
| "event_kind_value CONTROLLER_ACTION = ''controller.action''"
| "event_kind_value CONTROLLER_EXECUTION = ''controller.execution''"
| "event_kind_value CONTROLLER_OBSERVATION = ''controller.observation''"
| "event_kind_value CONTROLLER_RECOVERY_DECISION = ''controller.recovery_decision''"
| "event_kind_value CONTROLLER_REPAIR = ''controller.repair''"

definition trace_event_kinds :: "trace_event_kind list" where
  "trace_event_kinds =
     [RUN_STARTED, RUN_COMPLETED, RUN_FAILED, BRANCH_STARTED, BRANCH_COMPLETED, MODEL_REQUEST, MODEL_RESPONSE,
      MODEL_FAILED, CONTROLLER_ACTION, CONTROLLER_EXECUTION, CONTROLLER_OBSERVATION,
      CONTROLLER_RECOVERY_DECISION, CONTROLLER_REPAIR]"

record run_started_payload =
  rs_request :: dict
  rs_effective_config :: rlm_config
  rs_harness :: harness_spec
  rs_harness_fingerprint :: harness_spec
  rs_trace_schema_version :: string
  rs_environment_abi :: dict
  rs_environment_abi_digest :: string

record branch_started_payload =
  bs_request :: dict
  bs_controller_model :: string
  bs_prompt :: string
  bs_harness :: harness_spec
  bs_harness_fingerprint :: harness_spec

datatype trace_payload =
    RunStartedPayload run_started_payload
  | RunCompletedPayload string dict
  | RunFailedPayload error_record
  | BranchStartedPayload branch_started_payload
  | BranchCompletedPayload string dict
  | ModelRequestPayload model_call_context dict
  | ModelResponsePayload model_call_context rat dict
  | ModelFailedPayload model_call_context rat error_record
  | ControllerActionPayload string
  | ControllerExecutionPayload execution_result
  | ControllerObservationPayload py
  | RecoveryDecisionPayload int recovery_decision
  | RepairPayload int controller_fault py

fun payload_kind :: "trace_payload \<Rightarrow> trace_event_kind" where
  "payload_kind (RunStartedPayload _) = RUN_STARTED"
| "payload_kind (RunCompletedPayload _ _) = RUN_COMPLETED"
| "payload_kind (RunFailedPayload _) = RUN_FAILED"
| "payload_kind (BranchStartedPayload _) = BRANCH_STARTED"
| "payload_kind (BranchCompletedPayload _ _) = BRANCH_COMPLETED"
| "payload_kind (ModelRequestPayload _ _) = MODEL_REQUEST"
| "payload_kind (ModelResponsePayload _ _ _) = MODEL_RESPONSE"
| "payload_kind (ModelFailedPayload _ _ _) = MODEL_FAILED"
| "payload_kind (ControllerActionPayload _) = CONTROLLER_ACTION"
| "payload_kind (ControllerExecutionPayload _) = CONTROLLER_EXECUTION"
| "payload_kind (ControllerObservationPayload _) = CONTROLLER_OBSERVATION"
| "payload_kind (RecoveryDecisionPayload _ _) = CONTROLLER_RECOVERY_DECISION"
| "payload_kind (RepairPayload _ _ _) = CONTROLLER_REPAIR"

definition model_context :: "model_call_context \<Rightarrow> dict" where
  "model_context c =
     [(''run_id'', PStr (mc_run_id c)), (''branch_id'', PStr (mc_branch_id c)),
      (''call_id'', PStr (mc_call_id c)), (''role'', PStr (role_value (mc_role c))),
      (''depth'', PInt (int (mc_depth c)))]"

definition run_started_dict :: "run_started_payload \<Rightarrow> exn + dict" where
  "run_started_dict p =
     ebind (config_to_dict (rs_effective_config p)) (\<lambda>c.
     ebind (harness_to_dict (rs_harness p)) (\<lambda>h.
     ebind (fingerprint (rs_harness_fingerprint p)) (\<lambda>f.
       Inr [(''request'', PDict (rs_request p)), (''effective_config'', PDict c), (''harness'', PDict h),
            (''harness_fingerprint'', PStr f), (''trace_schema_version'', PStr (rs_trace_schema_version p)),
            (''environment_abi'', PDict (rs_environment_abi p)),
            (''environment_abi_digest'', PStr (rs_environment_abi_digest p))])))"

definition branch_started_dict :: "branch_started_payload \<Rightarrow> exn + dict" where
  "branch_started_dict p =
     ebind (harness_to_dict (bs_harness p)) (\<lambda>h.
     ebind (fingerprint (bs_harness_fingerprint p)) (\<lambda>f.
       Inr [(''request'', PDict (bs_request p)), (''controller_model'', PStr (bs_controller_model p)),
            (''prompt'', PStr (bs_prompt p)), (''harness'', PDict h), (''harness_fingerprint'', PStr f)]))"

fun payload_to_dict :: "trace_payload \<Rightarrow> exn + dict" where
  "payload_to_dict (RunStartedPayload p) = run_started_dict p"
| "payload_to_dict (RunCompletedPayload s r) = Inr [(''stop_reason'', PStr s), (''response'', PDict r)]"
| "payload_to_dict (RunFailedPayload e) = ebind (error_record_to_dict e) (\<lambda>d. Inr [(''error'', PDict d)])"
| "payload_to_dict (BranchStartedPayload p) = branch_started_dict p"
| "payload_to_dict (BranchCompletedPayload s r) = Inr [(''stop_reason'', PStr s), (''response'', PDict r)]"
| "payload_to_dict (ModelRequestPayload c r) =
     Inr [(''context'', PDict (model_context c)), (''request'', PDict r)]"
| "payload_to_dict (ModelResponsePayload c d r) =
     Inr [(''context'', PDict (model_context c)), (''duration_seconds'', PFloat (Fin d)), (''response'', PDict r)]"
| "payload_to_dict (ModelFailedPayload c d e) = ebind (error_record_to_dict e) (\<lambda>e.
     Inr [(''context'', PDict (model_context c)), (''duration_seconds'', PFloat (Fin d)), (''error'', PDict e)])"
| "payload_to_dict (ControllerActionPayload src) = Inr [(''code'', PStr src)]"
| "payload_to_dict (ControllerExecutionPayload x) = ebind (execution_to_dict x) (\<lambda>d. Inr [(''execution'', PDict d)])"
| "payload_to_dict (ControllerObservationPayload v) = Inr [(''observation'', v)]"
| "payload_to_dict (RecoveryDecisionPayload t r) = ebind (decision_to_dict r) (\<lambda>d.
     Inr [(''turn'', PInt t), (''decision'', PDict d)])"
| "payload_to_dict (RepairPayload t f v) = ebind (fault_to_dict f) (\<lambda>d.
     Inr [(''turn'', PInt t), (''fault'', PDict d), (''observation'', v)])"

section \<open>The payload schema\<close>

text \<open>The members of the union with the names of their fields, and the check that they cover the event kinds.\<close>

definition trace_payload_types :: "(trace_event_kind \<times> string list) list" where
  "trace_payload_types =
     [(RUN_STARTED, [''request'', ''effective_config'', ''harness'', ''harness_fingerprint'',
         ''trace_schema_version'', ''environment_abi'', ''environment_abi_digest'']),
      (RUN_COMPLETED, [''stop_reason'', ''response'']),
      (RUN_FAILED, [''error'']),
      (BRANCH_STARTED, [''request'', ''controller_model'', ''prompt'', ''harness'', ''harness_fingerprint'']),
      (BRANCH_COMPLETED, [''stop_reason'', ''response'']),
      (MODEL_REQUEST, [''context'', ''request'']),
      (MODEL_RESPONSE, [''context'', ''duration_seconds'', ''response'']),
      (MODEL_FAILED, [''context'', ''duration_seconds'', ''error'']),
      (CONTROLLER_ACTION, [''code'']),
      (CONTROLLER_EXECUTION, [''execution'']),
      (CONTROLLER_OBSERVATION, [''observation'']),
      (CONTROLLER_RECOVERY_DECISION, [''turn'', ''decision'']),
      (CONTROLLER_REPAIR, [''turn'', ''fault'', ''observation''])]"

fun schema_entries ::
  "trace_event_kind list \<Rightarrow> (trace_event_kind \<times> string list) list \<Rightarrow> exn + (string \<times> string list) list" where
  "schema_entries seen [] = Inr []"
| "schema_entries seen ((k, fs) # ts) =
     (if k \<in> set seen
      then Inl (PyExc ''RuntimeError'' (''duplicate trace payload type for '' @ event_kind_value k))
      else ebind (schema_entries (k # seen) ts) (\<lambda>es. Inr ((event_kind_value k, fs) # es)))"

definition trace_payload_schema ::
  "(trace_event_kind \<times> string list) list \<Rightarrow> exn + (string \<times> string list) list" where
  "trace_payload_schema types =
     ebind (schema_entries [] types) (\<lambda>schema.
       let kinds = map fst types;
           missing = sort (map event_kind_value (filter (\<lambda>k. k \<notin> set kinds) trace_event_kinds));
           extra = sort (map event_kind_value (filter (\<lambda>k. k \<notin> set trace_event_kinds) kinds))
       in if set kinds \<noteq> set trace_event_kinds
          then Inl (PyExc ''RuntimeError'' (''trace payload coverage mismatch: missing=''
                 @ repr_value (PList (map PStr missing)) @ '', extra='' @ repr_value (PList (map PStr extra))))
          else Inr schema)"

definition payload_fields :: "trace_event_kind \<Rightarrow> string list" where
  "payload_fields k = the (dget trace_payload_types k)"

section \<open>Manifest and envelope\<close>

definition TRACE_SCHEMA_VERSION :: string where "TRACE_SCHEMA_VERSION = ''1''"

datatype run_trace_status = TraceCompleted | TraceFailed

fun trace_status_value :: "run_trace_status \<Rightarrow> string" where
  "trace_status_value TraceCompleted = ''completed''"
| "trace_status_value TraceFailed = ''failed''"

record trace_manifest =
  tm_run_id :: string
  tm_status :: run_trace_status
  tm_stop_reason :: "string option"
  tm_turns :: int
  tm_duration_seconds :: rat
  tm_usage :: dict
  tm_error :: "error_record option"
  tm_harness :: dict
  tm_harness_fingerprint :: string
  tm_effective_config :: dict
  tm_environment_abi :: dict
  tm_environment_abi_digest :: string
  tm_schema_version :: string

definition TRACE_MANIFEST_FIELDS :: "string list" where
  "TRACE_MANIFEST_FIELDS = [''run_id'', ''status'', ''stop_reason'', ''turns'', ''duration_seconds'', ''usage'',
     ''error'', ''harness'', ''harness_fingerprint'', ''effective_config'', ''environment_abi'',
     ''environment_abi_digest'', ''schema_version'']"

definition manifest_to_dict :: "trace_manifest \<Rightarrow> exn + dict" where
  "manifest_to_dict m =
     ebind (case tm_error m of None \<Rightarrow> Inr PNone
            | Some e \<Rightarrow> ebind (error_record_to_dict e) (\<lambda>d. Inr (PDict d))) (\<lambda>err.
       Inr [(''run_id'', PStr (tm_run_id m)), (''status'', PStr (trace_status_value (tm_status m))),
            (''stop_reason'', opt_str (tm_stop_reason m)), (''turns'', PInt (tm_turns m)),
            (''duration_seconds'', PFloat (Fin (tm_duration_seconds m))), (''usage'', PDict (tm_usage m)),
            (''error'', err), (''harness'', PDict (tm_harness m)),
            (''harness_fingerprint'', PStr (tm_harness_fingerprint m)),
            (''effective_config'', PDict (tm_effective_config m)),
            (''environment_abi'', PDict (tm_environment_abi m)),
            (''environment_abi_digest'', PStr (tm_environment_abi_digest m)),
            (''schema_version'', PStr (tm_schema_version m))])"

record trace_event =
  te_run_id :: string
  te_event_id :: string
  te_parent_event_id :: "string option"
  te_branch_id :: string
  te_depth :: nat
  te_timestamp :: rat
  te_type :: string
  te_payload :: dict

definition TRACE_ENVELOPE_FIELDS :: "string list" where
  "TRACE_ENVELOPE_FIELDS = [''schema_version'', ''run_id'', ''event_id'', ''parent_event_id'', ''branch_id'',
     ''depth'', ''timestamp'', ''type'', ''payload'']"

definition event_to_dict :: "trace_event \<Rightarrow> dict" where
  "event_to_dict e =
     [(''schema_version'', PStr TRACE_SCHEMA_VERSION), (''run_id'', PStr (te_run_id e)),
      (''event_id'', PStr (te_event_id e)), (''parent_event_id'', opt_str (te_parent_event_id e)),
      (''branch_id'', PStr (te_branch_id e)), (''depth'', PInt (int (te_depth e))),
      (''timestamp'', PFloat (Fin (te_timestamp e))), (''type'', PStr (te_type e)),
      (''payload'', PDict (te_payload e))]"

text \<open>\<open>f"evt-{n:06d}"\<close>\<close>

definition event_name :: "nat \<Rightarrow> string" where
  "event_name n = ''evt-'' @ pad_left 6 CHR ''0'' (show_nat n)"

section \<open>The recorder\<close>

record recorder =
  rc_run_id :: string
  rc_directory :: string
  rc_markdown :: bool
  rc_next_id :: nat
  rc_closed :: bool
  rc_event_ids :: "string list"
  rc_events :: "dict list"
  rc_lines :: "string list"
  rc_files :: "(string \<times> string) list"

text \<open>What a file operation did: it succeeded, or it raised, possibly after its text reached the file.\<close>

datatype io = IoOk | IoFails exn bool

fun io_error :: "io \<Rightarrow> exn option" where
  "io_error IoOk = None"
| "io_error (IoFails e kept) = Some e"

fun io_wrote :: "io \<Rightarrow> bool" where
  "io_wrote IoOk = True"
| "io_wrote (IoFails e kept) = kept"

text \<open>\<open>except TraceError: raise\<close>, then \<open>except Exception as exc\<close>.\<close>

definition as_trace_error :: "string \<Rightarrow> exn \<Rightarrow> exn" where
  "as_trace_error what e =
     (case e of
        TraceErr m \<Rightarrow> e
      | _ \<Rightarrow> if is_exception e then TraceErr (what @ exn_message e) else e)"

text \<open>\<open>TraceRecorder.__init__\<close>: the resolved base directory and the time stamp are the arguments.\<close>

definition new_recorder :: "trace_config \<Rightarrow> string \<Rightarrow> string \<Rightarrow> string \<Rightarrow> io \<Rightarrow> exn + recorder" where
  "new_recorder config run_id base stamp opened =
     (if \<not> tc_enabled config then Inl (value_error ''TraceRecorder requires enabled TraceConfig'')
      else case io_error opened of
        None \<Rightarrow> Inr \<lparr>rc_run_id = run_id, rc_directory = base @ ''/'' @ stamp @ ''-'' @ run_id,
                 rc_markdown = tc_markdown config, rc_next_id = 0, rc_closed = False, rc_event_ids = [],
                 rc_events = [], rc_lines = [], rc_files = []\<rparr>
      | Some e \<Rightarrow> if exn_class e \<in> {''OSError'', ''ValueError''}
          then Inl (TraceErr (''trace initialization failed: '' @ exn_message e)) else Inl e)"

definition validate_trace_event :: "recorder \<Rightarrow> trace_payload \<Rightarrow> string option \<Rightarrow> exn + unit" where
  "validate_trace_event r payload parent =
     (if rc_event_ids r = []
      then ensure (payload_kind payload = RUN_STARTED \<and> parent = None)
             (TraceErr ''run.started must be the first trace event with no parent_event_id'')
      else ensure (parent \<in> Some ` set (rc_event_ids r))
             (TraceErr ''trace event parent_event_id does not name a written event''))"

definition build_event ::
  "recorder \<Rightarrow> trace_payload \<Rightarrow> string \<Rightarrow> nat \<Rightarrow> string option \<Rightarrow> rat \<Rightarrow> exn + dict \<times> string" where
  "build_event r payload branch_id depth parent now =
     ebind (validate_trace_event r payload parent) (\<lambda>_.
     ebind (payload_to_dict payload) (\<lambda>value.
       if set (keys value) \<noteq> set (payload_fields (payload_kind payload))
       then Inl (TraceErr (''trace payload fields do not match '' @ event_kind_value (payload_kind payload)))
       else
         let ev = event_to_dict \<lparr>te_run_id = rc_run_id r, te_event_id = event_name (rc_next_id r),
                    te_parent_event_id = parent, te_branch_id = branch_id, te_depth = depth,
                    te_timestamp = now, te_type = event_kind_value (payload_kind payload),
                    te_payload = value\<rparr>
         in case json_compatibility_error (PDict ev) of
              Some e \<Rightarrow> Inl (TraceErr (''trace event requires strict JSON: '' @ e))
            | None \<Rightarrow> ebind (dumps compact (PDict ev)) (\<lambda>t. Inr (ev, t))))"

text \<open>\<open>TraceRecorder.event\<close>\<close>

definition record_event ::
  "recorder \<Rightarrow> trace_payload \<Rightarrow> string \<Rightarrow> nat \<Rightarrow> string option \<Rightarrow> rat \<Rightarrow> io \<Rightarrow> recorder \<times> (exn + string)" where
  "record_event r payload branch_id depth parent now written =
     (if rc_closed r then (r, Inl (TraceErr ''trace sink is closed''))
      else case build_event r payload branch_id depth parent now of
        Inl e \<Rightarrow> (r, Inl (as_trace_error ''trace event failed: '' e))
      | Inr (ev, line) \<Rightarrow>
          let r' = (if io_wrote written then r\<lparr>rc_lines := rc_lines r @ [line]\<rparr> else r)
          in case io_error written of
               Some e \<Rightarrow> (r', Inl (as_trace_error ''trace event failed: '' e))
             | None \<Rightarrow>
                 (r'\<lparr>rc_next_id := Suc (rc_next_id r), rc_event_ids := event_name (rc_next_id r) # rc_event_ids r,
                     rc_events := (if rc_markdown r then rc_events r @ [ev] else rc_events r)\<rparr>,
                  Inr (event_name (rc_next_id r))))"

text \<open>\<open>str\<close> of a value in a formatted string.\<close>

fun str_value :: "py \<Rightarrow> string" where
  "str_value (PStr s) = s"
| "str_value v = repr_value v"

definition markdown_event :: "dict \<Rightarrow> exn + string list" where
  "markdown_event ev =
     ebind (dumps indented (pget ev ''payload'')) (\<lambda>body.
       Inr [''## '' @ str_value (pget ev ''event_id'') @ CHR '' '' # CHR 0xB7 # CHR '' '' # str_value (pget ev ''type''),
            [],
            ''Branch `'' @ str_value (pget ev ''branch_id'') @ ''`, depth '' @ str_value (pget ev ''depth''),
            [], ''````json'', body, ''````'', []])"

definition write_markdown :: "recorder \<Rightarrow> exn + string" where
  "write_markdown r =
     ebind (emap markdown_event (rc_events r)) (\<lambda>parts.
       Inr (join_str [CHR 0x0A] ([''# RLM trace `'' @ rc_run_id r @ ''`'', []] @ concat parts)))"

definition put_file :: "string \<Rightarrow> string \<Rightarrow> io \<Rightarrow> recorder \<Rightarrow> recorder \<times> (exn + unit)" where
  "put_file name body outcome r =
     ((if io_wrote outcome then r\<lparr>rc_files := AList.update name body (rc_files r)\<rparr> else r),
      (case io_error outcome of None \<Rightarrow> Inr () | Some e \<Rightarrow> Inl e))"

text \<open>\<open>write_json\<close>: the text is complete before the target name exists.\<close>

definition write_json :: "string \<Rightarrow> py \<Rightarrow> io \<Rightarrow> recorder \<Rightarrow> recorder \<times> (exn + unit)" where
  "write_json name v outcome r =
     (case dumps indented v of
        Inl e \<Rightarrow> (r, Inl e)
      | Inr t \<Rightarrow> put_file name (t @ [CHR 0x0A]) outcome r)"

text \<open>The outcomes of the four file operations of \<open>close\<close>: the event file, the markdown, the manifest, the directory.\<close>

record close_io =
  ci_events :: io
  ci_markdown :: io
  ci_manifest :: io
  ci_directory :: io

definition manifest_value :: "exn + trace_manifest \<Rightarrow> exn + dict" where
  "manifest_value made =
     ebind made (\<lambda>m.
     ebind (manifest_to_dict m) (\<lambda>value.
       if set (keys value) \<noteq> set TRACE_MANIFEST_FIELDS
       then Inl (type_error ''trace manifest fields do not match the schema'')
       else case json_compatibility_error (PDict value) of
              Some e \<Rightarrow> Inl (type_error (''trace manifest requires strict JSON: '' @ e))
            | None \<Rightarrow> Inr value))"

definition finish_files :: "close_io \<Rightarrow> dict \<Rightarrow> recorder \<Rightarrow> recorder \<times> (exn + unit)" where
  "finish_files io value r =
     (case io_error (ci_events io) of
        Some e \<Rightarrow> (r, Inl e)
      | None \<Rightarrow>
          let (r1, marked) =
                (if rc_markdown r
                 then (case write_markdown r of
                         Inl e \<Rightarrow> (r, Inl e)
                       | Inr t \<Rightarrow> put_file ''trace.md'' t (ci_markdown io) r)
                 else (r, Inr ()))
          in case marked of
               Inl e \<Rightarrow> (r1, Inl e)
             | Inr _ \<Rightarrow>
                 let (r2, wrote) = write_json ''manifest.json'' (PDict value) (ci_manifest io) r1
                 in case wrote of
                      Inl e \<Rightarrow> (r2, Inl e)
                    | Inr _ \<Rightarrow> (r2, case io_error (ci_directory io) of None \<Rightarrow> Inr () | Some e \<Rightarrow> Inl e))"

text \<open>\<open>TraceRecorder.close\<close>: the factory is called once, by the first close.\<close>

definition close_recorder ::
  "recorder \<Rightarrow> (exn + trace_manifest) \<Rightarrow> close_io \<Rightarrow> recorder \<times> (exn + unit)" where
  "close_recorder r made io =
     (if rc_closed r then (r, Inr ())
      else
        let r0 = r\<lparr>rc_closed := True\<rparr>;
            (r1, res) = (case manifest_value made of
                           Inl e \<Rightarrow> (r0, Inl e)
                         | Inr value \<Rightarrow> finish_files io value r0)
        in (r1, case res of Inl e \<Rightarrow> Inl (as_trace_error ''trace finalize failed: '' e) | Inr u \<Rightarrow> Inr u))"

section \<open>The two sinks\<close>

datatype trace_sink = NullTraceSink | Recorder recorder

definition make_trace_sink :: "trace_config \<Rightarrow> string \<Rightarrow> string \<Rightarrow> string \<Rightarrow> io \<Rightarrow> exn + trace_sink" where
  "make_trace_sink config run_id base stamp opened =
     (if \<not> tc_enabled config then Inr NullTraceSink
      else ebind (new_recorder config run_id base stamp opened) (\<lambda>r. Inr (Recorder r)))"

fun sink_event ::
  "trace_sink \<Rightarrow> trace_payload \<Rightarrow> string \<Rightarrow> nat \<Rightarrow> string option \<Rightarrow> rat \<Rightarrow> io \<Rightarrow> trace_sink \<times> (exn + string option)" where
  "sink_event NullTraceSink payload branch_id depth parent now written = (NullTraceSink, Inr None)"
| "sink_event (Recorder r) payload branch_id depth parent now written =
     (let (r', res) = record_event r payload branch_id depth parent now written
      in (Recorder r', ebind res (\<lambda>i. Inr (Some i))))"

fun sink_close :: "trace_sink \<Rightarrow> (exn + trace_manifest) \<Rightarrow> close_io \<Rightarrow> trace_sink \<times> (exn + unit)" where
  "sink_close NullTraceSink made io = (NullTraceSink, Inr ())"
| "sink_close (Recorder r) made io = (let (r', res) = close_recorder r made io in (Recorder r', res))"

section \<open>Payload fields\<close>

lemma payload_fields_simps [simp]:
  "payload_fields RUN_STARTED = [''request'', ''effective_config'', ''harness'', ''harness_fingerprint'',
     ''trace_schema_version'', ''environment_abi'', ''environment_abi_digest'']"
  "payload_fields RUN_COMPLETED = [''stop_reason'', ''response'']"
  "payload_fields RUN_FAILED = [''error'']"
  "payload_fields BRANCH_STARTED = [''request'', ''controller_model'', ''prompt'', ''harness'', ''harness_fingerprint'']"
  "payload_fields BRANCH_COMPLETED = [''stop_reason'', ''response'']"
  "payload_fields MODEL_REQUEST = [''context'', ''request'']"
  "payload_fields MODEL_RESPONSE = [''context'', ''duration_seconds'', ''response'']"
  "payload_fields MODEL_FAILED = [''context'', ''duration_seconds'', ''error'']"
  "payload_fields CONTROLLER_ACTION = [''code'']"
  "payload_fields CONTROLLER_EXECUTION = [''execution'']"
  "payload_fields CONTROLLER_OBSERVATION = [''observation'']"
  "payload_fields CONTROLLER_RECOVERY_DECISION = [''turn'', ''decision'']"
  "payload_fields CONTROLLER_REPAIR = [''turn'', ''fault'', ''observation'']"
  by (simp_all add: payload_fields_def trace_payload_types_def)

lemma payload_to_dict_keys: "payload_to_dict p = Inr d \<Longrightarrow> keys d = payload_fields (payload_kind p)"
  by (cases p) (auto simp: ebind_eq_Inr run_started_dict_def branch_started_dict_def)

lemma event_kind_value_inject [simp]: "event_kind_value j = event_kind_value k \<longleftrightarrow> j = k"
  by (cases j; cases k; simp)

lemma trace_event_kinds_all: "k \<in> set trace_event_kinds"
  by (cases k) (simp_all add: trace_event_kinds_def)

lemma trace_payload_schema_ok:
  "trace_payload_schema trace_payload_types = Inr (map (\<lambda>k. (event_kind_value k, payload_fields k)) trace_event_kinds)"
  by (simp add: trace_payload_schema_def trace_payload_types_def trace_event_kinds_def insert_commute)

lemma schema_entries_Inr:
  "schema_entries seen ts = Inr es \<Longrightarrow> distinct (map fst ts) \<and> set (map fst ts) \<inter> set seen = {}
     \<and> es = map (\<lambda>t. (event_kind_value (fst t), snd t)) ts"
  by (induction seen ts arbitrary: es rule: schema_entries.induct) (fastforce simp: ebind_eq_Inr split: if_split_asm)+

lemma schema_entries_ok:
  "is_ok (schema_entries seen ts) \<longleftrightarrow> distinct (map fst ts) \<and> set (map fst ts) \<inter> set seen = {}"
  by (induction seen ts rule: schema_entries.induct) (auto simp: is_ok_iff ebind_eq_Inr)

lemma dumps_error: "dumps st v = Inl e \<Longrightarrow> e \<noteq> TraceErr m"
  by (auto simp: dumps_def split: sum.split_asm)

lemma loads_error: "loads t = Inl e \<Longrightarrow> e \<noteq> TraceErr m"
  by (auto simp: loads_def strict_json_error_def split: sum.split_asm)

lemma to_dict_errors:
  "harness_to_dict h = Inl e \<Longrightarrow> e \<noteq> TraceErr m"
  "fingerprint h = Inl e \<Longrightarrow> e \<noteq> TraceErr m"
  "error_record_to_dict er = Inl e \<Longrightarrow> e \<noteq> TraceErr m"
  "fault_to_dict f = Inl e \<Longrightarrow> e \<noteq> TraceErr m"
  by (auto simp: ebind_eq_Inl harness_to_dict_def harness_canonical_json_def fingerprint_def sha_value_def
      error_record_to_dict_def fault_to_dict_def Let_def dest: dumps_error loads_error split: option.split_asm)

lemma config_to_dict_error: "config_to_dict c = Inl e \<Longrightarrow> e \<noteq> TraceErr m"
  by (auto simp: ebind_eq_Inl config_to_dict_def config_value_def
      dest: dumps_error loads_error to_dict_errors split: option.split_asm)

lemma payload_to_dict_error: "payload_to_dict p = Inl e \<Longrightarrow> e \<noteq> TraceErr m"
  by (cases p)
     (auto simp: ebind_eq_Inl run_started_dict_def branch_started_dict_def execution_to_dict_def
        host_failure_to_dict_def decision_to_dict_def
        dest: config_to_dict_error to_dict_errors split: option.split_asm recovery_decision.split_asm)

text \<open>C38: the payload schema is derived exactly when the payload types are in one-to-one correspondence with the event
  kinds; for the program's thirteen types it is derived, it maps each kind to the fields of its payload, and no payload
  can fail the recorder's field check.\<close>

theorem trace_payloads_typed:
  "(is_ok (trace_payload_schema types) \<longleftrightarrow> distinct (map fst types) \<and> set (map fst types) = UNIV)
   \<and> trace_payload_schema trace_payload_types = Inr (map (\<lambda>k. (event_kind_value k, payload_fields k)) trace_event_kinds)
   \<and> build_event r p branch_id depth parent now
       \<noteq> Inl (TraceErr (''trace payload fields do not match '' @ event_kind_value (payload_kind p)))"
proof (intro conjI)
  have all: "set trace_event_kinds = UNIV" using trace_event_kinds_all by blast
  show "is_ok (trace_payload_schema types) \<longleftrightarrow> distinct (map fst types) \<and> set (map fst types) = UNIV"
    using schema_entries_ok [of "[]" types] by (auto simp: trace_payload_schema_def is_ok_iff ebind_eq_Inr Let_def all)
  show "build_event r p branch_id depth parent now
       \<noteq> Inl (TraceErr (''trace payload fields do not match '' @ event_kind_value (payload_kind p)))"
  proof (cases "payload_to_dict p")
    case (Inl e)
    then have "e \<noteq> TraceErr m" for m using payload_to_dict_error by blast
    then show ?thesis using Inl by (auto simp: build_event_def ebind_eq_Inl validate_trace_event_def)
  next
    case (Inr d)
    define ev where "ev = event_to_dict \<lparr>te_run_id = rc_run_id r, te_event_id = event_name (rc_next_id r),
                    te_parent_event_id = parent, te_branch_id = branch_id, te_depth = depth,
                    te_timestamp = now, te_type = event_kind_value (payload_kind p), te_payload = d\<rparr>"
    have "build_event r p branch_id depth parent now =
        ebind (validate_trace_event r p parent) (\<lambda>_.
          case json_compatibility_error (PDict ev) of
            Some e \<Rightarrow> Inl (TraceErr (''trace event requires strict JSON: '' @ e))
          | None \<Rightarrow> ebind (dumps compact (PDict ev)) (\<lambda>t. Inr (ev, t)))"
      unfolding ev_def using payload_to_dict_keys [OF Inr] Inr by (simp add: build_event_def Let_def del: set_map)
    then show ?thesis
      by (auto simp: ebind_eq_Inl validate_trace_event_def dest: dumps_error split: option.split_asm if_split_asm)
  qed
qed (rule trace_payload_schema_ok)

section \<open>What a recorder has written\<close>

lemma read_pos_padded: "read_pos (replicate n CHR ''0'' @ s) = read_pos s"
proof -
  have "foldl (\<lambda>n c. 10 * n + digit_val c) 0 (replicate n CHR ''0'') = 0"
    by (induction n) (simp_all add: digit_val_def)
  then show ?thesis by (simp add: read_pos_def)
qed

lemma event_name_inject [simp]: "event_name m = event_name n \<longleftrightarrow> m = n"
proof
  assume "event_name m = event_name n"
  then have "read_pos (pad_left 6 CHR ''0'' (show_nat m)) = read_pos (pad_left 6 CHR ''0'' (show_nat n))"
    by (simp add: event_name_def)
  then show "m = n" by (simp add: pad_left_def read_pos_padded)
qed simp

text \<open>The event at position \<open>i\<close> of the file, and the whole file.\<close>

definition trace_event_ok :: "string \<Rightarrow> nat \<Rightarrow> dict \<Rightarrow> bool" where
  "trace_event_ok run_id i ev \<longleftrightarrow>
     keys ev = TRACE_ENVELOPE_FIELDS \<and> json_data (PDict ev)
     \<and> pget ev ''schema_version'' = PStr TRACE_SCHEMA_VERSION
     \<and> pget ev ''run_id'' = PStr run_id \<and> pget ev ''event_id'' = PStr (event_name i)
     \<and> (\<exists>k d. pget ev ''type'' = PStr (event_kind_value k) \<and> pget ev ''payload'' = PDict d \<and> keys d = payload_fields k
          \<and> (i = 0 \<longrightarrow> k = RUN_STARTED \<and> pget ev ''parent_event_id'' = PNone))
     \<and> (0 < i \<longrightarrow> (\<exists>j<i. pget ev ''parent_event_id'' = PStr (event_name j)))"

definition recorded :: "recorder \<Rightarrow> dict list \<Rightarrow> bool" where
  "recorded r evs \<longleftrightarrow>
     length evs = rc_next_id r \<and> rc_event_ids r = rev (map event_name [0..<rc_next_id r])
     \<and> rc_lines r = map (\<lambda>ev. encode compact 0 (PDict ev)) evs
     \<and> rc_events r = (if rc_markdown r then evs else [])
     \<and> (\<forall>i<length evs. trace_event_ok (rc_run_id r) i (evs ! i))"

lemma build_event_Inr:
  assumes "build_event r p b d parent now = Inr (ev, line)" "recorded r evs"
  shows "trace_event_ok (rc_run_id r) (rc_next_id r) ev" "line = encode compact 0 (PDict ev)"
proof -
  obtain v where v: "payload_to_dict p = Inr v" and par: "validate_trace_event r p parent = Inr ()"
    and ev: "ev = event_to_dict \<lparr>te_run_id = rc_run_id r, te_event_id = event_name (rc_next_id r),
                    te_parent_event_id = parent, te_branch_id = b, te_depth = d,
                    te_timestamp = now, te_type = event_kind_value (payload_kind p), te_payload = v\<rparr>"
    and j: "json_compatibility_error (PDict ev) = None" and l: "dumps compact (PDict ev) = Inr line"
    using assms(1) by (auto simp: build_event_def ebind_eq_Inr Let_def split: if_split_asm option.split_asm)
  have json: "json_data (PDict ev)" using j by simp
  show "line = encode compact 0 (PDict ev)"
    using l dumps_ok [OF json, of compact] by (simp add: compact_def)
  have ids: "rc_event_ids r = rev (map event_name [0..<rc_next_id r])" using assms(2) by (simp add: recorded_def)
  have "rc_next_id r = 0 \<longrightarrow> payload_kind p = RUN_STARTED \<and> parent = None"
    "0 < rc_next_id r \<longrightarrow> (\<exists>j<rc_next_id r. parent = Some (event_name j))"
    using par unfolding validate_trace_event_def ids by (auto split: if_split_asm)
  then show "trace_event_ok (rc_run_id r) (rc_next_id r) ev"
    using json payload_to_dict_keys [OF v]
    by (auto simp: trace_event_ok_def ev event_to_dict_def TRACE_ENVELOPE_FIELDS_def pget_def opt_str_def)
qed

lemma record_event_recorded:
  assumes "record_event r p b d parent now w = (r', res)" "recorded r evs" "io_wrote w \<Longrightarrow> w = IoOk"
  shows "\<exists>new. recorded r' (evs @ new) \<and> rc_run_id r' = rc_run_id r \<and> rc_closed r' = rc_closed r
     \<and> rc_files r' = rc_files r \<and> (rc_closed r \<longrightarrow> r' = r)
     \<and> (\<forall>i. res = Inr i \<longrightarrow> i = event_name (rc_next_id r) \<and> i \<in> set (rc_event_ids r') \<and> length new = 1)"
proof (cases "rc_closed r \<or> is_ok (build_event r p b d parent now) = False \<or> w \<noteq> IoOk")
  case True
  then have "r' = r \<and> \<not> is_ok res"
    using assms(1,3) by (cases w) (auto simp: record_event_def is_ok_iff split: sum.split_asm if_split_asm)
  then show ?thesis using assms(2) by (intro exI [of _ "[]"]) auto
next
  case False
  then obtain ev line where b: "build_event r p b d parent now = Inr (ev, line)" by (auto simp: is_ok_iff)
  note ok = build_event_Inr [OF b assms(2)]
  have "r' = r\<lparr>rc_lines := rc_lines r @ [line], rc_next_id := Suc (rc_next_id r),
      rc_event_ids := event_name (rc_next_id r) # rc_event_ids r,
      rc_events := (if rc_markdown r then rc_events r @ [ev] else rc_events r)\<rparr>"
    "res = Inr (event_name (rc_next_id r))"
    using assms(1) False b by (auto simp: record_event_def Let_def)
  with ok assms(2) False show ?thesis
    by (intro exI [of _ "[ev]"]) (auto simp: recorded_def nth_append less_Suc_eq)
qed

lemma put_file_Inr: "put_file name body w r = (r', Inr u) \<Longrightarrow> w = IoOk \<and> r' = r\<lparr>rc_files := AList.update name body (rc_files r)\<rparr>"
  by (cases w) (auto simp: put_file_def)

lemma put_file_fields:
  "put_file name body w r = (r', res) \<Longrightarrow> r' = r \<or> r' = r\<lparr>rc_files := AList.update name body (rc_files r)\<rparr>"
  by (auto simp: put_file_def split: if_split_asm)

lemma finish_files_fields: "finish_files io v r = (r', res) \<Longrightarrow> \<exists>fs. r' = r\<lparr>rc_files := fs\<rparr>"
proof -
  assume a: "finish_files io v r = (r', res)"
  have id: "\<exists>fs. r = r\<lparr>rc_files := fs\<rparr>" for r :: recorder by (intro exI [of _ "rc_files r"]) simp
  have put: "\<exists>fs. q' = q\<lparr>rc_files := fs\<rparr>" if "put_file n b w q = (q', x)" for n b w q q' x
    using put_file_fields [OF that] id by metis
  have wj: "\<exists>fs. q' = q\<lparr>rc_files := fs\<rparr>" if "write_json n b w q = (q', x)" for n b w q q' x
    using that put id by (auto simp: write_json_def split: sum.split_asm)
  have step: "\<exists>fs. q'' = q\<lparr>rc_files := fs\<rparr>"
    if "\<exists>fs. q' = q\<lparr>rc_files := fs\<rparr>" "\<exists>fs. q'' = q'\<lparr>rc_files := fs\<rparr>" for q q' q'' :: recorder
    using that by auto
  show ?thesis
    using a id
    by (auto simp: finish_files_def split: option.split_asm if_split_asm sum.split_asm prod.split_asm
        dest!: put wj intro: step)
qed

lemma close_recorder_fields:
  assumes "close_recorder r made io = (r', res)"
  shows "rc_closed r'" "\<exists>fs. r' = r\<lparr>rc_closed := True, rc_files := fs\<rparr>" "rc_closed r \<Longrightarrow> r' = r \<and> res = Inr ()"
proof -
  have id: "\<exists>fs. r\<lparr>rc_closed := True\<rparr> = r\<lparr>rc_closed := True, rc_files := fs\<rparr>"
    by (intro exI [of _ "rc_files r"]) simp
  have same: "r = r\<lparr>rc_closed := True, rc_files := rc_files r\<rparr>" if "rc_closed r"
    using that by (cases r) simp
  show "\<exists>fs. r' = r\<lparr>rc_closed := True, rc_files := fs\<rparr>"
  proof (cases "rc_closed r")
    case True
    then have "r' = r" using assms by (simp add: close_recorder_def)
    then show ?thesis using same [OF True] by metis
  next
    case False
    then show ?thesis
      using assms id
      by (auto simp: close_recorder_def Let_def split: sum.split_asm prod.split_asm dest: finish_files_fields)
  qed
  then show "rc_closed r'" by auto
  show "rc_closed r \<Longrightarrow> r' = r \<and> res = Inr ()" using assms by (simp add: close_recorder_def)
qed

lemma close_recorded: "close_recorder r made io = (r', res) \<Longrightarrow> recorded r evs \<Longrightarrow> recorded r' evs"
  by (drule close_recorder_fields(2)) (auto simp: recorded_def)

text \<open>Every sequence of operations, with any arguments, in which a failed write leaves no line behind.\<close>

inductive recorder_reach :: "recorder \<Rightarrow> bool" where
  start: "new_recorder config run_id base stamp opened = Inr r \<Longrightarrow> recorder_reach r"
| event: "recorder_reach r \<Longrightarrow> record_event r p b d parent now w = (r', res) \<Longrightarrow> (io_wrote w \<Longrightarrow> w = IoOk) \<Longrightarrow>
    recorder_reach r'"
| close: "recorder_reach r \<Longrightarrow> close_recorder r made io = (r', res) \<Longrightarrow> recorder_reach r'"

lemma recorder_reach_recorded: "recorder_reach r \<Longrightarrow> \<exists>evs. recorded r evs"
proof (induction rule: recorder_reach.induct)
  case (start config run_id base stamp opened r)
  then have "recorded r []"
    by (auto simp: new_recorder_def recorded_def split: if_split_asm option.split_asm)
  then show ?case ..
next
  case event
  then show ?case using record_event_recorded by blast
next
  case close
  then show ?case using close_recorded by blast
qed


text \<open>A recorder that saw one refused event and was closed by a failing manifest factory.\<close>

definition sample_recorder :: recorder where
  "sample_recorder =
     \<lparr>rc_run_id = ''r1'', rc_directory = ''/t/now-r1'', rc_markdown = False, rc_next_id = 0, rc_closed = True,
      rc_event_ids = [], rc_events = [], rc_lines = [], rc_files = []\<rparr>"

lemma sample_recorder_reach: "recorder_reach sample_recorder"
proof -
  let ?r = "sample_recorder\<lparr>rc_closed := False\<rparr>"
  let ?config = "\<lparr>tc_enabled = True, tc_directory = ''/t'', tc_markdown = False\<rparr>"
  have "new_recorder ?config ''r1'' ''/t'' ''now'' IoOk = Inr ?r"
    by (simp add: new_recorder_def sample_recorder_def)
  then have "recorder_reach ?r" by (rule recorder_reach.start)
  moreover have "record_event ?r (ControllerActionPayload ''x'') ''b'' 0 None 0 IoOk
      = (?r, Inl (TraceErr ''run.started must be the first trace event with no parent_event_id''))"
    by (simp add: record_event_def build_event_def validate_trace_event_def sample_recorder_def as_trace_error_def)
  ultimately have "recorder_reach ?r" by (rule recorder_reach.event) simp
  moreover have "close_recorder ?r (Inl (value_error ''v'')) \<lparr>ci_events = IoOk, ci_markdown = IoOk, ci_manifest = IoOk,
      ci_directory = IoOk\<rparr> = (sample_recorder, Inl (TraceErr ''trace finalize failed: v''))"
    by (simp add: close_recorder_def sample_recorder_def manifest_value_def as_trace_error_def)
  ultimately show ?thesis by (rule recorder_reach.close)
qed




section \<open>The interface of a sink\<close>

text \<open>
  What the engine relies on: an event's reference is a valid parent for the events after it, references stay valid,
  and whatever the sink is asked the set of valid parents only grows.
\<close>

locale trace_sink_contract =
  fixes emit :: "'s \<Rightarrow> trace_payload \<Rightarrow> string \<Rightarrow> nat \<Rightarrow> string option \<Rightarrow> rat \<Rightarrow> io \<Rightarrow> 's \<times> (exn + string option)"
    and parents :: "'s \<Rightarrow> string option set"
    and accepts :: "'s \<Rightarrow> trace_payload \<Rightarrow> string option \<Rightarrow> bool"
  assumes emit_grows: "emit s p b d q now w = (s', res) \<Longrightarrow> parents s \<subseteq> parents s'"
    and emit_parent: "emit s p b d q now w = (s', Inr i) \<Longrightarrow> i \<in> parents s'"
    and parents_accepted: "q \<in> parents s \<Longrightarrow> accepts s p q"
    and rejected: "\<not> accepts s p q \<Longrightarrow> \<not> is_ok (snd (emit s p b d q now w))"
begin

text \<open>A causal chain: each event has the one before it as its parent; a failure ends the chain.\<close>

fun emit_chain :: "(trace_payload \<times> string \<times> nat \<times> rat \<times> io) list \<Rightarrow> 's \<Rightarrow> string option \<Rightarrow> 's \<times> (exn + string option)" where
  "emit_chain [] s q = (s, Inr q)"
| "emit_chain ((p, b, d, now, w) # es) s q =
     (case emit s p b d q now w of
        (s', Inl e) \<Rightarrow> (s', Inl e)
      | (s', Inr i) \<Rightarrow> emit_chain es s' i)"

lemma emit_chain_parents:
  "q \<in> parents s \<Longrightarrow> emit_chain es s q = (s', res) \<Longrightarrow>
   parents s \<subseteq> parents s' \<and> (\<forall>i. res = Inr i \<longrightarrow> i \<in> parents s' \<and> (\<forall>p. accepts s' p i))"
proof (induction es arbitrary: s q)
  case Nil
  then show ?case by (auto intro: parents_accepted)
next
  case (Cons e es)
  obtain p b d now w where e: "e = (p, b, d, now, w)" by (cases e) auto
  obtain s1 x where s1: "emit s p b d q now w = (s1, x)" by fastforce
  note grows = emit_grows [OF s1]
  show ?case
  proof (cases x)
    case (Inl err)
    then show ?thesis using Cons.prems s1 grows by (auto simp: e)
  next
    case (Inr i)
    then have "i \<in> parents s1" using emit_parent s1 by blast
    then show ?thesis using Cons.IH [of i s1] Cons.prems s1 grows Inr by (auto simp: e)
  qed
qed

end

definition recorder_accepts :: "recorder \<Rightarrow> trace_payload \<Rightarrow> string option \<Rightarrow> bool" where
  "recorder_accepts r p q \<longleftrightarrow> is_ok (validate_trace_event r p q)"

fun sink_parents :: "trace_sink \<Rightarrow> string option set" where
  "sink_parents NullTraceSink = UNIV"
| "sink_parents (Recorder r) = Some ` set (rc_event_ids r)"

fun sink_accepts :: "trace_sink \<Rightarrow> trace_payload \<Rightarrow> string option \<Rightarrow> bool" where
  "sink_accepts NullTraceSink p q = True"
| "sink_accepts (Recorder r) p q = recorder_accepts r p q"

lemma record_event_ids:
  "record_event r p b d q now w = (r', res) \<Longrightarrow>
   set (rc_event_ids r) \<subseteq> set (rc_event_ids r') \<and> (\<forall>i. res = Inr i \<longrightarrow> i \<in> set (rc_event_ids r'))"
  by (auto simp: record_event_def Let_def split: if_split_asm sum.split_asm prod.split_asm option.split_asm)

lemma record_event_rejected: "\<not> recorder_accepts r p q \<Longrightarrow> \<not> is_ok (snd (record_event r p b d q now w))"
proof -
  assume "\<not> recorder_accepts r p q"
  then obtain e where "validate_trace_event r p q = Inl e"
    by (cases "validate_trace_event r p q") (auto simp: recorder_accepts_def)
  then have "build_event r p b d q now = Inl e" by (simp add: build_event_def)
  then show ?thesis by (simp add: record_event_def)
qed

interpretation sinks: trace_sink_contract sink_event sink_parents sink_accepts
proof
  fix s p b d q now w s' res
  assume e: "sink_event s p b d q now w = (s', res)"
  then show "sink_parents s \<subseteq> sink_parents s'"
    by (cases s) (auto dest!: record_event_ids split: prod.split_asm)
next
  fix s p b d q now w s' i
  assume "sink_event s p b d q now w = (s', Inr i)"
  then show "i \<in> sink_parents s'"
    by (cases s) (auto simp: ebind_eq_Inr dest: record_event_ids split: prod.split_asm)
next
  fix q s p
  assume "q \<in> sink_parents s"
  then show "sink_accepts s p q"
    by (cases s) (auto simp: recorder_accepts_def validate_trace_event_def)
next
  fix s p q b d now w
  assume "\<not> sink_accepts s p q"
  then show "\<not> is_ok (snd (sink_event s p b d q now w))"
    by (cases s) (auto simp: is_ok_iff ebind_eq_Inr split: prod.split dest: record_event_rejected [of _ p q b d now w])
qed



end
