(* ===== verification/Engine.thy ===== *)
theory Engine
  imports Effects Ledger Trace
begin

text \<open>
  \<open>rlm/engine.py\<close>: the run of one request.  A run shares one trace sink and one ledger between all
  of its branches; the world outside the program (clocks, fresh ids, file operations, backends, the Python
  worker) is an environment of functions on a state of its own, which the run threads through.  The worker's
  execution of a cell is a tree: it ends with a result, or asks the host for an operation and goes on with the
  reply.  Deep copies are identities on values.

  Batch operations run their children one after another in request order, which is one schedule of the thread
  pool; what the ledger guarantees under every schedule is the subject of the ledger theory.
\<close>

section \<open>The environment of a run\<close>

record executor_request =
  xr_request :: dict
  xr_allow_recursion :: bool
  xr_working_directory :: "string option"
  xr_startup_timeout :: rat
  xr_max_output_chars :: int
  xr_prelude_source :: "string option"

record executor =
  ex_id :: nat
  ex_abi_version :: string

datatype cell =
    CellDone "exn + execution_result"
  | CellCall host_operation host_payload rat "exn + py \<Rightarrow> cell"

record 'w environment =
  env_clock :: "'w \<Rightarrow> rat \<times> 'w"
  env_time :: "'w \<Rightarrow> rat \<times> 'w"
  env_epoch :: "'w \<Rightarrow> int \<times> 'w"
  env_hex :: "'w \<Rightarrow> string \<times> 'w"
  env_io :: "'w \<Rightarrow> io \<times> 'w"
  env_close_io :: "'w \<Rightarrow> close_io \<times> 'w"
  env_trace_open :: "trace_config \<Rightarrow> 'w \<Rightarrow> (string \<times> string \<times> io) \<times> 'w"
  env_complete :: "nat \<Rightarrow> dict \<Rightarrow> rat \<Rightarrow> model_call_context \<Rightarrow> 'w \<Rightarrow> (exn + py) \<times> 'w"
  env_executor :: "executor_request \<Rightarrow> 'w \<Rightarrow> (exn + executor) \<times> 'w"
  env_execute :: "executor \<Rightarrow> string \<Rightarrow> rat \<Rightarrow> 'w \<Rightarrow> cell \<times> 'w"
  env_executor_close :: "executor \<Rightarrow> 'w \<Rightarrow> (exn + unit) \<times> 'w"
  env_backend_label :: "nat \<Rightarrow> py \<times> string"
  env_backend_close :: "nat \<Rightarrow> 'w \<Rightarrow> (exn + unit) option \<times> 'w"

text \<open>The shared state of a run, and the variables of \<open>run\<close> that its \<open>finally\<close> clause reads.\<close>

record 'w run_state =
  st_sink :: trace_sink
  st_ledger :: ledger
  st_turns :: nat
  st_stop_reason :: string
  st_error :: "exn option"
  st_completed :: "rat option"
  st_world :: 'w

text \<open>Backends are known by their identity; the second is the controller's.\<close>

record rlm =
  rlm_backend :: nat
  rlm_controller_backend :: nat
  rlm_config :: rlm_config

text \<open>A reading of the environment, and an operation on the ledger with the clock reading it makes.\<close>

definition outside :: "('w \<Rightarrow> 'a \<times> 'w) \<Rightarrow> ('w run_state, 'a) act" where
  "outside f st = (case f (st_world st) of (x, w) \<Rightarrow> (st\<lparr>st_world := w\<rparr>, Inr x))"

definition outside_call :: "('w \<Rightarrow> (exn + 'a) \<times> 'w) \<Rightarrow> ('w run_state, 'a) act" where
  "outside_call f st = (case f (st_world st) of (r, w) \<Rightarrow> (st\<lparr>st_world := w\<rparr>, r))"

definition on_ledger :: "(ledger \<Rightarrow> ledger \<times> (exn + 'a)) \<Rightarrow> ('w run_state, 'a) act" where
  "on_ledger f st = (case f (st_ledger st) of (lg, r) \<Rightarrow> (st\<lparr>st_ledger := lg\<rparr>, r))"

definition ledger_op ::
  "'w environment \<Rightarrow> (rat \<Rightarrow> ledger \<Rightarrow> ledger \<times> (exn + 'a)) \<Rightarrow> ('w run_state, 'a) act" where
  "ledger_op env f = andthen (outside (env_clock env)) (\<lambda>now. on_ledger (f now))"

definition ledger_check :: "'w environment \<Rightarrow> ('w run_state, unit) act" where
  "ledger_check env = ledger_op env (\<lambda>now lg. (lg, check lg now))"

definition ledger_timeout :: "'w environment \<Rightarrow> rat option \<Rightarrow> ('w run_state, rat) act" where
  "ledger_timeout env cap = ledger_op env (\<lambda>now lg. (lg, timeout lg cap now))"

definition emit ::
  "'w environment \<Rightarrow> trace_payload \<Rightarrow> string \<Rightarrow> nat \<Rightarrow> string option \<Rightarrow> ('w run_state, string option) act" where
  "emit env payload branch_id depth parent =
     andthen (outside (env_time env)) (\<lambda>now.
     andthen (outside (env_io env)) (\<lambda>written. \<lambda>st.
       case sink_event (st_sink st) payload branch_id depth parent now written of
         (sink, r) \<Rightarrow> (st\<lparr>st_sink := sink\<rparr>, r)))"

text \<open>\<open>with ledger.model_slot(): body\<close>\<close>

definition model_slot :: "'w environment \<Rightarrow> ('w run_state, 'a) act \<Rightarrow> ('w run_state, 'a) act" where
  "model_slot env body =
     andthen (ledger_check env) (\<lambda>_.
     andthen (ledger_op env (\<lambda>now lg. case take_slot lg of
         Some lg' \<Rightarrow> (lg', Inr ()) | None \<Rightarrow> (lg, Inl (deadline_error lg now)))) (\<lambda>_.
     finally_act
       (andthen (ledger_op env enter_slot) (\<lambda>_.
          finally_act body (on_ledger (\<lambda>lg. (leave_slot lg, Inr ())))))
       (on_ledger (\<lambda>lg. (release_slot lg, Inr ())))))"

section \<open>Requests\<close>

definition request_object :: "py \<Rightarrow> exn + dict" where
  "request_object value =
     (case as_dict value of
        None \<Rightarrow> Inl (InvalidRequest (''model request must be an object, got '' @ type_name value)
                  ''invalid_request'' (Some ''request''))
      | Some d \<Rightarrow> Inr d)"

definition validate_request :: "py \<Rightarrow> exn + dict" where
  "validate_request request =
     ebind (request_object request) (\<lambda>body.
       case json_compatibility_error (PDict body) of
         Some e \<Rightarrow> Inl (InvalidRequest (''request must be strict JSON: '' @ e)
                     ''invalid_json_value'' (Some ''request''))
       | None \<Rightarrow>
           if \<not> (case pget body ''model'' of PStr s \<Rightarrow> strip s \<noteq> [] | _ \<Rightarrow> False)
           then Inl (InvalidRequest ''a model is required'' ''invalid_request'' (Some ''model''))
           else if ''stream'' \<in> set (keys body) \<and> pget body ''stream'' \<noteq> PBool False
           then Inl (InvalidRequest ''RLM does not support streaming''
                      ''streaming_not_supported'' (Some ''stream''))
           else if pget body ''background'' = PBool True
           then Inl (InvalidRequest ''RLM does not support background responses''
                      ''background_not_supported'' (Some ''background''))
           else Inr body)"

definition request_list :: "py \<Rightarrow> exn + dict list" where
  "request_list value =
     (case as_list value of
        None \<Rightarrow> Inl (InvalidRequest ''requests must be a list of objects''
                  ''invalid_request'' (Some ''requests''))
      | Some items \<Rightarrow> emap validate_request items)"

definition require_response_object :: "py \<Rightarrow> exn + dict" where
  "require_response_object response =
     (case as_dict response of
        None \<Rightarrow> Inl (BackendProtocol (''backend returned '' @ type_name response @ '', expected an object''))
      | Some d \<Rightarrow>
          (case json_compatibility_error response of
             Some e \<Rightarrow> Inl (BackendProtocol (''backend returned invalid JSON: '' @ e))
           | None \<Rightarrow> Inr d))"

section \<open>Deadlines of host calls\<close>

definition remaining_action_timeout :: "'w environment \<Rightarrow> rat option \<Rightarrow> ('w run_state, rat option) act" where
  "remaining_action_timeout env action_deadline =
     (case action_deadline of
        None \<Rightarrow> ret None
      | Some d \<Rightarrow> andthen (outside (env_clock env)) (\<lambda>now.
          if d - now \<le> 0 then raise (ExecutionTimeout 0) else ret (Some (d - now))))"

definition action_timeout_cap :: "'w environment \<Rightarrow> rat \<Rightarrow> rat option \<Rightarrow> ('w run_state, rat) act" where
  "action_timeout_cap env cap action_deadline =
     andthen (remaining_action_timeout env action_deadline) (\<lambda>remaining.
       ret (case remaining of None \<Rightarrow> cap | Some r \<Rightarrow> min cap r))"

definition check_action_deadline :: "'w environment \<Rightarrow> rat option \<Rightarrow> ('w run_state, unit) act" where
  "check_action_deadline env action_deadline =
     andthen (remaining_action_timeout env action_deadline) (\<lambda>_. ret ())"

section \<open>One model call\<close>

definition engine_error_record :: "exn \<Rightarrow> error_record" where
  "engine_error_record e = error_record_for_exception e ''engine''"

text \<open>\<open>a or b\<close> on event references\<close>

definition or_parent :: "string option \<Rightarrow> string option \<Rightarrow> string option" where
  "or_parent a b = (if a = None \<or> a = Some [] then b else a)"

text \<open>The status checks after the envelope was accepted.\<close>

definition response_failure :: "dict \<Rightarrow> exn + unit" where
  "response_failure response =
     (let status = the (as_str (pget response ''status''))
      in if status \<in> {''queued'', ''in_progress''}
         then Inl (BackendProtocol (''backend response has nonterminal status '' @ py_repr status))
         else if status \<in> {''failed'', ''cancelled''}
         then let err = pget response ''error'';
                  message = (case err of
                     PDict d \<Rightarrow> (case as_str (pget d ''message'') of
                         Some m \<Rightarrow> m | None \<Rightarrow> ''backend response was '' @ status)
                   | _ \<Rightarrow> ''backend response was '' @ status)
              in Inl (BackendResponse message (Some [(''response_error'', err)]))
         else Inr ())"

text \<open>The \<open>except BaseException\<close> clause of the call.\<close>

definition model_failed ::
  "'w environment \<Rightarrow> model_call_context \<Rightarrow> string \<Rightarrow> nat \<Rightarrow> rat \<Rightarrow> string option \<Rightarrow> exn \<Rightarrow> ('w run_state, 'a) act" where
  "model_failed env context branch_id depth started parent exc =
     andthen (lift (ebind (error_record_to_dict (engine_error_record exc)) (\<lambda>d.
                error_record_from_dict (PDict d)))) (\<lambda>record.
     andthen (outside (env_clock env)) (\<lambda>now.
     andthen (emit env (ModelFailedPayload context (now - started) record) branch_id depth parent) (\<lambda>failed_event.
       if is_exception exc
       then andthen (lift (trace_causal_parent failed_event)) (\<lambda>causal. raise (RemoteErr record causal))
       else raise exc)))"

text \<open>The part of the call before its response is recorded, and the part after.\<close>

definition obtain_response ::
  "'w environment \<Rightarrow> nat \<Rightarrow> dict \<Rightarrow> model_call_context \<Rightarrow> string \<Rightarrow> nat \<Rightarrow> string option \<Rightarrow> rat \<Rightarrow> rat option
     \<Rightarrow> ('w run_state, dict \<times> string option) act" where
  "obtain_response env backend request context branch_id depth request_event started action_deadline =
     andthen (model_slot env
       (andthen (remaining_action_timeout env action_deadline) (\<lambda>cap.
        andthen (ledger_timeout env cap) (\<lambda>t.
          outside_call (env_complete env backend request t context))))) (\<lambda>raw.
     andthen (lift (require_response_object raw)) (\<lambda>response.
     andthen (outside (env_clock env)) (\<lambda>now.
     andthen (emit env (ModelResponsePayload context (now - started) response) branch_id depth request_event) (\<lambda>response_event.
       ret (response, response_event)))))"

definition settle_response :: "'w environment \<Rightarrow> dict \<Rightarrow> rat option \<Rightarrow> ('w run_state, unit) act" where
  "settle_response env response action_deadline =
     andthen (check_action_deadline env action_deadline) (\<lambda>_.
     andthen (ledger_check env) (\<lambda>_.
     andthen (case validate_response_envelope (PDict response) of
                Some e \<Rightarrow> raise (BackendProtocol e) | None \<Rightarrow> ret ()) (\<lambda>_.
     andthen (on_ledger (record_response response)) (\<lambda>_.
       lift (response_failure response)))))"

definition call_model ::
  "'w environment \<Rightarrow> nat \<Rightarrow> dict \<Rightarrow> string \<Rightarrow> string \<Rightarrow> nat \<Rightarrow> string option \<Rightarrow> model_role \<Rightarrow> rat option
     \<Rightarrow> ('w run_state, dict \<times> string option) act" where
  "call_model env backend request run_id branch_id depth parent role action_deadline =
     andthen (ledger_op env reserve_model_call) (\<lambda>_.
     andthen (outside (env_hex env)) (\<lambda>call_id.
     let context = \<lparr>mc_run_id = run_id, mc_branch_id = branch_id, mc_call_id = call_id,
                    mc_role = role, mc_depth = depth\<rparr>
     in andthen (emit env (ModelRequestPayload context request) branch_id depth parent) (\<lambda>request_event.
        andthen (outside (env_clock env)) (\<lambda>started.
        andthen
          (catch (obtain_response env backend request context branch_id depth request_event started action_deadline)
             (model_failed env context branch_id depth started request_event)) (\<lambda>(response, response_event).
        andthen
          (catch (settle_response env response action_deadline)
             (model_failed env context branch_id depth started (or_parent response_event request_event))) (\<lambda>_.
          ret (response, response_event)))))))"

section \<open>Recovery, final submissions, execution faults\<close>

record branch_result =
  br_response :: dict
  br_stop_reason :: string
  br_turns :: nat
  br_event :: "string option"

definition repair ::
  "'w environment \<Rightarrow> rlm_config \<Rightarrow> controller_fault \<Rightarrow> execution_result option \<Rightarrow> nat \<Rightarrow> conversation
     \<Rightarrow> string option \<Rightarrow> string \<Rightarrow> nat \<Rightarrow> ('w run_state, conversation \<times> string option) act" where
  "repair env config fault execution turn cv causal branch_id depth =
     andthen (lift (decide (hs_recovery (cfg_harness config)) fault (int turn))) (\<lambda>decision.
     andthen (emit env (RecoveryDecisionPayload (int turn) decision) branch_id depth causal) (\<lambda>decision_event.
       case decision of
         Abort f \<Rightarrow>
           andthen (lift (trace_causal_parent decision_event)) (\<lambda>parent.
           andthen (lift (fault_to_dict fault)) (\<lambda>d.
             raise (RecoveryAborted (cf_fault_message fault) d parent)))
       | Repair f \<Rightarrow>
           andthen (lift (controller_observation (hs_observation (cfg_harness config)) (Some fault) execution
                     (max_observation_chars (cfg_limits config)))) (\<lambda>observation.
           andthen (lift (append_observation cv observation)) (\<lambda>cv'.
           andthen (emit env (RepairPayload (int turn) fault (PDict observation)) branch_id depth decision_event) (\<lambda>event.
             ret (cv', event))))))"

definition submitted_final ::
  "'w environment \<Rightarrow> dict \<Rightarrow> execution_result \<Rightarrow> string \<Rightarrow> nat \<Rightarrow> string option \<Rightarrow> nat
     \<Rightarrow> ('w run_state, branch_result option) act" where
  "submitted_final env request execution branch_id depth parent turn =
     (case er_submission execution of
        None \<Rightarrow> ret None
      | Some submitted \<Rightarrow>
          andthen (case submitted of
              ResponseSubmission response \<Rightarrow>
                (case validate_terminal_response (PDict response) of
                   Some e \<Rightarrow> raise (protocol_error e)
                 | None \<Rightarrow> ret (response, ''final_response''))
            | TextSubmission text \<Rightarrow>
                if requires_complete_response request
                then raise (protocol_error ''this request requires FINAL_RESPONSE, not FINAL_TEXT'')
                else
                  andthen read_state (\<lambda>st.
                  andthen (outside (env_hex env)) (\<lambda>resp_hex.
                  andthen (outside (env_epoch env)) (\<lambda>created_at.
                  andthen (outside (env_hex env)) (\<lambda>msg_hex.
                  andthen (lift (text_response resp_hex msg_hex created_at request text (snapshot (st_ledger st)))) (\<lambda>response.
                    ret (response, ''final_text'')))))))
            (\<lambda>(response, stop_reason).
          andthen (emit env (BranchCompletedPayload stop_reason response) branch_id depth parent) (\<lambda>event.
            ret (Some \<lparr>br_response = response, br_stop_reason = stop_reason, br_turns = turn, br_event = event\<rparr>))))"

definition raise_host_failure :: "execution_result \<Rightarrow> exn + unit" where
  "raise_host_failure execution =
     (case er_host_failure execution of
        None \<Rightarrow> Inr ()
      | Some failure \<Rightarrow>
          (case hf_causal_parent failure of
             None \<Rightarrow> Inl (RemoteErr (hf_error failure) None)
           | Some parent \<Rightarrow> ebind (trace_causal_parent (Some parent)) (\<lambda>causal.
               Inl (RemoteErr (hf_error failure) causal))))"

fun fault_kind_for_execution_exception :: "execution_fault_kind \<Rightarrow> fault_kind" where
  "fault_kind_for_execution_exception EFModelOutput = ModelOutputKind"
| "fault_kind_for_execution_exception EFFinalSubmission = FinalSubmissionKind"
| "fault_kind_for_execution_exception EFExecution = ExecutionFault"

text \<open>\<open>executor.execute(code, action_handler=handler)\<close>\<close>

primrec run_cell ::
  "(host_operation \<Rightarrow> host_payload \<Rightarrow> rat \<Rightarrow> ('s, py) act) \<Rightarrow> cell \<Rightarrow> ('s, execution_result) act" where
  "run_cell handler (CellDone r) = lift r"
| "run_cell handler (CellCall op payload t k) =
     (\<lambda>st. case handler op payload t st of (st', reply) \<Rightarrow> run_cell handler (k reply) st')"

section \<open>Batches\<close>

text \<open>The outcomes of the submitted children, in input order; an infrastructure exception ends the collection.\<close>

fun settle_children :: "('a \<Rightarrow> ('s, 'b) act) \<Rightarrow> 'a list \<Rightarrow> ('s, (exn + 'b) list) act" where
  "settle_children f [] = ret []"
| "settle_children f (v # vs) = (\<lambda>st.
     case f v st of
       (st', Inr x) \<Rightarrow> andthen (settle_children f vs) (\<lambda>rs. ret (Inr x # rs)) st'
     | (st', Inl e) \<Rightarrow>
         if is_exception e then andthen (settle_children f vs) (\<lambda>rs. ret (Inl e # rs)) st'
         else (st', Inl e))"

definition parallel_map :: "('a \<Rightarrow> ('s, 'b) act) \<Rightarrow> 'a list \<Rightarrow> ('s, 'b list) act" where
  "parallel_map f vs =
     (if vs = [] then ret []
      else andthen (settle_children f vs) (\<lambda>outcomes. lift (emap (\<lambda>r. r) outcomes)))"

section \<open>Host operations\<close>

definition ensure_recursion :: "rlm_config \<Rightarrow> nat \<Rightarrow> exn + unit" where
  "ensure_recursion config depth =
     ensure (int depth < max_depth (cfg_limits config))
       (LimitExceeded (''recursive depth '' @ show_nat (depth + 1) @ '' exceeds max_depth=''
          @ show_int (max_depth (cfg_limits config))) ''max_depth_exceeded'')"

definition child_branch_id :: "string \<Rightarrow> string" where
  "child_branch_id hex = ''branch-'' @ take 12 hex"

text \<open>The run a host call belongs to, and the branch: \<open>child\<close> runs a branch one level below.\<close>

record run_context =
  rx_rlm :: rlm
  rx_config :: rlm_config
  rx_run_id :: string

type_synonym 'w branch_runner =
  "dict \<Rightarrow> nat \<Rightarrow> string \<Rightarrow> string option \<Rightarrow> rat option \<Rightarrow> ('w run_state, branch_result) act"

definition run_child ::
  "'w environment \<Rightarrow> 'w branch_runner \<Rightarrow> nat \<Rightarrow> string option \<Rightarrow> rat \<Rightarrow> dict \<Rightarrow> ('w run_state, py) act" where
  "run_child env child depth parent action_deadline body =
     andthen (outside (env_hex env)) (\<lambda>hex.
     andthen (child body (depth + 1) (child_branch_id hex) parent (Some action_deadline)) (\<lambda>result.
       ret (PDict (br_response result))))"

definition complete_one ::
  "'w environment \<Rightarrow> run_context \<Rightarrow> nat \<Rightarrow> string \<Rightarrow> string option \<Rightarrow> rat \<Rightarrow> model_role \<Rightarrow> dict \<Rightarrow> ('w run_state, py) act" where
  "complete_one env rx depth branch_id parent action_deadline role body =
     andthen (call_model env (rlm_backend (rx_rlm rx)) body (rx_run_id rx) branch_id depth parent role
                (Some action_deadline)) (\<lambda>(response, _). ret (PDict response))"

text \<open>The request of a call: the public one when none is supplied.\<close>

definition supplied_body :: "dict \<Rightarrow> dict option \<Rightarrow> exn + dict" where
  "supplied_body public_request supplied =
     (case supplied of None \<Rightarrow> Inr public_request | Some r \<Rightarrow> validate_request (PDict r))"

text \<open>\<open>repr\<close> of an operation\<close>

fun operation_name :: "host_operation \<Rightarrow> string" where
  "operation_name ModelComplete = ''MODEL_COMPLETE''"
| "operation_name ModelCompleteBatch = ''MODEL_COMPLETE_BATCH''"
| "operation_name RlmComplete = ''RLM_COMPLETE''"
| "operation_name RlmCompleteBatch = ''RLM_COMPLETE_BATCH''"

definition operation_repr :: "host_operation \<Rightarrow> string" where
  "operation_repr op = ''<HostOperation.'' @ operation_name op @ '': '' @ py_repr (operation_value op) @ ''>''"

definition handle_action ::
  "'w environment \<Rightarrow> run_context \<Rightarrow> 'w branch_runner \<Rightarrow> dict \<Rightarrow> nat \<Rightarrow> string \<Rightarrow> string option \<Rightarrow> rat
     \<Rightarrow> host_operation \<Rightarrow> host_payload \<Rightarrow> ('w run_state, py) act" where
  "handle_action env rx child public_request depth branch_id parent action_deadline op payload =
     (case (op, payload) of
        (ModelComplete, RequestPayload supplied) \<Rightarrow>
          andthen (ledger_op env (\<lambda>now. reserve_subcalls now 1)) (\<lambda>_.
          andthen (lift (supplied_body public_request supplied)) (\<lambda>body.
            complete_one env rx depth branch_id parent action_deadline
              (if supplied = None then Public else Subcall) body))
      | (ModelCompleteBatch, BatchPayload requests) \<Rightarrow>
          andthen (lift (request_list (PList (map PDict requests)))) (\<lambda>bodies.
          andthen (ledger_op env (\<lambda>now. reserve_subcalls now (int (length bodies)))) (\<lambda>_.
          andthen (parallel_map (complete_one env rx depth branch_id parent action_deadline Subcall) bodies) (\<lambda>rs.
            ret (PList rs))))
      | (RlmComplete, RequestPayload supplied) \<Rightarrow>
          andthen (lift (ensure_recursion (rx_config rx) depth)) (\<lambda>_.
          andthen (ledger_op env (\<lambda>now. reserve_subcalls now 1)) (\<lambda>_.
          andthen (lift (supplied_body public_request supplied)) (\<lambda>body.
            run_child env child depth parent action_deadline body)))
      | (RlmCompleteBatch, BatchPayload requests) \<Rightarrow>
          andthen (lift (ensure_recursion (rx_config rx) depth)) (\<lambda>_.
          andthen (lift (request_list (PList (map PDict requests)))) (\<lambda>bodies.
          andthen (ledger_op env (\<lambda>now. reserve_subcalls now (int (length bodies)))) (\<lambda>_.
          andthen (parallel_map (run_child env child depth parent action_deadline) bodies) (\<lambda>rs.
            ret (PList rs)))))
      | _ \<Rightarrow> raise (HarnessContract (''invalid typed host operation/payload combination: ''
                 @ operation_repr op)))"

text \<open>The closure \<open>handle\<close> of a turn.\<close>

definition turn_handler ::
  "'w environment \<Rightarrow> run_context \<Rightarrow> 'w branch_runner \<Rightarrow> dict \<Rightarrow> nat \<Rightarrow> string \<Rightarrow> string option
     \<Rightarrow> host_operation \<Rightarrow> host_payload \<Rightarrow> rat \<Rightarrow> ('w run_state, py) act" where
  "turn_handler env rx child request depth branch_id action_event op payload t =
     andthen (outside (env_clock env)) (\<lambda>now.
     andthen (handle_action env rx child request depth branch_id action_event (now + t) op payload) (\<lambda>value.
     andthen (ledger_check env) (\<lambda>_. ret value)))"

section \<open>The loop of a branch\<close>

text \<open>\<open>config.controller.model or str(request["model"])\<close>\<close>

definition controller_model_of :: "rlm_config \<Rightarrow> dict \<Rightarrow> string" where
  "controller_model_of config request =
     (case cc_model (cfg_controller config) of
        Some (c # cs) \<Rightarrow> c # cs
      | _ \<Rightarrow> str_value (pget request ''model''))"

definition note_turn :: "nat \<Rightarrow> nat \<Rightarrow> ('w run_state, unit) act" where
  "note_turn depth turn st = (if depth = 0 then st\<lparr>st_turns := turn\<rparr> else st, Inr ())"

datatype turn_outcome = Continue conversation "string option" | Final branch_result

text \<open>A recoverable fault: the turn is repaired, or the run is aborted.\<close>

definition recover ::
  "'w environment \<Rightarrow> rlm_config \<Rightarrow> exn + controller_fault \<Rightarrow> execution_result option \<Rightarrow> nat \<Rightarrow> conversation
     \<Rightarrow> string option \<Rightarrow> string \<Rightarrow> nat \<Rightarrow> ('w run_state, turn_outcome) act" where
  "recover env config made execution turn cv causal branch_id depth =
     andthen (lift made) (\<lambda>fault.
     andthen (repair env config fault execution turn cv causal branch_id depth) (\<lambda>(cv', parent).
       ret (Continue cv' parent)))"

text \<open>What follows an executed cell that returned control to the controller.\<close>

definition after_execution ::
  "'w environment \<Rightarrow> rlm_config \<Rightarrow> dict \<Rightarrow> execution_result \<Rightarrow> nat \<Rightarrow> conversation \<Rightarrow> string option
     \<Rightarrow> string \<Rightarrow> nat \<Rightarrow> ('w run_state, turn_outcome) act" where
  "after_execution env config request execution turn cv execution_event branch_id depth =
     (case er_exception execution of
        Some x \<Rightarrow>
          recover env config
            (mk_fault (fault_kind_for_execution_exception (xe_fault_kind x))
               (xe_type x @ '': '' @ xe_message x) (xe_details x))
            (Some execution) turn cv execution_event branch_id depth
      | None \<Rightarrow>
          andthen
            (catch (andthen (submitted_final env request execution branch_id depth execution_event turn) (\<lambda>r. ret (Inr r)))
               (\<lambda>e. case e of ProtocolErr m cp \<Rightarrow> ret (Inl e) | _ \<Rightarrow> raise e)) (\<lambda>final.
          case final of
            Inl e \<Rightarrow>
              recover env config (mk_fault FinalSubmissionKind (exn_message e) None) (Some execution) turn cv
                execution_event branch_id depth
          | Inr (Some r) \<Rightarrow> ret (Final r)
          | Inr None \<Rightarrow>
              andthen (lift (controller_observation (hs_observation (cfg_harness config)) None (Some execution)
                        (max_observation_chars (cfg_limits config)))) (\<lambda>observation.
              andthen (lift (append_observation cv observation)) (\<lambda>cv'.
              andthen (emit env (ControllerObservationPayload (PDict observation)) branch_id depth execution_event) (\<lambda>event.
                ret (Continue cv' event))))))"

definition execute_action ::
  "'w environment \<Rightarrow> run_context \<Rightarrow> 'w branch_runner \<Rightarrow> dict \<Rightarrow> executor \<Rightarrow> nat \<Rightarrow> string \<Rightarrow> rat option \<Rightarrow> string
     \<Rightarrow> string option \<Rightarrow> ('w run_state, execution_result) act" where
  "execute_action env rx child request ex depth branch_id action_deadline src action_event =
     andthen (action_timeout_cap env (seconds_of (execution_timeout_seconds (cfg_limits (rx_config rx)))) action_deadline) (\<lambda>cap.
     andthen (ledger_timeout env (Some cap)) (\<lambda>t.
     andthen (outside (env_execute env ex src t)) (\<lambda>c.
       run_cell (turn_handler env rx child request depth branch_id action_event) c)))"

definition run_turn ::
  "'w environment \<Rightarrow> run_context \<Rightarrow> 'w branch_runner \<Rightarrow> dict \<Rightarrow> executor \<Rightarrow> nat \<Rightarrow> string \<Rightarrow> rat option
     \<Rightarrow> nat \<Rightarrow> conversation \<Rightarrow> string option \<Rightarrow> ('w run_state, turn_outcome) act" where
  "run_turn env rx child request ex depth branch_id action_deadline turn cv parent =
     (let config = rx_config rx
      in andthen (note_turn depth turn) (\<lambda>_.
         andthen (call_model env (rlm_controller_backend (rx_rlm rx))
             (controller_request cv (controller_model_of config request) (cc_options (cfg_controller config)))
             (rx_run_id rx) branch_id depth parent Controller action_deadline) (\<lambda>(response, response_event).
         let cv1 = append_response cv response
         in if pget response ''status'' = PStr ''incomplete''
            then recover env config
                   (mk_fault ModelOutputKind ''controller response is incomplete''
                      (Some [(''incomplete_details'', pget response ''incomplete_details'')]))
                   None turn cv1 response_event branch_id depth
            else case parse_action response of
              Inl (ProtocolErr m cp) \<Rightarrow>
                recover env config (mk_fault ControllerProtocolFault m None) None turn cv1 response_event branch_id depth
            | Inl e \<Rightarrow> raise e
            | Inr action \<Rightarrow>
                andthen (emit env (ControllerActionPayload (ca_code action)) branch_id depth response_event) (\<lambda>action_event.
                andthen (execute_action env rx child request ex depth branch_id action_deadline (ca_code action) action_event) (\<lambda>execution.
                andthen (emit env (ControllerExecutionPayload execution) branch_id depth action_event) (\<lambda>execution_event.
                andthen (lift (raise_host_failure execution)) (\<lambda>_.
                  after_execution env config request execution turn cv1 execution_event branch_id depth)))))))"

text \<open>The loop, by the number of turns left.\<close>

primrec run_turns ::
  "'w environment \<Rightarrow> run_context \<Rightarrow> 'w branch_runner \<Rightarrow> dict \<Rightarrow> executor \<Rightarrow> nat \<Rightarrow> string \<Rightarrow> rat option
     \<Rightarrow> nat \<Rightarrow> nat \<Rightarrow> conversation \<Rightarrow> string option \<Rightarrow> ('w run_state, branch_result option) act" where
  "run_turns env rx child request ex depth branch_id action_deadline 0 turn cv parent = ret None"
| "run_turns env rx child request ex depth branch_id action_deadline (Suc n) turn cv parent =
     andthen (run_turn env rx child request ex depth branch_id action_deadline turn cv parent) (\<lambda>outcome.
       case outcome of
         Final r \<Rightarrow> ret (Some r)
       | Continue cv' parent' \<Rightarrow>
           run_turns env rx child request ex depth branch_id action_deadline n (Suc turn) cv' parent')"

text \<open>\<open>with factory(...) as executor: body\<close>; the exception of the body wins over one of its cleanup.\<close>

definition with_executor ::
  "'w environment \<Rightarrow> executor \<Rightarrow> ('w run_state, 'a) act \<Rightarrow> ('w run_state, 'a) act" where
  "with_executor env ex body =
     andthen (catch body (\<lambda>e.
        catch (andthen (outside_call (env_executor_close env ex)) (\<lambda>_. raise e)) (\<lambda>_. raise e))) (\<lambda>x.
     andthen (outside_call (env_executor_close env ex)) (\<lambda>_. ret x))"

definition branch ::
  "'w environment \<Rightarrow> run_context \<Rightarrow> 'w branch_runner \<Rightarrow> 'w branch_runner" where
  "branch env rx child request depth branch_id parent action_deadline =
     (let config = rx_config rx; harness = cfg_harness config;
          allow_recursion = (int depth < max_depth (cfg_limits config))
      in andthen (ledger_check env) (\<lambda>_.
         andthen (check_action_deadline env action_deadline) (\<lambda>_.
         andthen (lift (render_prompt harness allow_recursion)) (\<lambda>system.
         andthen (emit env (BranchStartedPayload \<lparr>bs_request = request,
               bs_controller_model = controller_model_of config request, bs_prompt = system,
               bs_harness = harness, bs_harness_fingerprint = harness\<rparr>) branch_id depth parent) (\<lambda>branch_event.
         andthen (lift (bootstrap_message harness request (int depth))) (\<lambda>first_user.
         andthen (action_timeout_cap env 20 action_deadline) (\<lambda>cap.
         andthen (ledger_timeout env (Some cap)) (\<lambda>startup.
         andthen (outside_call (env_executor env \<lparr>xr_request = request, xr_allow_recursion = allow_recursion,
               xr_working_directory = cfg_working_directory config, xr_startup_timeout = startup,
               xr_max_output_chars = max_execution_output_chars (cfg_limits config),
               xr_prelude_source = map_option pr_source (hs_prelude harness)\<rparr>)) (\<lambda>ex.
         andthen (with_executor env ex
             (if ex_abi_version ex \<noteq> hs_abi_version harness
              then raise (HarnessContract
                     ''execution environment ABI version does not match the configured harness'')
              else run_turns env rx child request ex depth branch_id action_deadline
                     (nat (max_turns (cfg_limits config))) 1
                     (start_conversation system first_user (hs_context harness)) branch_event)) (\<lambda>result.
           case result of
             Some r \<Rightarrow> ret r
           | None \<Rightarrow> raise (LimitExceeded (''controller did not submit a final response within ''
                 @ show_int (max_turns (cfg_limits config)) @ '' turns'') ''max_turns_exceeded'')))))))))))"

text \<open>The recursion of branches, by the number of levels that may still be opened.\<close>

primrec branch_levels :: "'w environment \<Rightarrow> run_context \<Rightarrow> nat \<Rightarrow> 'w branch_runner" where
  "branch_levels env rx 0 = branch env rx (\<lambda>_ _ _ _ _. raise (PyExc ''RecursionError'' []))"
| "branch_levels env rx (Suc n) = branch env rx (branch_levels env rx n)"

definition run_branch :: "'w environment \<Rightarrow> run_context \<Rightarrow> 'w branch_runner" where
  "run_branch env rx request depth =
     branch_levels env rx (nat (max_depth (cfg_limits (rx_config rx))) - depth) request depth"

section \<open>Runs\<close>

record run_opening =
  ro_context :: run_context
  ro_request :: dict
  ro_started :: rat

text \<open>What a run or a refused request leaves: the world, and the state once there is one.\<close>

datatype ('w, 'a) run_exit = Refused exn 'w | Ended "'w run_state" "exn + 'a"

definition run_started_payload_of :: "rlm_config \<Rightarrow> dict \<Rightarrow> exn + trace_payload" where
  "run_started_payload_of config request =
     ebind (abi_digest ENVIRONMENT_ABI) (\<lambda>digest.
       Inr (RunStartedPayload \<lparr>rs_request = request, rs_effective_config = config,
         rs_harness = cfg_harness config, rs_harness_fingerprint = cfg_harness config,
         rs_trace_schema_version = TRACE_SCHEMA_VERSION, rs_environment_abi = abi_to_dict ENVIRONMENT_ABI,
         rs_environment_abi_digest = digest\<rparr>))"

text \<open>The steps of \<open>run\<close> and \<open>run_direct\<close> before there is a trace.\<close>

definition open_run ::
  "'w environment \<Rightarrow> rlm \<Rightarrow> py \<Rightarrow> 'w \<Rightarrow> 'w \<times> (exn + run_opening \<times> trace_sink \<times> ledger)" where
  "open_run env self request w =
     (case ebind (validate_request request) (\<lambda>body.
           ebind (config_snapshot (rlm_config self)) (\<lambda>config.
           ebind (validate_harness_contract (cfg_harness config)) (\<lambda>_. Inr (body, config)))) of
        Inl e \<Rightarrow> (w, Inl e)
      | Inr (body, config) \<Rightarrow>
          let (run_id, w1) = env_hex env w;
              (started, w2) = env_clock env w1;
              ((base, stamp, opened), w3) = env_trace_open env (cfg_tracing config) w2
          in case make_trace_sink (cfg_tracing config) run_id base stamp opened of
               Inl e \<Rightarrow> (w3, Inl e)
             | Inr sink \<Rightarrow>
                 let (now, w4) = env_clock env w3
                 in (w4, Inr (\<lparr>ro_context = \<lparr>rx_rlm = self, rx_config = config, rx_run_id = run_id\<rparr>,
                               ro_request = body, ro_started = started\<rparr>,
                             sink, new_ledger (cfg_limits config) now)))"

definition failure_parent_event_id :: "exn \<Rightarrow> string option" where
  "failure_parent_event_id e = (if is_rlm_error e then Option.bind (exn_causal e) (\<lambda>i. i) else None)"

text \<open>\<open>_trace_manifest\<close>; the ledger's clock is read after the run's.\<close>

definition run_manifest ::
  "run_context \<Rightarrow> exn option \<Rightarrow> string \<Rightarrow> nat \<Rightarrow> rat \<Rightarrow> dict \<Rightarrow> exn + trace_manifest" where
  "run_manifest rx error stop_reason turns duration usage =
     ebind (harness_to_dict (cfg_harness (rx_config rx))) (\<lambda>h.
     ebind (fingerprint (cfg_harness (rx_config rx))) (\<lambda>f.
     ebind (config_to_dict (rx_config rx)) (\<lambda>c.
     ebind (abi_digest ENVIRONMENT_ABI) (\<lambda>digest.
       Inr \<lparr>tm_run_id = rx_run_id rx,
            tm_status = (case error of None \<Rightarrow> TraceCompleted | Some _ \<Rightarrow> TraceFailed),
            tm_stop_reason = Some stop_reason, tm_turns = int turns, tm_duration_seconds = duration,
            tm_usage = usage, tm_error = map_option engine_error_record error, tm_harness = h,
            tm_harness_fingerprint = f, tm_effective_config = c,
            tm_environment_abi = abi_to_dict ENVIRONMENT_ABI, tm_environment_abi_digest = digest,
            tm_schema_version = TRACE_SCHEMA_VERSION\<rparr>))))"

text \<open>The \<open>finally\<close> clause; only a recorder asks for the manifest.\<close>

definition close_trace ::
  "'w environment \<Rightarrow> run_opening \<Rightarrow> ('w run_state \<Rightarrow> string) \<Rightarrow> ('w run_state, unit) act" where
  "close_trace env ro reason =
     andthen read_state (\<lambda>st.
       case st_sink st of
         NullTraceSink \<Rightarrow> ret ()
       | Recorder r \<Rightarrow>
           andthen (case st_completed st of
                      Some d \<Rightarrow> ret d
                    | None \<Rightarrow> andthen (outside (env_clock env)) (\<lambda>now. ret (now - ro_started ro))) (\<lambda>duration.
           andthen (ledger_op env (\<lambda>now lg. (lg, Inr (stats lg now)))) (\<lambda>usage.
           andthen (outside (env_close_io env)) (\<lambda>outcomes. \<lambda>st'.
             case sink_close (st_sink st')
                    (run_manifest (ro_context ro) (st_error st) (reason st) (st_turns st) duration usage) outcomes of
               (sink, res) \<Rightarrow> (st'\<lparr>st_sink := sink\<rparr>, res)))))"

fun sink_directory :: "trace_sink \<Rightarrow> string option" where
  "sink_directory NullTraceSink = None"
| "sink_directory (Recorder r) = Some (rc_directory r)"

text \<open>What follows \<open>run.completed\<close>: the duration, and the metadata of the result.\<close>

definition finish_run ::
  "'w environment \<Rightarrow> run_opening \<Rightarrow> dict \<Rightarrow> string \<Rightarrow> nat \<Rightarrow> ('w run_state, run_result) act" where
  "finish_run env ro response stop_reason turns =
     (let config = rx_config (ro_context ro)
      in andthen (outside (env_clock env)) (\<lambda>now.
         andthen (lift (canonical_duration_seconds (PFloat (Fin (now - ro_started ro))))) (\<lambda>duration.
         andthen (\<lambda>st. (st\<lparr>st_completed := Some duration\<rparr>, Inr ())) (\<lambda>_.
         andthen read_state (\<lambda>st.
           lift (ebind (sha_value (PDict (cc_options (cfg_controller config)))) (\<lambda>sha.
                 ebind (mk_controller_run_identity (controller_model_of config (ro_request ro)) sha) (\<lambda>identity.
                 ebind (fingerprint (cfg_harness config)) (\<lambda>f.
                   mk_run_result
                     \<lparr>rr_response = response, rr_run_id = rx_run_id (ro_context ro), rr_stop_reason = stop_reason,
                      rr_usage = snapshot (st_ledger st), rr_turns = turns, rr_duration = duration,
                      rr_identity = identity, rr_harness_fingerprint = f,
                      rr_trace_directory = sink_directory (st_sink st)\<rparr>)))))))))"

text \<open>The body under \<open>try\<close>, the \<open>except\<close> clause that records \<open>run.failed\<close>, and \<open>finally\<close>.\<close>

definition root_branch :: string where "root_branch = ''branch-root''"

definition fail_run ::
  "'w environment \<Rightarrow> string option \<Rightarrow> exn \<Rightarrow> ('w run_state, 'a) act" where
  "fail_run env started_event e =
     andthen (\<lambda>st. (st\<lparr>st_error := Some e\<rparr>, Inr ())) (\<lambda>_.
     andthen (emit env (RunFailedPayload (engine_error_record e)) root_branch 0
                (or_parent (failure_parent_event_id e) started_event)) (\<lambda>_. raise e))"

definition supervise ::
  "'w environment \<Rightarrow> run_opening \<Rightarrow> ('w run_state \<Rightarrow> string) \<Rightarrow> string option
     \<Rightarrow> ('w run_state, 'a) act \<Rightarrow> ('w run_state, 'a) act" where
  "supervise env ro reason started_event body =
     finally_act (catch body (fail_run env started_event)) (close_trace env ro reason)"

definition run_body ::
  "'w environment \<Rightarrow> run_opening \<Rightarrow> string option \<Rightarrow> ('w run_state, run_result) act" where
  "run_body env ro started_event =
     andthen (run_branch env (ro_context ro) (ro_request ro) 0 root_branch started_event None) (\<lambda>result.
     andthen (\<lambda>st. (st\<lparr>st_stop_reason := br_stop_reason result, st_turns := br_turns result\<rparr>, Inr ())) (\<lambda>_.
     andthen (emit env (RunCompletedPayload (br_stop_reason result) (br_response result)) root_branch 0 (br_event result)) (\<lambda>_.
       finish_run env ro (br_response result) (br_stop_reason result) (br_turns result))))"

definition direct_body ::
  "'w environment \<Rightarrow> run_opening \<Rightarrow> string option \<Rightarrow> ('w run_state, run_result) act" where
  "direct_body env ro started_event =
     andthen (call_model env (rlm_backend (rx_rlm (ro_context ro))) (ro_request ro) (rx_run_id (ro_context ro)) root_branch 0
                started_event Public None) (\<lambda>(response, response_event).
     andthen (case validate_terminal_response (PDict response) of
                Some e \<Rightarrow> raise (BackendProtocol e) | None \<Rightarrow> ret ()) (\<lambda>_.
     andthen (emit env (RunCompletedPayload ''direct'' response) root_branch 0 response_event) (\<lambda>_.
       finish_run env ro response ''direct'' 0)))"

definition direct_stop_reason :: "'w run_state \<Rightarrow> string" where
  "direct_stop_reason st = (if st_error st = None then ''direct'' else ''error'')"

definition initial_state :: "trace_sink \<Rightarrow> ledger \<Rightarrow> 'w \<Rightarrow> 'w run_state" where
  "initial_state sink lg w =
     \<lparr>st_sink = sink, st_ledger = lg, st_turns = 0, st_stop_reason = ''error'', st_error = None,
      st_completed = None, st_world = w\<rparr>"

definition recorded_run ::
  "'w environment \<Rightarrow> run_opening \<Rightarrow> ('w run_state \<Rightarrow> string)
     \<Rightarrow> (string option \<Rightarrow> ('w run_state, 'a) act) \<Rightarrow> ('w run_state, 'a) act" where
  "recorded_run env ro reason body =
     andthen (lift (run_started_payload_of (rx_config (ro_context ro)) (ro_request ro))) (\<lambda>payload.
     andthen (emit env payload root_branch 0 None) (\<lambda>started_event.
       supervise env ro reason started_event (body started_event)))"

definition run_with ::
  "(run_opening \<Rightarrow> ('w run_state, 'a) act) \<Rightarrow> 'w environment \<Rightarrow> rlm \<Rightarrow> py \<Rightarrow> 'w \<Rightarrow> ('w, 'a) run_exit" where
  "run_with act env self request w =
     (case open_run env self request w of
        (w', Inl e) \<Rightarrow> Refused e w'
      | (w', Inr (ro, sink, lg)) \<Rightarrow>
          (case act ro (initial_state sink lg w') of (st, r) \<Rightarrow> Ended st r))"

definition run :: "'w environment \<Rightarrow> rlm \<Rightarrow> py \<Rightarrow> 'w \<Rightarrow> ('w, run_result) run_exit" where
  "run env = run_with (\<lambda>ro. recorded_run env ro st_stop_reason (run_body env ro)) env"

definition run_direct :: "'w environment \<Rightarrow> rlm \<Rightarrow> py \<Rightarrow> 'w \<Rightarrow> ('w, run_result) run_exit" where
  "run_direct env = run_with (\<lambda>ro. recorded_run env ro direct_stop_reason (direct_body env ro)) env"

text \<open>\<open>complete\<close>, \<open>responses\<close> and \<open>direct\<close> return only the response.\<close>

fun only_response :: "('w, run_result) run_exit \<Rightarrow> exn + dict" where
  "only_response (Refused e w) = Inl e"
| "only_response (Ended st r) = ebind r (\<lambda>x. Inr (rr_response x))"

definition complete :: "'w environment \<Rightarrow> rlm \<Rightarrow> py \<Rightarrow> 'w \<Rightarrow> exn + dict" where
  "complete env self request w = only_response (run env self request w)"

definition direct :: "'w environment \<Rightarrow> rlm \<Rightarrow> py \<Rightarrow> 'w \<Rightarrow> exn + dict" where
  "direct env self request w = only_response (run_direct env self request w)"

section \<open>Closing\<close>

definition backend_name :: "py \<times> string \<Rightarrow> string" where
  "backend_name label = (case label of (name, class) \<Rightarrow> if nonempty_str name then the (as_str name) else class)"

fun close_backends ::
  "'w environment \<Rightarrow> nat list \<Rightarrow> close_failure list \<Rightarrow> nat list \<Rightarrow> 'w \<Rightarrow> 'w \<times> (exn + close_failure list)" where
  "close_backends env seen failures [] w = (w, Inr failures)"
| "close_backends env seen failures (b # bs) w =
     (if b \<in> set seen then close_backends env seen failures bs w
      else case env_backend_close env b w of
        (None, w') \<Rightarrow> close_backends env (b # seen) failures bs w'
      | (Some (Inr _), w') \<Rightarrow> close_backends env (b # seen) failures bs w'
      | (Some (Inl e), w') \<Rightarrow>
          if is_exception e
          then close_backends env (b # seen)
                 (failures @ [\<lparr>cf_name = backend_name (env_backend_label env b),
                    cf_exception_type = exn_class e, cf_message = exn_message e\<rparr>]) bs w'
          else (w', Inl e))"

definition close_rlm :: "'w environment \<Rightarrow> rlm \<Rightarrow> 'w \<Rightarrow> 'w \<times> (exn + unit)" where
  "close_rlm env self w =
     (case close_backends env [] [] [rlm_backend self, rlm_controller_backend self] w of
        (w', Inl e) \<Rightarrow> (w', Inl e)
      | (w', Inr failures) \<Rightarrow> (w', if failures = [] then Inr () else Inl (BackendClose failures)))"

section \<open>Shortened texts\<close>

definition truncation_marker :: "nat \<Rightarrow> string" where
  "truncation_marker omitted =
     [CHR 0x0A, CHR 0x0A] @ ''... <'' @ show_nat omitted @ '' characters omitted> ...'' @ [CHR 0x0A, CHR 0x0A]"

definition truncate_text :: "string \<Rightarrow> nat \<Rightarrow> string" where
  "truncate_text value max_chars =
     (if length value \<le> max_chars then value
      else let marker = truncation_marker (length value - max_chars)
           in if max_chars \<le> length marker then take max_chars value
              else let available = max_chars - length marker; head = available div 2
                   in take head value @ marker @ drop (length value - (available - head)) value)"

end
