(* ===== verification/Engine_Runs.thy ===== *)
theory Engine_Runs
  imports Engine
begin

text \<open>
  Theorems on single operations of the engine: the recursion of branches, batches, requests, shortened texts.
\<close>

section \<open>The recursion of branches\<close>

text \<open>A branch uses its child runner only one level below, and only while recursion is allowed.\<close>

lemma handle_action_child:
  assumes "int depth < max_depth (cfg_limits (rx_config rx)) \<Longrightarrow>
             \<forall>body. child body (depth + 1) = child' body (depth + 1)"
  shows "handle_action env rx child request depth = handle_action env rx child' request depth"
proof (cases "int depth < max_depth (cfg_limits (rx_config rx))")
  case True
  then have eq: "child body (depth + 1) = child' body (depth + 1)" for body using assms by blast
  have run: "run_child env child depth = run_child env child' depth"
    unfolding run_child_def [abs_def] eq ..
  show ?thesis unfolding handle_action_def [abs_def] run ..
next
  case False
  then obtain e where "ensure_recursion (rx_config rx) depth = Inl e"
    by (simp add: ensure_recursion_def)
  then have refused: "andthen (lift (ensure_recursion (rx_config rx) depth)) f = raise e"
    for f :: "unit \<Rightarrow> ('a run_state, py) act"
    by (intro ext) (simp add: andthen_def lift_def raise_def)
  show ?thesis unfolding handle_action_def [abs_def] refused ..
qed

lemma branch_child:
  assumes "int depth < max_depth (cfg_limits (rx_config rx)) \<Longrightarrow>
             \<forall>body. child body (depth + 1) = child' body (depth + 1)"
  shows "branch env rx child request depth = branch env rx child' request depth"
proof -
  have handler: "turn_handler env rx child request depth = turn_handler env rx child' request depth"
    by (intro ext) (simp only: turn_handler_def handle_action_child [of depth rx child child', OF assms])
  have exec: "execute_action env rx child request ex depth = execute_action env rx child' request ex depth" for ex
    by (intro ext) (simp only: execute_action_def handler)
  have turn: "run_turn env rx child request ex depth = run_turn env rx child' request ex depth" for ex
    by (intro ext) (simp only: run_turn_def exec)
  have turns: "run_turns env rx child request ex depth b d n t cv p = run_turns env rx child' request ex depth b d n t cv p"
    for ex b d n t cv p
    by (induction n arbitrary: t cv p) (simp_all only: run_turns.simps turn)
  show ?thesis by (intro ext) (simp only: branch_def turns)
qed

text \<open>C9: the levels of recursion the model provides are never exhausted: a branch at any depth behaves exactly as the
  source's recursive equation says, with every child branch again run by the same function, and a branch at the
  depth limit runs without any child.\<close>

theorem branch_recursion:
  "run_branch env rx request depth b p d = branch env rx (run_branch env rx) request depth b p d
   \<and> (max_depth (cfg_limits (rx_config rx)) \<le> int depth \<longrightarrow>
        run_branch env rx request depth b p d = branch env rx child request depth b p d)"
proof
  let ?limit = "max_depth (cfg_limits (rx_config rx))"
  have stop: "run_branch env rx request depth b p d = branch env rx child request depth b p d"
    if "?limit \<le> int depth" for child
  proof -
    have "branch env rx (\<lambda>_ _ _ _ _. raise (PyExc ''RecursionError'' [])) request depth = branch env rx child request depth"
      by (rule branch_child) (use that in simp)
    moreover have "nat ?limit - depth = 0" using that by simp
    ultimately show ?thesis by (simp add: run_branch_def)
  qed
  show "run_branch env rx request depth b p d = branch env rx (run_branch env rx) request depth b p d"
  proof (cases "int depth < ?limit")
    case False
    then show ?thesis using stop by simp
  next
    case True
    then obtain n where n: "nat ?limit - depth = Suc n" by (cases "nat ?limit - depth") simp_all
    then have "nat ?limit - (depth + 1) = n" by simp
    then have "\<forall>body. branch_levels env rx n body (depth + 1) = run_branch env rx body (depth + 1)"
      by (simp add: run_branch_def fun_eq_iff)
    then have "branch env rx (branch_levels env rx n) request depth = branch env rx (run_branch env rx) request depth"
      by (rule branch_child)
    then show ?thesis using n by (simp add: run_branch_def)
  qed
  show "?limit \<le> int depth \<longrightarrow> run_branch env rx request depth b p d = branch env rx child request depth b p d"
    using stop by blast
qed

text \<open>A branch at the depth limit of the sample configuration, in any environment, with any child runner.\<close>

definition sample_context :: run_context where
  "sample_context =
     \<lparr>rx_rlm = \<lparr>rlm_backend = 0, rlm_controller_backend = 1, rlm_config = sample_config\<rparr>,
      rx_config = sample_config, rx_run_id = ''r1''\<rparr>"

lemma branch_recursion_witness:
  "\<forall>env child. run_branch (env :: nat environment) sample_context [] 1 ''b'' None None
     = branch env sample_context child [] 1 ''b'' None None"
proof (intro allI)
  fix env :: "nat environment" and child
  have "max_depth (cfg_limits (rx_config sample_context)) \<le> int 1"
    by (simp add: sample_context_def sample_config_def)
  then show "run_branch env sample_context [] 1 ''b'' None None = branch env sample_context child [] 1 ''b'' None None"
    using branch_recursion [of env sample_context "[]" 1 "''b''" None None child] by blast
qed

section \<open>Batches\<close>

text \<open>The reference: every child is run, in order, and the outcomes are collected; the result is the first failure, if any.\<close>

fun run_all :: "('a \<Rightarrow> ('s, 'b) act) \<Rightarrow> 'a list \<Rightarrow> 's \<Rightarrow> 's \<times> (exn + 'b) list" where
  "run_all f [] st = (st, [])"
| "run_all f (v # vs) st =
     (case f v st of (st', r) \<Rightarrow> case run_all f vs st' of (st'', rs) \<Rightarrow> (st'', r # rs))"

definition infrastructure :: "exn + 'b \<Rightarrow> bool" where
  "infrastructure r \<longleftrightarrow> (case r of Inl e \<Rightarrow> \<not> is_exception e | Inr _ \<Rightarrow> False)"

definition first_failure :: "(exn + 'b) list \<Rightarrow> exn + 'b list" where
  "first_failure rs =
     (case find (\<lambda>r. \<not> is_ok r) rs of Some (Inl e) \<Rightarrow> Inl e | _ \<Rightarrow> Inr (map (\<lambda>r. the (case r of Inr x \<Rightarrow> Some x | Inl _ \<Rightarrow> None)) rs))"

lemma emap_first_failure: "emap (\<lambda>r. r) rs = first_failure rs"
proof (induction rs)
  case Nil
  then show ?case by (simp add: first_failure_def)
next
  case (Cons r rs)
  show ?case
  proof (cases r)
    case (Inl e)
    then show ?thesis by (simp add: first_failure_def)
  next
    case (Inr x)
    have "find (\<lambda>r. \<not> is_ok r) rs = Some (Inr y) \<Longrightarrow> False" for y
      by (metis find_Some_iff is_ok_simps(1))
    then show ?thesis using Cons Inr
      by (auto simp: first_failure_def split: option.split sum.split)
  qed
qed

lemma settle_children_all:
  "run_all f vs st = (st', rs) \<Longrightarrow> \<not> list_ex infrastructure rs \<Longrightarrow> settle_children f vs st = (st', Inr rs)"
proof (induction vs arbitrary: st rs)
  case Nil
  then show ?case by (simp add: ret_def)
next
  case (Cons v vs)
  obtain st1 r where r: "f v st = (st1, r)" by (cases "f v st")
  obtain st2 qs where qs: "run_all f vs st1 = (st2, qs)" by (cases "run_all f vs st1")
  have eq: "st2 = st'" "rs = r # qs" using Cons.prems(1) r qs by simp_all
  then have "settle_children f vs st1 = (st', Inr qs)" using Cons.IH [of st1 qs] qs Cons.prems(2) by simp
  then show ?case using r eq Cons.prems(2)
    by (auto simp: andthen_def ret_def infrastructure_def split: sum.split)
qed


text \<open>Three children of which the second fails: all run, its error is raised.\<close>

definition sample_child :: "nat \<Rightarrow> (nat list, nat) act" where
  "sample_child v st = (st @ [v], if v = 2 then Inl (BackendProtocol ''bad'') else Inr v)"


section \<open>Requests\<close>

text \<open>A request is accepted, unchanged, exactly when it is a strict JSON object with a model name that is not blank,
  no streaming and no background mode; every other value is refused as an InvalidRequestError (status 400) that names
  the offending parameter.\<close>

theorem validate_request_exact:
  "(validate_request v = Inr d \<longleftrightarrow>
      v = PDict d \<and> json_data v \<and> (\<exists>m. pget d ''model'' = PStr m \<and> strip m \<noteq> [])
      \<and> (dget d ''stream'' = None \<or> dget d ''stream'' = Some (PBool False))
      \<and> pget d ''background'' \<noteq> PBool True)
   \<and> (validate_request v = Inl e \<longrightarrow>
      exn_class e = ''InvalidRequestError'' \<and> exn_status e = 400
      \<and> (\<exists>p\<in>{''request'', ''model'', ''stream'', ''background''}. exn_param e = Some p))"
proof
  have st: "''stream'' \<in> set (keys d) \<and> pget d ''stream'' \<noteq> PBool False \<longleftrightarrow>
      \<not> (dget d ''stream'' = None \<or> dget d ''stream'' = Some (PBool False))" for d :: dict
    by (cases "dget d ''stream''") (auto simp: pget_def in_keys_iff simp del: set_map)
  have md: "(case u of PStr s \<Rightarrow> strip s \<noteq> [] | _ \<Rightarrow> False) \<longleftrightarrow> (\<exists>m. u = PStr m \<and> strip m \<noteq> [])" for u
    by (cases u) auto
  show "validate_request v = Inr d \<longleftrightarrow>
      v = PDict d \<and> json_data v \<and> (\<exists>m. pget d ''model'' = PStr m \<and> strip m \<noteq> [])
      \<and> (dget d ''stream'' = None \<or> dget d ''stream'' = Some (PBool False))
      \<and> pget d ''background'' \<noteq> PBool True"
  proof (cases "as_dict v")
    case None
    then show ?thesis by (auto simp: validate_request_def request_object_def)
  next
    case (Some b)
    then have v: "validate_request v =
       (case json_compatibility_error (PDict b) of
         Some e \<Rightarrow> Inl (InvalidRequest (''request must be strict JSON: '' @ e)
                     ''invalid_json_value'' (Some ''request''))
       | None \<Rightarrow>
           if \<not> (\<exists>m. pget b ''model'' = PStr m \<and> strip m \<noteq> [])
           then Inl (InvalidRequest ''a model is required'' ''invalid_request'' (Some ''model''))
           else if \<not> (dget b ''stream'' = None \<or> dget b ''stream'' = Some (PBool False))
           then Inl (InvalidRequest ''RLM does not support streaming''
                      ''streaming_not_supported'' (Some ''stream''))
           else if pget b ''background'' = PBool True
           then Inl (InvalidRequest ''RLM does not support background responses''
                      ''background_not_supported'' (Some ''background''))
           else Inr b)"
      unfolding validate_request_def md st by (simp add: request_object_def)
    have vd: "v = PDict b" using Some by simp
    show ?thesis
      by (cases "json_compatibility_error (PDict b)") (unfold v, auto simp: vd split: if_split_asm)
  qed
  show "validate_request v = Inl e \<longrightarrow>
      exn_class e = ''InvalidRequestError'' \<and> exn_status e = 400
      \<and> (\<exists>p\<in>{''request'', ''model'', ''stream'', ''background''}. exn_param e = Some p)"
  proof
    assume "validate_request v = Inl e"
    then have "\<exists>m c. \<exists>p\<in>{''request'', ''model'', ''stream'', ''background''}. e = InvalidRequest m c (Some p)"
      unfolding validate_request_def request_object_def ebind_eq_Inl
      by (elim disjE exE conjE) (force split: option.split_asm if_split_asm)+
    then show "exn_class e = ''InvalidRequestError'' \<and> exn_status e = 400
      \<and> (\<exists>p\<in>{''request'', ''model'', ''stream'', ''background''}. exn_param e = Some p)" by auto
  qed
qed

lemma validate_request_exact_witness:
  "validate_request (PDict [(''model'', PStr ''m''), (''stream'', PBool False)])
     = Inr [(''model'', PStr ''m''), (''stream'', PBool False)]
   \<and> (\<exists>e. validate_request (PDict []) = Inl e \<and> exn_status e = 400)"
proof -
  obtain e where e: "validate_request (PDict []) = Inl e"
    by (simp add: validate_request_def request_object_def)
  show ?thesis
    using validate_request_exact [of "PDict [(''model'', PStr ''m''), (''stream'', PBool False)]"
        "[(''model'', PStr ''m''), (''stream'', PBool False)]"]
      validate_request_exact [of "PDict []" _ e] e
    by (simp add: strip_def lstrip_def rstrip_def is_space_def)
qed

section \<open>Shortened texts\<close>

text \<open>A shortened text never exceeds its limit; a text within the limit is returned as it is; and a longer one that
  leaves room for the marker fills the limit exactly, with a prefix and a suffix of the text around the marker.\<close>

theorem truncate_text_bounds:
  "length (truncate_text s n) \<le> n \<and> (length s \<le> n \<longrightarrow> truncate_text s n = s)
   \<and> (n < length s \<and> length (truncation_marker (length s - n)) < n \<longrightarrow>
        length (truncate_text s n) = n
        \<and> (\<exists>h t. truncate_text s n = take h s @ truncation_marker (length s - n) @ drop (length s - t) s \<and> h + t < length s))"
proof -
  define m where "m = truncation_marker (length s - n)"
  consider "length s \<le> n" | "n < length s" "n \<le> length m" | "n < length s" "length m < n" by linarith
  then show ?thesis
  proof cases
    case 1
    then show ?thesis by (simp add: truncate_text_def)
  next
    case 2
    then show ?thesis by (simp add: truncate_text_def m_def Let_def)
  next
    case 3
    define a where "a = n - length m"
    have tr: "truncate_text s n = take (a div 2) s @ m @ drop (length s - (a - a div 2)) s"
      using 3 unfolding truncate_text_def Let_def m_def [symmetric] a_def [symmetric] by simp
    have "a < length s" using 3 by (simp add: a_def)
    then have len: "length (truncate_text s n) = n" using 3 by (simp add: tr a_def)
    moreover have "a div 2 + (a - a div 2) < length s" using \<open>a < length s\<close> by simp
    then have "\<exists>h t. truncate_text s n = take h s @ m @ drop (length s - t) s \<and> h + t < length s"
      using tr by blast
    ultimately show ?thesis using 3 len unfolding m_def by (intro conjI impI) simp_all
  qed
qed

text \<open>A hundred characters in forty.\<close>

lemma truncate_text_bounds_witness:
  "length (truncate_text (replicate 100 CHR ''a'') 40) = 40
   \<and> truncate_text ''short'' 40 = ''short''"
proof -
  have "show_nat 60 = ''60''"
    by (simp add: show_nat_def show_pos_def int_digits.simps digit_char_def char_of_def)
  then have "length (truncation_marker (length (replicate 100 CHR ''a'') - 40)) < 40"
    by (simp add: truncation_marker_def)
  then show ?thesis
    using truncate_text_bounds [of "replicate 100 CHR ''a''" 40] truncate_text_bounds [of "''short''" 40] by simp
qed

end
