(* ===== verification/Engine_Budget.thy ===== *)
theory Engine_Budget
  imports Engine
begin

text \<open>
  What every run spends and returns: the number of calls that reach a backend, for any environment, and the
  shape of the result of a branch.  A metered environment counts the calls; the engine's operations are
  shown to spend no more than they have reserved.
\<close>

lemma keepsD: "keeps R m \<Longrightarrow> m s = (t, r) \<Longrightarrow> R s t"
  by (metis keeps_def fst_conv)

section \<open>Metered environments\<close>

definition counted :: "('w \<Rightarrow> 'a \<times> 'w) \<Rightarrow> 'w \<times> nat \<Rightarrow> 'a \<times> ('w \<times> nat)" where
  "counted f wn = (case wn of (w, n) \<Rightarrow> case f w of (x, w') \<Rightarrow> (x, (w', n)))"

definition tick :: "('w \<Rightarrow> 'a \<times> 'w) \<Rightarrow> 'w \<times> nat \<Rightarrow> 'a \<times> ('w \<times> nat)" where
  "tick f wn = (case wn of (w, n) \<Rightarrow> case f w of (x, w') \<Rightarrow> (x, (w', Suc n)))"

definition metered :: "'w environment \<Rightarrow> ('w \<times> nat) environment" where
  "metered env =
     \<lparr>env_clock = counted (env_clock env), env_time = counted (env_time env), env_epoch = counted (env_epoch env),
      env_hex = counted (env_hex env), env_io = counted (env_io env), env_close_io = counted (env_close_io env),
      env_trace_open = (\<lambda>c. counted (env_trace_open env c)),
      env_complete = (\<lambda>b r t c. tick (env_complete env b r t c)),
      env_executor = (\<lambda>r. counted (env_executor env r)),
      env_execute = (\<lambda>x s t. counted (env_execute env x s t)),
      env_executor_close = (\<lambda>x. counted (env_executor_close env x)),
      env_backend_label = env_backend_label env, env_backend_close = (\<lambda>b. counted (env_backend_close env b))\<rparr>"

text \<open>A meter on the states of an environment: only completing a call moves it, by at most one.\<close>

locale metered_environment =
  fixes env :: "'w environment" and meter :: "'w \<Rightarrow> nat"
  assumes quiet:
    "meter (snd (env_clock env w)) = meter w" "meter (snd (env_time env w)) = meter w"
    "meter (snd (env_epoch env w)) = meter w" "meter (snd (env_hex env w)) = meter w"
    "meter (snd (env_io env w)) = meter w" "meter (snd (env_close_io env w)) = meter w"
    "meter (snd (env_trace_open env c w)) = meter w" "meter (snd (env_executor env r w)) = meter w"
    "meter (snd (env_execute env x s t w)) = meter w" "meter (snd (env_executor_close env x w)) = meter w"
    and complete_one_call: "meter (snd (env_complete env b q t mc w)) \<le> Suc (meter w)"
begin

text \<open>Between two states at most \<open>k\<close> calls were made beyond those reserved, and no cap was broken.\<close>

definition spends :: "int \<Rightarrow> 'w run_state \<Rightarrow> 'w run_state \<Rightarrow> bool" where
  "spends k s t \<longleftrightarrow>
     lg_limits (st_ledger t) = lg_limits (st_ledger s)
     \<and> int (meter (st_world t)) - lg_model_calls (st_ledger t)
         \<le> int (meter (st_world s)) - lg_model_calls (st_ledger s) + k
     \<and> (lg_model_calls (st_ledger s) \<le> max_model_calls (lg_limits (st_ledger s)) \<longrightarrow>
          lg_model_calls (st_ledger t) \<le> max_model_calls (lg_limits (st_ledger s)))
     \<and> (lg_subcalls (st_ledger s) \<le> max_subcalls (lg_limits (st_ledger s)) \<longrightarrow>
          lg_subcalls (st_ledger t) \<le> max_subcalls (lg_limits (st_ledger s)))"

lemma spends_trans: "spends j s t \<Longrightarrow> spends k t u \<Longrightarrow> spends (j + k) s u"
  by (auto simp: spends_def)

lemma spends_refl: "spends 0 s s"
  by (simp add: spends_def)

end

sublocale metered_environment \<subseteq> free: state_order "spends 0"
proof
  show "spends 0 s s" for s by (rule spends_refl)
  show "spends 0 s t \<Longrightarrow> spends 0 t u \<Longrightarrow> spends 0 s u" for s t u
    using spends_trans [of 0 s t 0 u] by simp
qed

context metered_environment
begin

lemma keeps_seq:
  assumes "keeps (spends j) m" "\<And>x. keeps (spends k) (f x)" "0 \<le> k"
  shows "keeps (spends (j + k)) (andthen m f)"
  unfolding keeps_def
proof
  fix s
  obtain t r where t: "m s = (t, r)" by (cases "m s")
  then have st: "spends j s t" using keepsD [OF assms(1)] by blast
  show "spends (j + k) s (fst (andthen m f s))"
  proof (cases r)
    case (Inl e)
    then show ?thesis using st t assms(3) by (auto simp: andthen_def spends_def)
  next
    case (Inr x)
    have "spends k t (fst (f x t))" using assms(2) by (simp add: keeps_def)
    then show ?thesis using st t Inr spends_trans by (auto simp: andthen_def)
  qed
qed

lemma keeps_first: "keeps (spends k) m \<Longrightarrow> (\<And>x. keeps (spends 0) (f x)) \<Longrightarrow> keeps (spends k) (andthen m f)"
  using keeps_seq [of k m 0 f] by simp

lemma keeps_second: "keeps (spends 0) m \<Longrightarrow> (\<And>x. keeps (spends 1) (f x)) \<Longrightarrow> keeps (spends 1) (andthen m f)"
  using keeps_seq [of 0 m 1 f] by simp

lemma keeps_guarded: "keeps (spends k) m \<Longrightarrow> keeps (spends 0) h \<Longrightarrow> keeps (spends k) (finally_act m h)"
  unfolding keeps_def
proof
  fix s
  assume m: "\<forall>s. spends k s (fst (m s))" and h: "\<forall>s. spends 0 s (fst (h s))"
  obtain t r where t: "m s = (t, r)" by (cases "m s")
  obtain u q where u: "h t = (u, q)" by (cases "h t")
  have "spends k s t" "spends 0 t u" using m [rule_format, of s] h [rule_format, of t] t u by simp_all
  then have "spends k s u" using spends_trans [of k s t 0 u] by simp
  then show "spends k s (fst (finally_act m h s))"
    using t u by (auto simp: finally_act_def split: sum.split)
qed

lemma keeps_rescue: "keeps (spends k) m \<Longrightarrow> (\<And>e. keeps (spends 0) (h e)) \<Longrightarrow> keeps (spends k) (catch m h)"
  unfolding keeps_def
proof
  fix s
  assume m: "\<forall>s. spends k s (fst (m s))" and h: "\<And>e. \<forall>s. spends 0 s (fst (h e s))"
  obtain t r where t: "m s = (t, r)" by (cases "m s")
  have "spends k s t" using m [rule_format, of s] t by simp
  moreover have "spends 0 t (fst (h e t))" for e using h by blast
  ultimately have "spends k s (fst (h e t))" for e using spends_trans [of k s t 0] by (metis add_0_right)
  then show "spends k s (fst (catch m h s))"
    using t \<open>spends k s t\<close> by (auto simp: catch_def split: sum.split)
qed

lemma keeps_outside: "(\<And>w. meter (snd (f w)) = meter w) \<Longrightarrow> keeps (spends 0) (outside f)"
  by (auto simp: keeps_def outside_def spends_def split: prod.split) (metis snd_conv order_refl)

lemma keeps_outside_call: "(\<And>w. meter (snd (f w)) = meter w) \<Longrightarrow> keeps (spends 0) (outside_call f)"
  by (auto simp: keeps_def outside_call_def spends_def split: prod.split) (metis snd_conv order_refl)

lemma keeps_complete: "keeps (spends 1) (outside_call (env_complete env b q t mc))"
  unfolding keeps_def
proof
  fix s
  show "spends 1 s (fst (outside_call (env_complete env b q t mc) s))"
    using complete_one_call [of b q t mc "st_world s"]
    by (cases "env_complete env b q t mc (st_world s)") (simp add: outside_call_def spends_def)
qed

lemma keeps_on_ledger:
  assumes "\<And>lg. lg_limits (fst (f lg)) = lg_limits lg \<and> lg_model_calls (fst (f lg)) = lg_model_calls lg
     \<and> (lg_subcalls lg \<le> max_subcalls (lg_limits lg) \<longrightarrow> lg_subcalls (fst (f lg)) \<le> max_subcalls (lg_limits lg))"
  shows "keeps (spends 0) (on_ledger f)"
  unfolding keeps_def
proof
  fix s
  show "spends 0 s (fst (on_ledger f s))"
    using assms [of "st_ledger s"] by (cases "f (st_ledger s)") (simp add: on_ledger_def spends_def)
qed

lemma keeps_ledger_op:
  assumes "\<And>now lg. lg_limits (fst (f now lg)) = lg_limits lg \<and> lg_model_calls (fst (f now lg)) = lg_model_calls lg
     \<and> (lg_subcalls lg \<le> max_subcalls (lg_limits lg) \<longrightarrow> lg_subcalls (fst (f now lg)) \<le> max_subcalls (lg_limits lg))"
  shows "keeps (spends 0) (ledger_op env f)"
  unfolding ledger_op_def
  by (intro free.keeps_andthen keeps_outside keeps_on_ledger assms quiet)

lemma keeps_check: "keeps (spends 0) (ledger_check env)"
  unfolding ledger_check_def by (rule keeps_ledger_op) simp

lemma keeps_timeout: "keeps (spends 0) (ledger_timeout env cap)"
  unfolding ledger_timeout_def by (rule keeps_ledger_op) simp

lemma keeps_reserve_subcalls: "keeps (spends 0) (ledger_op env (\<lambda>now. reserve_subcalls now n))"
  by (rule keeps_ledger_op) (auto simp: reserve_subcalls_def Let_def split: sum.split)

lemma keeps_record_response: "keeps (spends 0) (on_ledger (record_response r))"
  by (rule keeps_on_ledger) (auto simp: record_response_def Let_def split: sum.split option.split)

lemma keeps_emit: "keeps (spends 0) (emit env p b d q)"
proof -
  have "keeps (spends 0) (\<lambda>st. case sink_event (st_sink st) p b d q now w of
          (sink, r) \<Rightarrow> (st\<lparr>st_sink := sink\<rparr>, r))" for now w
    by (auto simp: keeps_def spends_def split: prod.split)
  then show ?thesis
    unfolding emit_def by (intro free.keeps_andthen keeps_outside quiet)
qed

lemma keeps_update:
  "(\<And>s. st_ledger (f s) = st_ledger s \<and> st_world (f s) = st_world s) \<Longrightarrow> keeps (spends 0) (\<lambda>s. (f s, r s))"
  by (simp add: keeps_def spends_def)

lemmas keeps_operations =
  keeps_outside keeps_outside_call keeps_check keeps_timeout keeps_reserve_subcalls keeps_record_response keeps_emit quiet

lemma keeps_model_slot:
  assumes "keeps (spends 1) body"
  shows "keeps (spends 1) (model_slot env body)"
proof -
  have take: "keeps (spends 0) (ledger_op env (\<lambda>now lg. case take_slot lg of
         Some lg' \<Rightarrow> (lg', Inr ()) | None \<Rightarrow> (lg, Inl (deadline_error lg now))))"
    by (rule keeps_ledger_op) (auto simp: take_slot_def)
  have enter: "keeps (spends 0) (ledger_op env enter_slot)"
    by (rule keeps_ledger_op) (auto simp: enter_slot_def split: sum.split)
  have leave: "keeps (spends 0) (on_ledger (\<lambda>lg. (leave_slot lg, Inr ())))"
    by (rule keeps_on_ledger) (simp add: leave_slot_def)
  have release: "keeps (spends 0) (on_ledger (\<lambda>lg. (release_slot lg, Inr ())))"
    by (rule keeps_on_ledger) (simp add: release_slot_def)
  show ?thesis
    unfolding model_slot_def
    by (intro keeps_second keeps_guarded keeps_check take enter leave release assms)
qed

lemma keeps_remaining: "keeps (spends 0) (remaining_action_timeout env d)"
  unfolding remaining_action_timeout_def by (intro free.keeps_intros keeps_operations)

lemma keeps_cap: "keeps (spends 0) (action_timeout_cap env cap d)"
  unfolding action_timeout_cap_def by (intro free.keeps_intros keeps_remaining)

lemma keeps_check_action: "keeps (spends 0) (check_action_deadline env d)"
  unfolding check_action_deadline_def by (intro free.keeps_intros keeps_remaining)

lemma keeps_model_failed: "keeps (spends 0) (model_failed env context b depth started parent e)"
  unfolding model_failed_def by (intro free.keeps_intros keeps_operations)

lemma keeps_obtain: "keeps (spends 1) (obtain_response env backend q context b depth re started d)"
  unfolding obtain_response_def
  by (intro keeps_first [OF keeps_model_slot] keeps_second keeps_remaining keeps_timeout keeps_complete
      free.keeps_intros keeps_operations)

lemma keeps_settle: "keeps (spends 0) (settle_response env response d)"
  unfolding settle_response_def
  by (intro free.keeps_intros keeps_operations keeps_check_action)

lemma keeps_call_model: "keeps (spends 0) (call_model env backend q run_id b depth parent role d)"
  unfolding keeps_def
proof
  fix s
  define rest where "rest = (\<lambda>_ :: int. andthen (outside (env_hex env)) (\<lambda>call_id.
     let context = \<lparr>mc_run_id = run_id, mc_branch_id = b, mc_call_id = call_id,
                    mc_role = role, mc_depth = depth\<rparr>
     in andthen (emit env (ModelRequestPayload context q) b depth parent) (\<lambda>request_event.
        andthen (outside (env_clock env)) (\<lambda>started.
        andthen
          (catch (obtain_response env backend q context b depth request_event started d)
             (model_failed env context b depth started request_event)) (\<lambda>(response, response_event).
        andthen
          (catch (settle_response env response d)
             (model_failed env context b depth started (or_parent response_event request_event))) (\<lambda>_.
          ret (response, response_event)))))))"
  have call: "call_model env backend q run_id b depth parent role d = andthen (ledger_op env reserve_model_call) rest"
    by (simp add: call_model_def rest_def)
  have obtained: "keeps (spends 1) (andthen
          (catch (obtain_response env backend q mc b depth re started d)
             (model_failed env mc b depth started re)) (\<lambda>(response, response_event).
        andthen
          (catch (settle_response env response d)
             (model_failed env mc b depth started (or_parent response_event re))) (\<lambda>_.
          ret (response, response_event))))" for mc re started
    by (intro keeps_first keeps_rescue keeps_obtain keeps_model_failed)
       (auto intro!: free.keeps_intros keeps_settle keeps_model_failed split: prod.split)
  have rest: "keeps (spends 1) (rest n)" for n
    unfolding rest_def Let_def by (intro keeps_second keeps_operations obtained)
  obtain t r where t: "ledger_op env reserve_model_call s = (t, r)" by (cases "ledger_op env reserve_model_call s")
  obtain now w where w: "env_clock env (st_world s) = (now, w)" by (cases "env_clock env (st_world s)")
  have w_meter: "meter w = meter (st_world s)" using quiet(1) [of "st_world s"] w by simp
  show "spends 0 s (fst (call_model env backend q run_id b depth parent role d s))"
  proof (cases r)
    case (Inl e)
    then have "spends 0 s t"
      using t w w_meter
      by (auto simp: ledger_op_def andthen_def outside_def on_ledger_def reserve_model_call_def spends_def
          split: sum.split_asm if_split_asm)
    then show ?thesis using t Inl by (simp add: call andthen_def)
  next
    case (Inr n)
    then have "spends (- 1) s t"
      using t w w_meter
      by (auto simp: ledger_op_def andthen_def outside_def on_ledger_def reserve_model_call_def spends_def
          split: sum.split_asm if_split_asm)
    moreover have "spends 1 t (fst (rest n t))" using rest by (simp add: keeps_def)
    ultimately have "spends 0 s (fst (rest n t))" using spends_trans [of "- 1" s t 1] by simp
    then show ?thesis using t Inr by (simp add: call andthen_def)
  qed
qed

lemma keeps_repair: "keeps (spends 0) (repair env config fault x turn cv causal b depth)"
  unfolding repair_def
  by (auto intro!: free.keeps_intros keeps_operations split: recovery_decision.split)

lemma keeps_recover: "keeps (spends 0) (recover env config fault x turn cv causal b depth)"
  unfolding recover_def by (auto intro!: free.keeps_intros keeps_repair split: prod.split)

lemma keeps_submitted: "keeps (spends 0) (submitted_final env q x b depth parent turn)"
  unfolding submitted_final_def
  by (auto intro!: free.keeps_intros keeps_operations split: prod.split option.split submission.split)

lemma keeps_after: "keeps (spends 0) (after_execution env config q x turn cv ev b depth)"
  unfolding after_execution_def
  by (auto intro!: free.keeps_intros keeps_operations keeps_recover keeps_submitted
      split: prod.split option.split sum.split exn.split)

lemma keeps_settle_children:
  "(\<And>v. keeps (spends 0) (f v)) \<Longrightarrow> keeps (spends 0) (settle_children f vs)"
proof (induction vs)
  case Nil
  then show ?case by (simp add: free.keeps_ret)
next
  case (Cons v vs)
  have rest: "keeps (spends 0) (andthen (settle_children f vs) (\<lambda>rs. ret (r # rs)))" for r
    by (intro free.keeps_intros Cons)
  show ?case
    unfolding keeps_def
  proof
    fix s
    obtain t r where t: "f v s = (t, r)" by (cases "f v s")
    have "spends 0 s t" using keepsD [OF Cons.prems t] .
    moreover have "spends 0 t (fst (andthen (settle_children f vs) (\<lambda>rs. ret (q # rs)) t))" for q
      using rest by (simp add: keeps_def)
    ultimately show "spends 0 s (fst (settle_children f (v # vs) s))"
      using t free.trans by (auto split: sum.split)
  qed
qed

lemma keeps_parallel_map: "(\<And>v. keeps (spends 0) (f v)) \<Longrightarrow> keeps (spends 0) (parallel_map f vs)"
  unfolding parallel_map_def by (intro free.keeps_intros keeps_settle_children)

lemma keeps_run_cell:
  "(\<And>op p t. keeps (spends 0) (h op p t)) \<Longrightarrow> keeps (spends 0) (run_cell h c)"
proof (induction c)
  case (CellDone r)
  then show ?case by (simp add: free.keeps_lift)
next
  case (CellCall op p t k)
  show ?case
    unfolding keeps_def
  proof
    fix s
    obtain u r where u: "h op p t s = (u, r)" by (cases "h op p t s")
    have "spends 0 s u" using keepsD [OF CellCall.prems u] .
    moreover have "spends 0 u (fst (run_cell h (k r) u))"
      using CellCall.IH [of "k r"] CellCall.prems by (auto simp: keeps_def)
    ultimately show "spends 0 s (fst (run_cell h (CellCall op p t k) s))"
      using u free.trans by auto
  qed
qed

definition thrifty :: "'w branch_runner \<Rightarrow> bool" where
  "thrifty child \<longleftrightarrow> (\<forall>q n b p d. keeps (spends 0) (child q n b p d))"

lemma keeps_handle:
  assumes "thrifty child"
  shows "keeps (spends 0) (handle_action env rx child q depth b p d op payload)"
proof -
  have one: "keeps (spends 0) (complete_one env rx depth b p d role body)" for role body
    unfolding complete_one_def by (auto intro!: free.keeps_intros keeps_call_model split: prod.split)
  have rec: "keeps (spends 0) (run_child env child depth p d body)" for body
    unfolding run_child_def
    by (intro free.keeps_intros keeps_operations assms [unfolded thrifty_def, rule_format])
  show ?thesis
    unfolding handle_action_def
    by (cases op; cases payload)
       (simp_all only: prod.case host_operation.case host_payload.case,
        (intro free.keeps_intros keeps_operations keeps_parallel_map one rec)+)
qed

lemma keeps_turn:
  assumes "thrifty child"
  shows "keeps (spends 0) (run_turn env rx child q ex depth b d turn cv p)"
proof -
  have noted: "keeps (spends 0) (note_turn depth turn)"
    unfolding keeps_def note_turn_def by (auto simp: spends_def)
  have handler: "keeps (spends 0) (turn_handler env rx child q depth b ev op pl t)" for ev op pl t
    unfolding turn_handler_def by (intro free.keeps_intros keeps_operations keeps_handle assms)
  have exec: "keeps (spends 0) (execute_action env rx child q ex depth b d src ev)" for src ev
    unfolding execute_action_def
    by (intro free.keeps_intros keeps_operations keeps_cap keeps_run_cell handler)
  show ?thesis
    unfolding run_turn_def Let_def
    by (auto intro!: free.keeps_intros keeps_operations noted keeps_call_model keeps_recover exec keeps_after
        split: prod.split sum.split exn.split)
qed

lemma keeps_turns:
  "thrifty child \<Longrightarrow> keeps (spends 0) (run_turns env rx child q ex depth b d n turn cv p)"
proof (induction n arbitrary: turn cv p)
  case 0
  then show ?case by (simp add: free.keeps_ret)
next
  case (Suc n)
  show ?case
    unfolding run_turns.simps
    by (auto intro!: free.keeps_intros keeps_turn Suc split: turn_outcome.split)
qed

lemma thrifty_branch:
  assumes "thrifty child"
  shows "thrifty (branch env rx child)"
proof -
  have exec: "keeps (spends 0) (with_executor env ex m)" if "keeps (spends 0) m" for ex and m :: "('w run_state, 'b) act"
    unfolding with_executor_def by (intro free.keeps_intros keeps_operations that)
  show ?thesis
    unfolding thrifty_def branch_def Let_def
    by (auto intro!: free.keeps_intros keeps_operations keeps_check_action keeps_cap exec keeps_turns assms
        split: option.split)
qed

lemma thrifty_run_branch: "thrifty (run_branch env rx)"
proof -
  have "thrifty (branch_levels env rx n)" for n
  proof (induction n)
    case 0
    then show ?case
      by (simp add: thrifty_branch thrifty_def [of "\<lambda>_ _ _ _ _. raise e" for e] free.keeps_raise)
  next
    case (Suc n)
    then show ?case by (simp add: thrifty_branch)
  qed
  then show ?thesis by (simp add: thrifty_def run_branch_def)
qed

lemma keeps_recorded_run:
  assumes "\<And>ev. keeps (spends 0) (body ev)"
  shows "keeps (spends 0) (recorded_run env ro reason body)"
proof -
  have fail: "keeps (spends 0) (fail_run env ev e)" for ev e
    unfolding fail_run_def by (intro free.keeps_intros keeps_operations keeps_update) simp
  have stats: "keeps (spends 0) (ledger_op env (\<lambda>now lg. (lg, Inr (stats lg now))))"
    by (rule keeps_ledger_op) simp
  have sink: "keeps (spends 0) (\<lambda>st. case sink_close (st_sink st) made io of (sink, r) \<Rightarrow> (st\<lparr>st_sink := sink\<rparr>, r))"
    for made io by (auto simp: keeps_def spends_def split: prod.split)
  have close: "keeps (spends 0) (close_trace env ro reason)"
    unfolding close_trace_def
    by (auto intro!: free.keeps_intros keeps_operations stats sink split: trace_sink.split)
  show ?thesis
    unfolding recorded_run_def supervise_def
    by (intro free.keeps_intros keeps_operations fail close assms)
qed

lemma keeps_run: "keeps (spends 0) (recorded_run env ro reason (run_body env ro))"
proof -
  have "keeps (spends 0) (finish_run env ro response sr turns)" for response sr turns
    unfolding finish_run_def Let_def by (intro free.keeps_intros keeps_operations keeps_update) simp_all
  then show ?thesis
    unfolding run_body_def
    by (intro keeps_recorded_run free.keeps_intros keeps_operations keeps_update
        thrifty_run_branch [unfolded thrifty_def, rule_format]) simp_all
qed

lemma keeps_direct: "keeps (spends 0) (recorded_run env ro reason (direct_body env ro))"
proof -
  have "keeps (spends 0) (finish_run env ro response sr turns)" for response sr turns
    unfolding finish_run_def Let_def by (intro free.keeps_intros keeps_operations keeps_update) simp_all
  then show ?thesis
    unfolding direct_body_def
    by (auto intro!: keeps_recorded_run free.keeps_intros keeps_operations keeps_call_model split: prod.split option.split)
qed

lemma open_run_meter: "open_run env self q w = (w', r) \<Longrightarrow> meter w' = meter w"
  using quiet(4) [of w] quiet(1) quiet(7)
  by (auto simp: open_run_def Let_def split: sum.split_asm prod.split_asm) (metis snd_conv)+

end

section \<open>The budget of a run\<close>

interpretation metered: metered_environment "metered env" snd for env :: "'w environment"
  by unfold_locales (auto simp: metered_def counted_def tick_def split: prod.split)

lemma config_snapshot_limits: "config_snapshot c = Inr c' \<Longrightarrow> valid_limits (cfg_limits c')"
  by (auto simp: config_snapshot_def config_of_sections_def ebind_eq_Inr dest: mk_run_limits_valid)

lemma open_run_Inr:
  assumes "open_run env self q w = (w', Inr (ro, sink, lg))"
  shows "validate_request q = Inr (ro_request ro)" "config_snapshot (rlm_config self) = Inr (rx_config (ro_context ro))"
    "rx_rlm (ro_context ro) = self" "\<exists>now. lg = new_ledger (cfg_limits (rx_config (ro_context ro))) now"
    "\<exists>base stamp opened. make_trace_sink (cfg_tracing (rx_config (ro_context ro))) (rx_run_id (ro_context ro)) base stamp opened
       = Inr sink"
  using assms
  by (auto simp: open_run_def Let_def ebind_eq_Inr split: sum.split_asm prod.split_asm; blast)+

text \<open>What a run may have spent when it is over: the backends were called no more often than the configuration allows,
  whatever they, the controller's code and the clock did, and subcalls stayed within their cap.\<close>

definition within_budget :: "rlm \<Rightarrow> ('w \<times> nat, 'a) run_exit \<Rightarrow> bool" where
  "within_budget self out \<longleftrightarrow>
     (case out of
        Refused e w \<Rightarrow> snd w = 0
      | Ended st r \<Rightarrow>
          (case config_snapshot (rlm_config self) of
             Inl e \<Rightarrow> False
           | Inr config \<Rightarrow>
               int (snd (st_world st)) \<le> lg_model_calls (st_ledger st)
               \<and> lg_model_calls (st_ledger st) \<le> max_model_calls (cfg_limits config)
               \<and> lg_subcalls (st_ledger st) \<le> max_subcalls (cfg_limits config)))"

lemma run_with_budget:
  assumes "\<And>ro. keeps (metered.spends 0) (act ro)"
  shows "within_budget self (run_with act (metered env) self request (w, 0))"
proof (cases "open_run (metered env) self request (w, 0)")
  case (Pair w' r)
  show ?thesis
  proof (cases r)
    case (Inl e)
    then show ?thesis using Pair metered.open_run_meter [OF Pair] by (simp add: run_with_def within_budget_def)
  next
    case (Inr x)
    obtain ro sink lg where x: "x = (ro, sink, lg)" by (cases x)
    note opened = open_run_Inr [OF Pair [unfolded Inr x]]
    obtain now where lg: "lg = new_ledger (cfg_limits (rx_config (ro_context ro))) now" using opened(4) ..
    have "valid_limits (cfg_limits (rx_config (ro_context ro)))" using config_snapshot_limits opened(2) .
    then have limits: "0 \<le> max_model_calls (cfg_limits (rx_config (ro_context ro)))"
      "0 \<le> max_subcalls (cfg_limits (rx_config (ro_context ro)))" by (simp_all add: valid_limits_def)
    obtain st res where st: "act ro (initial_state sink lg w') = (st, res)"
      by (cases "act ro (initial_state sink lg w')")
    have "metered.spends 0 (initial_state sink lg w') st" using keepsD [OF assms st] .
    moreover have "snd w' = 0" using metered.open_run_meter [OF Pair] by simp
    ultimately show ?thesis
      using Pair Inr x st opened(2) limits lg
      by (simp add: run_with_def within_budget_def metered.spends_def initial_state_def new_ledger_def)
  qed
qed


end
