(* ===== verification/Engine_Results.thy ===== *)
theory Engine_Results
  imports Engine_Budget
begin

text \<open>
  What the public operations of the engine return: the response of a run is checked on every path, and its
  metadata is that of the configuration in force.
\<close>

section \<open>What a run returns\<close>

definition returns :: "('a \<Rightarrow> bool) \<Rightarrow> ('s, 'a) act \<Rightarrow> bool" where
  "returns P m \<longleftrightarrow> (\<forall>s t x. m s = (t, Inr x) \<longrightarrow> P x)"

lemma returns_ret [ok_intros]: "P x \<Longrightarrow> returns P (ret x)"
  by (simp add: returns_def ret_def)

lemma returns_raise [ok_intros]: "returns P (raise e)"
  by (simp add: returns_def raise_def)

lemma returns_lift: "(\<And>x. r = Inr x \<Longrightarrow> P x) \<Longrightarrow> returns P (lift r)"
  by (simp add: returns_def lift_def)

lemma returns_bind: "returns A m \<Longrightarrow> (\<And>x. A x \<Longrightarrow> returns P (f x)) \<Longrightarrow> returns P (andthen m f)"
  by (auto simp: returns_def andthen_def split: prod.split_asm sum.split_asm) blast

lemma returns_mono: "returns P m \<Longrightarrow> (\<And>x. P x \<Longrightarrow> Q x) \<Longrightarrow> returns Q m"
  by (auto simp: returns_def)

lemma returns_andthen [ok_intros]: "(\<And>x. returns P (f x)) \<Longrightarrow> returns P (andthen m f)"
  by (rule returns_bind [of "\<lambda>_. True"]) (simp_all add: returns_def)

lemma returns_catch [ok_intros]: "returns P m \<Longrightarrow> (\<And>e. returns P (h e)) \<Longrightarrow> returns P (catch m h)"
  by (auto simp: returns_def catch_def split: prod.split_asm sum.split_asm)

lemma returns_finally [ok_intros]: "returns P m \<Longrightarrow> returns P (finally_act m h)"
  by (auto simp: returns_def finally_act_def split: prod.split_asm sum.split_asm)

definition final_response :: "nat \<Rightarrow> branch_result \<Rightarrow> bool" where
  "final_response turn r \<longleftrightarrow>
     validate_terminal_response (PDict (br_response r)) = None \<and> br_turns r = turn
     \<and> br_stop_reason r \<in> {''final_response'', ''final_text''}"

lemma text_response_terminal:
  "text_response h m t q text u = Inr d \<Longrightarrow> validate_terminal_response (PDict d) = None"
  by (auto simp: text_response_def Let_def split: option.split_asm)

lemma returns_submitted:
  "returns (\<lambda>r. case r of None \<Rightarrow> True | Some b \<Rightarrow> final_response turn b)
     (submitted_final env q x branch_id depth parent turn)"
proof (cases "er_submission x")
  case None
  then show ?thesis by (simp add: submitted_final_def returns_ret)
next
  case (Some sub)
  let ?A = "\<lambda>p. validate_terminal_response (PDict (fst p)) = None \<and> snd p \<in> {''final_response'', ''final_text''}"
  show ?thesis
    unfolding submitted_final_def Some option.case
  proof (rule returns_bind [of ?A])
    show "returns ?A (case sub of
              ResponseSubmission response \<Rightarrow>
                (case validate_terminal_response (PDict response) of
                   Some e \<Rightarrow> raise (protocol_error e)
                 | None \<Rightarrow> ret (response, ''final_response''))
            | TextSubmission s \<Rightarrow>
                if requires_complete_response q
                then raise (protocol_error ''this request requires FINAL_RESPONSE, not FINAL_TEXT'')
                else
                  andthen read_state (\<lambda>st.
                  andthen (outside (env_hex env)) (\<lambda>resp_hex.
                  andthen (outside (env_epoch env)) (\<lambda>created_at.
                  andthen (outside (env_hex env)) (\<lambda>msg_hex.
                  andthen (lift (text_response resp_hex msg_hex created_at q s (snapshot (st_ledger st)))) (\<lambda>response.
                    ret (response, ''final_text'')))))))"
    proof (cases sub)
      case (TextSubmission s)
      have "returns ?A (andthen (lift (text_response rh mh t q s u)) (\<lambda>response. ret (response, ''final_text'')))" for rh mh t u
        by (rule returns_bind [OF returns_lift [of _ "\<lambda>d. validate_terminal_response (PDict d) = None"]])
           (auto intro!: returns_ret dest: text_response_terminal)
      note checked = this
      show ?thesis
        unfolding TextSubmission submission.case
        by (cases "requires_complete_response q")
           (simp_all only: if_True if_False returns_raise, (rule checked | rule returns_andthen)+)
    next
      case (ResponseSubmission d)
      then show ?thesis by (auto intro: returns_ret returns_raise split: option.split)
    qed
  qed (auto intro!: returns_andthen returns_ret simp: final_response_def split: prod.split)
qed

lemma returns_turn:
  "returns (\<lambda>out. case out of Continue _ _ \<Rightarrow> True | Final r \<Rightarrow> final_response turn r)
     (run_turn env rx child q ex depth b d turn cv parent)"
proof -
  let ?P = "\<lambda>out. case out of Continue _ _ \<Rightarrow> True | Final r \<Rightarrow> final_response turn r"
  have recover: "returns ?P (recover env config made x turn cv ev b depth)" for config made x cv ev
    unfolding recover_def by (auto intro!: ok_intros split: prod.split)
  have after: "returns ?P (after_execution env config q x turn cv ev b depth)" for config x cv ev
  proof (cases "er_exception x")
    case (Some e)
    then show ?thesis unfolding after_execution_def by (simp add: recover)
  next
    case None
    let ?A = "\<lambda>r. case r of Inr (Some b) \<Rightarrow> final_response turn b | _ \<Rightarrow> True"
    have "returns ?A (andthen (submitted_final env q x b depth ev turn) (\<lambda>r. ret (Inr r :: exn + branch_result option)))"
      by (rule returns_bind [OF returns_submitted]) (auto intro!: returns_ret split: option.split)
    then have "returns ?A (catch (andthen (submitted_final env q x b depth ev turn) (\<lambda>r. ret (Inr r)))
               (\<lambda>e. case e of ProtocolErr m cp \<Rightarrow> ret (Inl e) | _ \<Rightarrow> raise e))"
      by (rule returns_catch) (auto intro!: ok_intros split: exn.split)
    then show ?thesis
      unfolding after_execution_def None option.case
      by (rule returns_bind) (auto intro!: ok_intros recover split: sum.split option.split)
  qed
  show ?thesis
    unfolding run_turn_def Let_def
    by (auto intro!: ok_intros recover after split: prod.split sum.split exn.split)
qed

lemma returns_turns:
  "returns (\<lambda>r. case r of None \<Rightarrow> True | Some b \<Rightarrow> \<exists>i\<in>{turn..<turn + n}. final_response i b)
     (run_turns env rx child q ex depth b d n turn cv parent)"
proof (induction n arbitrary: turn cv parent)
  case 0
  then show ?case by (simp add: returns_ret)
next
  case (Suc n)
  let ?P = "\<lambda>r. case r of None \<Rightarrow> True | Some b \<Rightarrow> \<exists>i\<in>{turn..<turn + Suc n}. final_response i b"
  have later: "returns ?P (run_turns env rx child q ex depth b d n (Suc turn) cv' parent')" for cv' parent'
  proof -
    have "\<exists>i\<in>{turn..<turn + Suc n}. final_response i r" if "\<exists>i\<in>{Suc turn..<Suc turn + n}. final_response i r" for r
      using that by (auto intro: bexI)
    then show ?thesis by (intro returns_mono [OF Suc]) (auto split: option.splits)
  qed
  have now: "returns ?P (ret (Some r))" if "final_response turn r" for r
    by (rule returns_ret) (use that in auto)
  show ?case
    unfolding run_turns.simps
    by (rule returns_bind [OF returns_turn]) (auto split: turn_outcome.splits intro: later now simp del: add_Suc_right)
qed

lemma returns_branch:
  "returns (\<lambda>r. \<exists>i\<in>{1..nat (max_turns (cfg_limits (rx_config rx)))}. final_response i r)
     (branch env rx child q depth b p d)"
proof -
  let ?n = "nat (max_turns (cfg_limits (rx_config rx)))"
  let ?P = "\<lambda>r. case r of None \<Rightarrow> True | Some b \<Rightarrow> \<exists>i\<in>{1..<1 + ?n}. final_response i b"
  have body: "returns ?P (with_executor env ex (if c then raise e else run_turns env rx child q ex depth b d ?n 1 cv parent))"
    for ex c e cv parent
    unfolding with_executor_def
    by (rule returns_bind [of ?P]) (auto intro!: ok_intros returns_turns simp del: One_nat_def)
  show ?thesis
    unfolding branch_def Let_def
    by (rule returns_bind [OF body] returns_andthen)+
       (auto intro!: ok_intros split: option.splits simp: less_Suc_eq_le)
qed

lemma returns_run_branch:
  "returns (\<lambda>r. \<exists>i\<in>{1..nat (max_turns (cfg_limits (rx_config rx)))}. final_response i r)
     (run_branch env rx q depth b p d)"
  unfolding run_branch_def
  by (cases "nat (max_depth (cfg_limits (rx_config rx))) - depth") (simp_all only: branch_levels.simps returns_branch)

text \<open>The promise of the public operations: the response is one the terminal validator accepts, the stop reason and the
  number of turns are those of the way it was obtained, and the rest is the metadata of the configuration.\<close>

definition proper_result :: "rlm_config \<Rightarrow> string set \<Rightarrow> nat set \<Rightarrow> run_result \<Rightarrow> bool" where
  "proper_result config reasons turns res \<longleftrightarrow>
     validate_terminal_response (PDict (rr_response res)) = None
     \<and> rr_stop_reason res \<in> reasons \<and> rr_turns res \<in> turns
     \<and> fingerprint (cfg_harness config) = Inr (rr_harness_fingerprint res)
     \<and> sha_value (PDict (cc_options (cfg_controller config))) = Inr (ci_options_sha256 (rr_identity res))"

lemma returns_finish:
  assumes "validate_terminal_response (PDict response) = None" "stop_reason \<in> reasons" "n \<in> turns"
  shows "returns (proper_result (rx_config (ro_context ro)) reasons turns) (finish_run env ro response stop_reason n)"
  unfolding finish_run_def Let_def
  using assms
  by (intro returns_andthen returns_lift)
     (auto simp: ebind_eq_Inr mk_run_result_def mk_controller_run_identity_def proper_result_def split: if_split_asm)

lemma returns_recorded:
  "(\<And>ev. returns P (body ev)) \<Longrightarrow> returns P (recorded_run env ro reason body)"
  unfolding recorded_run_def supervise_def fail_run_def by (intro ok_intros) auto

lemma returns_run:
  "returns (proper_result (rx_config (ro_context ro)) {''final_response'', ''final_text''}
       {1..nat (max_turns (cfg_limits (rx_config (ro_context ro))))})
     (recorded_run env ro reason (run_body env ro))"
  unfolding run_body_def
  by (intro returns_recorded, rule returns_bind [OF returns_run_branch], intro returns_andthen returns_finish)
     (auto simp: final_response_def)

lemma returns_direct:
  "returns (proper_result (rx_config (ro_context ro)) {''direct''} {0})
     (recorded_run env ro reason (direct_body env ro))"
proof -
  have guard: "returns (\<lambda>_. v = None) (case v of Some e \<Rightarrow> raise (BackendProtocol e) | None \<Rightarrow> ret ())" for v
    by (auto intro: ok_intros split: option.split)
  have "returns (proper_result (rx_config (ro_context ro)) {''direct''} {0})
     (andthen (case validate_terminal_response (PDict response) of
                Some e \<Rightarrow> raise (BackendProtocol e) | None \<Rightarrow> ret ()) (\<lambda>_.
     andthen (emit env (RunCompletedPayload ''direct'' response) root_branch 0 ev) (\<lambda>_.
       finish_run env ro response ''direct'' 0)))" for response ev
    by (rule returns_bind [OF guard]) (intro returns_andthen returns_finish, simp_all)
  then show ?thesis
    unfolding direct_body_def by (intro returns_recorded returns_andthen) (auto split: prod.split)
qed

text \<open>What the caller gets.\<close>

definition delivers :: "rlm \<Rightarrow> string set \<Rightarrow> (rlm_config \<Rightarrow> nat set) \<Rightarrow> ('w, run_result) run_exit \<Rightarrow> bool" where
  "delivers self reasons turns out \<longleftrightarrow>
     (case out of
        Ended st (Inr res) \<Rightarrow>
          (case config_snapshot (rlm_config self) of
             Inl e \<Rightarrow> False
           | Inr config \<Rightarrow> proper_result config reasons (turns config) res)
      | _ \<Rightarrow> True)"


end
