(* ===== verification/Engine_Trace.thy ===== *)
theory Engine_Trace
  imports Engine_Budget
begin

text \<open>
  The trace of a run, as a tree of causes.  An abstract log is a list of events, each with its kind and
  the position of the event that caused it; it grows by the causal grammar of the engine.  The recorder of every
  run, seen through this abstraction, only ever grows by that grammar, from \<open>run.started\<close> to its terminal event.
\<close>

section \<open>The causal grammar\<close>

fun causes :: "trace_event_kind \<Rightarrow> trace_event_kind set" where
  "causes RUN_STARTED = {}"
| "causes RUN_COMPLETED = {BRANCH_COMPLETED, MODEL_RESPONSE}"
| "causes RUN_FAILED = UNIV"
| "causes BRANCH_STARTED = {RUN_STARTED, CONTROLLER_ACTION}"
| "causes BRANCH_COMPLETED = {CONTROLLER_EXECUTION}"
| "causes MODEL_REQUEST = {RUN_STARTED, BRANCH_STARTED, CONTROLLER_ACTION, CONTROLLER_OBSERVATION, CONTROLLER_REPAIR}"
| "causes MODEL_RESPONSE = {MODEL_REQUEST}"
| "causes MODEL_FAILED = {MODEL_REQUEST, MODEL_RESPONSE}"
| "causes CONTROLLER_ACTION = {MODEL_RESPONSE}"
| "causes CONTROLLER_EXECUTION = {CONTROLLER_ACTION}"
| "causes CONTROLLER_OBSERVATION = {CONTROLLER_EXECUTION}"
| "causes CONTROLLER_RECOVERY_DECISION = {MODEL_RESPONSE, CONTROLLER_EXECUTION}"
| "causes CONTROLLER_REPAIR = {CONTROLLER_RECOVERY_DECISION}"

type_synonym node = "trace_event_kind \<times> nat option"

inductive causal_growth :: "node list \<Rightarrow> bool" where
  empty: "causal_growth []"
| start: "causal_growth [(RUN_STARTED, None)]"
| grow: "causal_growth ns \<Longrightarrow> i < length ns \<Longrightarrow> fst (ns ! i) \<in> causes k \<Longrightarrow> causal_growth (ns @ [(k, Some i)])"

definition run_level :: "trace_event_kind set" where
  "run_level = {RUN_STARTED, RUN_COMPLETED, RUN_FAILED}"

text \<open>The abstraction of a recorded event, of a recorder and of a sink; the null sink has no log.\<close>

definition abstracts :: "dict \<Rightarrow> node \<Rightarrow> bool" where
  "abstracts ev n \<longleftrightarrow>
     pget ev ''type'' = PStr (event_kind_value (fst n))
     \<and> pget ev ''parent_event_id'' = opt_str (map_option event_name (snd n))"

definition recorder_log :: "recorder \<Rightarrow> node list \<Rightarrow> bool" where
  "recorder_log r ns \<longleftrightarrow> (\<exists>evs. recorded r evs \<and> list_all2 abstracts evs ns) \<and> causal_growth ns"

fun sink_log :: "trace_sink \<Rightarrow> node list option \<Rightarrow> bool" where
  "sink_log NullTraceSink l \<longleftrightarrow> l = None"
| "sink_log (Recorder r) l \<longleftrightarrow> (\<exists>ns. l = Some ns \<and> recorder_log r ns)"

fun later :: "node list option \<Rightarrow> node list option \<Rightarrow> bool" where
  "later None l \<longleftrightarrow> l = None"
| "later (Some ns) l \<longleftrightarrow> (\<exists>new. l = Some (ns @ new) \<and> list_all (\<lambda>n. fst n \<notin> run_level) new)"

fun refers :: "node list option \<Rightarrow> string option \<Rightarrow> trace_event_kind set \<Rightarrow> bool" where
  "refers None i K \<longleftrightarrow> True"
| "refers (Some ns) i K \<longleftrightarrow> (\<exists>n<length ns. i = Some (event_name n) \<and> fst (ns ! n) \<in> K)"

fun push :: "node list option \<Rightarrow> node \<Rightarrow> node list option" where
  "push None n = None"
| "push (Some ns) n = Some (ns @ [n])"

lemma later_refl [simp]: "later l l"
  by (cases l) auto

lemma later_trans: "later l l' \<Longrightarrow> later l' l'' \<Longrightarrow> later l l''"
  by (cases l) auto

lemma later_push: "k \<notin> run_level \<Longrightarrow> later l (push l (k, q))"
  by (cases l) auto

lemma refers_later: "later l l' \<Longrightarrow> refers l i K \<Longrightarrow> refers l' i K"
  by (cases l) (auto simp: nth_append)

lemma refers_mono: "refers l i K \<Longrightarrow> K \<subseteq> K' \<Longrightarrow> refers l i K'"
  by (cases l) auto

lemma refers_cause: "refers (Some ns) (Some (event_name i)) K \<Longrightarrow> fst (ns ! i) \<in> K"
  by auto

lemma record_event_step:
  assumes "record_event r p b d parent now w = (r', res)" "recorded r evs" "io_wrote w \<Longrightarrow> w = IoOk"
  shows "res = Inl e \<Longrightarrow> r' = r"
    and "res = Inr i \<Longrightarrow> i = event_name (length evs) \<and> (\<exists>ev. recorded r' (evs @ [ev])
       \<and> pget ev ''type'' = PStr (event_kind_value (payload_kind p)) \<and> pget ev ''parent_event_id'' = opt_str parent
       \<and> (evs = [] \<and> payload_kind p = RUN_STARTED \<and> parent = None \<or> (\<exists>j<length evs. parent = Some (event_name j))))"
proof -
  show "r' = r" if "res = Inl e"
    using assms(1,3) that by (cases w) (auto simp: record_event_def Let_def split: if_split_asm sum.split_asm)
  assume i: "res = Inr i"
  have len: "length evs = rc_next_id r" "rc_event_ids r = rev (map event_name [0..<rc_next_id r])"
    using assms(2) by (simp_all add: recorded_def)
  obtain ev line where b: "build_event r p b d parent now = Inr (ev, line)"
    and r': "r' = r\<lparr>rc_lines := rc_lines r @ [line], rc_next_id := Suc (rc_next_id r),
      rc_event_ids := event_name (rc_next_id r) # rc_event_ids r,
      rc_events := (if rc_markdown r then rc_events r @ [ev] else rc_events r)\<rparr>"
    and name: "i = event_name (rc_next_id r)"
    using assms(1) i by (cases w) (auto simp: record_event_def Let_def split: if_split_asm sum.split_asm)
  note ok = build_event_Inr [OF b assms(2)]
  have "recorded r' (evs @ [ev])"
    using ok assms(2) r' by (auto simp: recorded_def nth_append less_Suc_eq)
  moreover have "pget ev ''type'' = PStr (event_kind_value (payload_kind p))" "pget ev ''parent_event_id'' = opt_str parent"
    "validate_trace_event r p parent = Inr ()"
    using b by (auto simp: build_event_def ebind_eq_Inr Let_def event_to_dict_def pget_def
        split: if_split_asm option.split_asm)
  moreover from this(3) have "evs = [] \<and> payload_kind p = RUN_STARTED \<and> parent = None \<or> (\<exists>j<length evs. parent = Some (event_name j))"
    unfolding validate_trace_event_def len by (cases evs) (use len in \<open>auto split: if_split_asm\<close>)
  ultimately show "i = event_name (length evs) \<and> (\<exists>ev. recorded r' (evs @ [ev])
       \<and> pget ev ''type'' = PStr (event_kind_value (payload_kind p)) \<and> pget ev ''parent_event_id'' = opt_str parent
       \<and> (evs = [] \<and> payload_kind p = RUN_STARTED \<and> parent = None \<or> (\<exists>j<length evs. parent = Some (event_name j))))"
    using name len by (intro conjI exI [of _ ev]) simp_all
qed

lemma record_event_log:
  assumes "record_event r p b d parent now w = (r', Inr i)" "recorder_log r ns" "io_wrote w \<Longrightarrow> w = IoOk"
    and cause: "\<And>j. j < length ns \<Longrightarrow> parent = Some (event_name j) \<Longrightarrow> fst (ns ! j) \<in> causes (payload_kind p)"
  shows "\<exists>q. recorder_log r' (ns @ [(payload_kind p, q)]) \<and> i = event_name (length ns)
     \<and> (ns = [] \<longrightarrow> payload_kind p = RUN_STARTED) \<and> parent = map_option event_name q"
proof -
  obtain evs where evs: "recorded r evs" "list_all2 abstracts evs ns" and growth: "causal_growth ns"
    using assms(2) by (auto simp: recorder_log_def)
  have len: "length evs = length ns" using evs(2) by (rule list_all2_lengthD)
  obtain ev where ev: "i = event_name (length evs)" "recorded r' (evs @ [ev])"
    "pget ev ''type'' = PStr (event_kind_value (payload_kind p))" "pget ev ''parent_event_id'' = opt_str parent"
    "evs = [] \<and> payload_kind p = RUN_STARTED \<and> parent = None \<or> (\<exists>j<length evs. parent = Some (event_name j))"
    using record_event_step(2) [OF assms(1) evs(1) assms(3) refl] by blast
  show ?thesis
  proof (cases "evs = []")
    case True
    then have ns: "ns = []" using len by simp
    have k: "payload_kind p = RUN_STARTED" "parent = None" using ev(5) True by auto
    have "recorder_log r' ([] @ [(payload_kind p, None)])"
      unfolding recorder_log_def using ev True k by (auto simp: abstracts_def intro!: exI [of _ "[ev]"] causal_growth.start)
    then show ?thesis using ev(1) True ns k by (intro exI [of _ None]) simp
  next
    case False
    then obtain j where j: "j < length ns" "parent = Some (event_name j)" using ev(5) len by auto
    have "causal_growth (ns @ [(payload_kind p, Some j)])"
      using growth j cause by (intro causal_growth.grow)
    moreover have "list_all2 abstracts (evs @ [ev]) (ns @ [(payload_kind p, Some j)])"
      using evs(2) ev j by (intro list_all2_appendI) (simp_all add: abstracts_def)
    ultimately have "recorder_log r' (ns @ [(payload_kind p, Some j)])"
      unfolding recorder_log_def using ev(2) by blast
    then show ?thesis using ev(1) len j False by (intro exI [of _ "Some j"]) auto
  qed
qed

section \<open>Logged actions\<close>

text \<open>The states reached from a log, and the actions that keep to the grammar from it.\<close>

definition since :: "node list option \<Rightarrow> (node list option \<Rightarrow> bool) \<Rightarrow> 'w run_state \<Rightarrow> bool" where
  "since l P st \<longleftrightarrow> (\<exists>l'. later l l' \<and> sink_log (st_sink st) l' \<and> P l')"

definition logs :: "node list option \<Rightarrow> ('w run_state, 'a) act \<Rightarrow> ('a \<Rightarrow> node list option \<Rightarrow> bool) \<Rightarrow> bool" where
  "logs l m P \<longleftrightarrow> (\<forall>st. sink_log (st_sink st) l \<longrightarrow> wp m (\<lambda>x. since l (P x)) (\<lambda>_. since l (\<lambda>_. True)) st)"

lemma since_later: "later l l' \<Longrightarrow> since l' P st \<Longrightarrow> since l P st"
  unfolding since_def using later_trans by blast

lemma since_mono: "since l P st \<Longrightarrow> (\<And>l'. later l l' \<Longrightarrow> P l' \<Longrightarrow> Q l') \<Longrightarrow> since l Q st"
  unfolding since_def by blast

lemma sinceI: "sink_log (st_sink st) l \<Longrightarrow> P l \<Longrightarrow> since l P st"
  unfolding since_def by (intro exI [of _ l]) simp

lemma logs_mono: "logs l m P \<Longrightarrow> (\<And>x l'. later l l' \<Longrightarrow> P x l' \<Longrightarrow> Q x l') \<Longrightarrow> logs l m Q"
  unfolding logs_def by (intro allI impI, rule wp_mono [of m "\<lambda>x. since l (P x)"]) (blast intro: since_mono)+

lemma logs_ret: "P x l \<Longrightarrow> logs l (ret x) P"
  by (auto simp: logs_def wp_simps intro: sinceI)

lemma logs_raise: "logs l (raise e) P"
  by (auto simp: logs_def wp_simps intro: sinceI)

lemma logs_andthen:
  assumes "logs l m A" "\<And>x l'. later l l' \<Longrightarrow> A x l' \<Longrightarrow> logs l' (f x) P"
  shows "logs l (andthen m f) P"
  unfolding logs_def wp_andthen
proof (intro allI impI)
  fix st :: "'a run_state"
  assume st: "sink_log (st_sink st) l"
  have step: "wp (f x) (\<lambda>x. since l (P x)) (\<lambda>_. since l (\<lambda>_. True)) t" if at: "since l (A x) t" for x t
  proof -
    obtain l' where l': "later l l'" "sink_log (st_sink t) l'" "A x l'" using at by (auto simp: since_def)
    then have "wp (f x) (\<lambda>x. since l' (P x)) (\<lambda>_. since l' (\<lambda>_. True)) t"
      using assms(2) by (auto simp: logs_def)
    then show ?thesis by (rule wp_mono) (auto intro: since_later [OF l'(1)])
  qed
  have "wp m (\<lambda>x. since l (A x)) (\<lambda>_. since l (\<lambda>_. True)) st" using assms(1) st by (simp add: logs_def)
  then show "wp m (\<lambda>x. wp (f x) (\<lambda>x. since l (P x)) (\<lambda>_. since l (\<lambda>_. True))) (\<lambda>_. since l (\<lambda>_. True)) st"
    by (rule wp_mono) (simp_all add: step)
qed

lemma logs_catch:
  assumes "logs l m P" "\<And>e l'. later l l' \<Longrightarrow> logs l' (h e) P"
  shows "logs l (catch m h) P"
  unfolding logs_def wp_catch
proof (intro allI impI)
  fix st :: "'a run_state"
  assume st: "sink_log (st_sink st) l"
  have step: "wp (h e) (\<lambda>x. since l (P x)) (\<lambda>_. since l (\<lambda>_. True)) t" if at: "since l (\<lambda>_. True) t" for e t
  proof -
    obtain l' where l': "later l l'" "sink_log (st_sink t) l'" using at by (auto simp: since_def)
    then have "wp (h e) (\<lambda>x. since l' (P x)) (\<lambda>_. since l' (\<lambda>_. True)) t"
      using assms(2) by (auto simp: logs_def)
    then show ?thesis by (rule wp_mono) (auto intro: since_later [OF l'(1)])
  qed
  have "wp m (\<lambda>x. since l (P x)) (\<lambda>_. since l (\<lambda>_. True)) st" using assms(1) st by (simp add: logs_def)
  then show "wp m (\<lambda>x. since l (P x)) (\<lambda>e. wp (h e) (\<lambda>x. since l (P x)) (\<lambda>_. since l (\<lambda>_. True))) st"
    by (rule wp_mono) (simp_all add: step)
qed

text \<open>Actions that do not touch the sink.\<close>

definition same_sink :: "'w run_state \<Rightarrow> 'w run_state \<Rightarrow> bool" where
  "same_sink s t \<longleftrightarrow> st_sink t = st_sink s"

interpretation still: state_order same_sink
  by unfold_locales (simp_all add: same_sink_def)

lemma logs_still: "keeps same_sink m \<Longrightarrow> logs l m (\<lambda>_ l'. l' = l)"
  unfolding logs_def
proof (intro allI impI wpI)
  fix st t :: "'a run_state" and x
  assume m: "keeps same_sink m" and st: "sink_log (st_sink st) l"
  show "since l (\<lambda>l'. l' = l) t" if "m st = (t, Inr x)"
    using keepsD [OF m that] st by (auto simp: since_def same_sink_def)
  show "since l (\<lambda>_. True) t" if "m st = (t, Inl e)" for e
    using keepsD [OF m that] st by (auto simp: since_def same_sink_def intro: exI [of _ l])
qed

lemma logs_skip: "keeps same_sink m \<Longrightarrow> (\<And>x. logs l (f x) P) \<Longrightarrow> logs l (andthen m f) P"
  by (rule logs_andthen [OF logs_still]) simp_all

lemma logs_lift: "(\<And>x. r = Inr x \<Longrightarrow> P x l) \<Longrightarrow> logs l (lift r) P"
  by (cases r) (auto simp: logs_def wp_simps intro: sinceI)

lemma logs_lift_then: "(\<And>x. r = Inr x \<Longrightarrow> logs l (f x) P) \<Longrightarrow> logs l (andthen (lift r) f) P"
  by (rule logs_andthen [OF logs_lift [of r "\<lambda>x l'. r = Inr x \<and> l' = l"]]) auto

lemma still_outside: "keeps same_sink (outside f)"
  by (simp add: keeps_def same_sink_def outside_def split: prod.split)

lemma still_outside_call: "keeps same_sink (outside_call f)"
  by (simp add: keeps_def same_sink_def outside_call_def split: prod.split)

lemma still_on_ledger: "keeps same_sink (on_ledger f)"
  by (simp add: keeps_def same_sink_def on_ledger_def split: prod.split)

lemma still_ledger_op: "keeps same_sink (ledger_op env f)"
  unfolding ledger_op_def by (intro still.keeps_intros still_outside still_on_ledger)

lemma still_check: "keeps same_sink (ledger_check env)"
  unfolding ledger_check_def by (rule still_ledger_op)

lemma still_timeout: "keeps same_sink (ledger_timeout env cap)"
  unfolding ledger_timeout_def by (rule still_ledger_op)

lemma still_remaining: "keeps same_sink (remaining_action_timeout env d)"
  unfolding remaining_action_timeout_def by (intro still.keeps_intros still_outside)

lemma still_cap: "keeps same_sink (action_timeout_cap env cap d)"
  unfolding action_timeout_cap_def by (intro still.keeps_intros still_remaining)

lemma still_check_action: "keeps same_sink (check_action_deadline env d)"
  unfolding check_action_deadline_def by (intro still.keeps_intros still_remaining)

lemma still_model_slot: "keeps same_sink body \<Longrightarrow> keeps same_sink (model_slot env body)"
  unfolding model_slot_def by (intro still.keeps_intros still_check still_ledger_op still_on_ledger)

lemma still_settle: "keeps same_sink (settle_response env response d)"
  unfolding settle_response_def
  by (intro still.keeps_intros still_check_action still_check still_on_ledger)

lemma still_note: "keeps same_sink (note_turn depth turn)"
  by (simp add: keeps_def same_sink_def note_turn_def)

lemmas still_operations =
  still.keeps_intros still_outside still_outside_call still_on_ledger still_ledger_op still_check still_timeout
  still_remaining still_cap still_check_action still_model_slot still_settle still_note

lemmas logs_skips =
  logs_skip [OF still_outside] logs_skip [OF still_outside_call] logs_skip [OF still.keeps_lift] logs_skip [OF still_ledger_op]
  logs_skip [OF still_check] logs_skip [OF still_timeout] logs_skip [OF still_cap] logs_skip [OF still_check_action]
  logs_skip [OF still_note] logs_skip [OF still.keeps_read_state] logs_skip [OF still_model_slot]

section \<open>The engine keeps to the grammar\<close>

text \<open>An environment whose failed writes leave no line behind.\<close>

definition tidied :: "'w environment \<Rightarrow> 'w environment" where
  "tidied env = env\<lparr>env_io := (\<lambda>w. case env_io env w of
       (IoOk, w') \<Rightarrow> (IoOk, w') | (IoFails e kept, w') \<Rightarrow> (IoFails e False, w'))\<rparr>"

locale tidy_environment =
  fixes env :: "'w environment"
  assumes tidy: "io_wrote (fst (env_io env w)) \<Longrightarrow> fst (env_io env w) = IoOk"
begin

lemma emit_step:
  assumes "emit env p b d parent st = (t, r)" "sink_log (st_sink st) l"
    and "\<And>ns j. l = Some ns \<Longrightarrow> j < length ns \<Longrightarrow> parent = Some (event_name j) \<Longrightarrow> fst (ns ! j) \<in> causes (payload_kind p)"
  shows "(\<forall>e. r = Inl e \<longrightarrow> st_sink t = st_sink st)
     \<and> (\<forall>i. r = Inr i \<longrightarrow> (\<exists>q. sink_log (st_sink t) (push l (payload_kind p, q))
          \<and> refers (push l (payload_kind p, q)) i {payload_kind p}
          \<and> (l = Some [] \<longrightarrow> payload_kind p = RUN_STARTED) \<and> (l \<noteq> None \<longrightarrow> parent = map_option event_name q)))"
proof -
  obtain now w1 where now: "env_time env (st_world st) = (now, w1)" by (cases "env_time env (st_world st)")
  obtain w w2 where w: "env_io env w1 = (w, w2)" by (cases "env_io env w1")
  have io: "io_wrote w \<Longrightarrow> w = IoOk" using tidy [of w1] w by simp
  obtain sink where sink: "sink_event (st_sink st) p b d parent now w = (sink, r)" "st_sink t = sink"
    using assms(1) now w by (auto simp: emit_def andthen_def outside_def split: prod.split_asm)
  show ?thesis
  proof (cases "st_sink st")
    case NullTraceSink
    then show ?thesis using sink assms(2) by auto
  next
    case (Recorder rc)
    then obtain ns where ns: "l = Some ns" "recorder_log rc ns" using assms(2) by auto
    obtain r' res where r': "record_event rc p b d parent now w = (r', res)" by fastforce
    have out: "sink = trace_sink.Recorder r'" "r = ebind res (\<lambda>i. Inr (Some i))" using sink(1) Recorder r' by auto
    obtain evs where evs: "recorded rc evs" using ns(2) by (auto simp: recorder_log_def)
    show ?thesis
    proof (cases res)
      case (Inl e)
      then have "r' = rc" using record_event_step(1) [OF r' evs io] by blast
      then show ?thesis using Inl out sink(2) Recorder by simp
    next
      case (Inr i)
      obtain q where q: "recorder_log r' (ns @ [(payload_kind p, q)])" "i = event_name (length ns)"
        "ns = [] \<longrightarrow> payload_kind p = RUN_STARTED" "parent = map_option event_name q"
        using record_event_log [OF r' [unfolded Inr] ns(2) io] assms(3) [OF ns(1)] by blast
      have "refers (Some (ns @ [(payload_kind p, q)])) (Some i) {payload_kind p}"
        using q(2) by (auto intro!: exI [of _ "length ns"])
      then show ?thesis using Inr out sink(2) ns(1) q by auto
    qed
  qed
qed

lemma logs_emit:
  assumes "refers l parent (causes (payload_kind p))" "payload_kind p \<notin> run_level"
  shows "logs l (emit env p b d parent) (\<lambda>i l'. refers l' i {payload_kind p})"
  unfolding logs_def
proof (intro allI impI)
  fix st :: "'w run_state"
  assume st: "sink_log (st_sink st) l"
  obtain t r where t: "emit env p b d parent st = (t, r)" by (cases "emit env p b d parent st")
  have cause: "fst (ns ! j) \<in> causes (payload_kind p)" if "l = Some ns" "parent = Some (event_name j)" for ns j
    using assms(1) that refers_cause by blast
  note step = emit_step [OF t st cause]
  show "wp (emit env p b d parent) (\<lambda>i. since l (\<lambda>l'. refers l' i {payload_kind p})) (\<lambda>_. since l (\<lambda>_. True)) st"
  proof (cases r)
    case (Inl e)
    then have "st_sink t = st_sink st" using step by blast
    then show ?thesis using t st Inl by (auto simp: wp_def intro: sinceI)
  next
    case (Inr i)
    then obtain q where "sink_log (st_sink t) (push l (payload_kind p, q))" "refers (push l (payload_kind p, q)) i {payload_kind p}"
      using step by blast
    then show ?thesis using t Inr later_push [OF assms(2)] by (auto simp: wp_def since_def)
  qed
qed

lemma logs_emit_ref:
  "refers l parent (causes k) \<Longrightarrow> payload_kind p = k \<Longrightarrow> k \<notin> run_level \<Longrightarrow>
   logs l (emit env p b d parent) (\<lambda>i l'. refers l' i {k})"
  using logs_emit by blast

text \<open>An event, and what follows it.\<close>

lemma logs_emit_then:
  assumes "refers l parent (causes (payload_kind p))" "payload_kind p \<notin> run_level"
    and "\<And>i l'. later l l' \<Longrightarrow> refers l' i {payload_kind p} \<Longrightarrow> logs l' (f i) P"
  shows "logs l (andthen (emit env p b d parent) f) P"
  by (rule logs_andthen [OF logs_emit [OF assms(1,2)]]) (rule assms(3))

lemma logs_model_failed:
  assumes "refers l parent {MODEL_REQUEST, MODEL_RESPONSE}"
  shows "logs l (model_failed env mc b depth started parent e) P"
  unfolding model_failed_def
proof (intro logs_skips still_operations)
  fix rcd now
  show "logs l (andthen (emit env (ModelFailedPayload mc (now - started) rcd) b depth parent) (\<lambda>failed_event.
       if is_exception e
       then andthen (lift (trace_causal_parent failed_event)) (\<lambda>causal. raise (RemoteErr rcd causal))
       else raise e)) P"
    by (rule logs_emit_then) (use assms in \<open>auto simp: run_level_def intro!: logs_raise logs_lift_then\<close>)
qed

lemma logs_call_model:
  assumes "refers l parent (causes MODEL_REQUEST)"
  shows "logs l (call_model env backend q run_id b depth parent role d) (\<lambda>x l'. refers l' (snd x) {MODEL_RESPONSE})"
proof -
  have settle: "logs l1
     (andthen (catch (settle_response env response d) (model_failed env mc b depth started (or_parent ev req))) (\<lambda>_.
        ret (response, ev))) (\<lambda>x l'. refers l' (snd x) {MODEL_RESPONSE})"
    if "refers l1 ev {MODEL_RESPONSE}" "refers l1 req {MODEL_REQUEST}" for l1 response mc started ev req
  proof -
    have "refers l1 (or_parent ev req) {MODEL_REQUEST, MODEL_RESPONSE}"
      using that by (auto simp: or_parent_def intro: refers_mono)
    then have "logs l1 (catch (settle_response env response d) (model_failed env mc b depth started (or_parent ev req)))
        (\<lambda>_ _. True)"
      by (intro logs_catch logs_model_failed logs_mono [OF logs_still [OF still_settle]]) (auto intro: refers_later)
    then show ?thesis
      by (rule logs_andthen) (rule logs_ret, simp, rule refers_later [OF _ that(1)])
  qed
  have obtained: "logs l1 (obtain_response env backend q mc b depth req started d)
      (\<lambda>x l'. refers l' (snd x) {MODEL_RESPONSE})"
    if "refers l1 req {MODEL_REQUEST}" for l1 req mc started
    unfolding obtain_response_def
  proof (intro logs_skips still_operations)
    fix raw response now
    show "logs l1 (andthen (emit env (ModelResponsePayload mc (now - started) response) b depth req) (\<lambda>response_event.
       ret (response, response_event))) (\<lambda>x l'. refers l' (snd x) {MODEL_RESPONSE})"
      by (rule logs_emit_then) (use that in \<open>auto simp: run_level_def intro!: logs_ret\<close>)
  qed
  have rest: "logs l1
     (andthen (catch (obtain_response env backend q mc b depth req started d) (model_failed env mc b depth started req))
       (\<lambda>(response, ev). andthen (catch (settle_response env response d)
           (model_failed env mc b depth started (or_parent ev req))) (\<lambda>_. ret (response, ev))))
     (\<lambda>x l'. refers l' (snd x) {MODEL_RESPONSE})"
    if "refers l1 req {MODEL_REQUEST}" for l1 req mc started
  proof -
    have "logs l1 (catch (obtain_response env backend q mc b depth req started d) (model_failed env mc b depth started req))
       (\<lambda>x l'. refers l' (snd x) {MODEL_RESPONSE})"
      by (rule logs_catch [OF obtained [OF that]]) (rule logs_model_failed, rule refers_mono [OF refers_later [OF _ that]], auto)
    then show ?thesis
      by (rule logs_andthen) (auto intro!: settle intro: refers_later that split: prod.split)
  qed
  show ?thesis
    unfolding call_model_def Let_def
  proof (intro logs_skips still_operations)
    fix n call_id
    let ?mc = "\<lparr>mc_run_id = run_id, mc_branch_id = b, mc_call_id = call_id, mc_role = role, mc_depth = depth\<rparr>"
    show "logs l (andthen (emit env (ModelRequestPayload ?mc q) b depth parent) (\<lambda>request_event.
        andthen (outside (env_clock env)) (\<lambda>started.
        andthen
          (catch (obtain_response env backend q ?mc b depth request_event started d)
             (model_failed env ?mc b depth started request_event)) (\<lambda>(response, response_event).
        andthen
          (catch (settle_response env response d)
             (model_failed env ?mc b depth started (or_parent response_event request_event))) (\<lambda>_.
          ret (response, response_event)))))) (\<lambda>x l'. refers l' (snd x) {MODEL_RESPONSE})"
      by (rule logs_emit_then)
         (use assms in \<open>auto simp: run_level_def intro!: logs_skip [OF still_outside] rest\<close>)
  qed
qed

text \<open>The parents a controller call may have, and the outcome of a turn.\<close>

definition good_outcome :: "turn_outcome \<Rightarrow> node list option \<Rightarrow> bool" where
  "good_outcome out l \<longleftrightarrow>
     (case out of
        Continue cv parent \<Rightarrow> refers l parent (causes MODEL_REQUEST)
      | Final r \<Rightarrow> refers l (br_event r) {BRANCH_COMPLETED})"

lemma logs_recover:
  assumes "refers l causal {MODEL_RESPONSE, CONTROLLER_EXECUTION}"
  shows "logs l (recover env config made x turn cv causal b depth) good_outcome"
proof -
  have repair: "logs l (repair env config fault x turn cv causal b depth) (\<lambda>y l'. refers l' (snd y) {CONTROLLER_REPAIR})" for fault
    unfolding repair_def
  proof (intro logs_skips still_operations)
    fix decision
    have "logs l' (case decision of
         Abort f \<Rightarrow>
           andthen (lift (trace_causal_parent ev)) (\<lambda>parent.
           andthen (lift (fault_to_dict fault)) (\<lambda>d.
             raise (RecoveryAborted (cf_fault_message fault) d parent)))
       | Repair f \<Rightarrow>
           andthen (lift (controller_observation (hs_observation (cfg_harness config)) (Some fault) x
                     (max_observation_chars (cfg_limits config)))) (\<lambda>observation.
           andthen (lift (append_observation cv observation)) (\<lambda>cv'.
           andthen (emit env (RepairPayload (int turn) fault (PDict observation)) b depth ev) (\<lambda>event.
             ret (cv', event))))) (\<lambda>y l'. refers l' (snd y) {CONTROLLER_REPAIR})"
      if "refers l' ev {CONTROLLER_RECOVERY_DECISION}" for l' ev
    proof (cases decision)
      case (Abort f)
      then show ?thesis by (auto intro!: logs_lift_then logs_raise)
    next
      case (Repair f)
      have "logs l' (andthen (emit env (RepairPayload (int turn) fault (PDict observation)) b depth ev) (\<lambda>event.
             ret (cv', event))) (\<lambda>y l'. refers l' (snd y) {CONTROLLER_REPAIR})" for observation cv'
        by (rule logs_emit_then) (use that in \<open>auto simp: run_level_def intro!: logs_ret\<close>)
      then show ?thesis using Repair by (auto intro!: logs_lift_then)
    qed
    note decided = this
    show "logs l (andthen (emit env (RecoveryDecisionPayload (int turn) decision) b depth causal) (\<lambda>ev.
        case decision of
         Abort f \<Rightarrow>
           andthen (lift (trace_causal_parent ev)) (\<lambda>parent.
           andthen (lift (fault_to_dict fault)) (\<lambda>d.
             raise (RecoveryAborted (cf_fault_message fault) d parent)))
       | Repair f \<Rightarrow>
           andthen (lift (controller_observation (hs_observation (cfg_harness config)) (Some fault) x
                     (max_observation_chars (cfg_limits config)))) (\<lambda>observation.
           andthen (lift (append_observation cv observation)) (\<lambda>cv'.
           andthen (emit env (RepairPayload (int turn) fault (PDict observation)) b depth ev) (\<lambda>event.
             ret (cv', event)))))) (\<lambda>y l'. refers l' (snd y) {CONTROLLER_REPAIR})"
      by (rule logs_emit_then, simp add: assms, simp add: run_level_def, rule decided, simp)
  qed
  show ?thesis
    unfolding recover_def
    by (rule logs_lift_then, rule logs_andthen [OF repair])
       (auto intro!: logs_ret elim!: refers_mono simp: good_outcome_def split: prod.split)
qed

lemma logs_submitted:
  assumes "refers l parent {CONTROLLER_EXECUTION}"
  shows "logs l (submitted_final env q x b depth parent turn)
     (\<lambda>r l'. case r of None \<Rightarrow> True | Some br \<Rightarrow> refers l' (br_event br) {BRANCH_COMPLETED})"
proof (cases "er_submission x")
  case None
  then show ?thesis by (simp add: submitted_final_def logs_ret)
next
  case (Some sub)
  have emitted: "logs l (andthen (emit env (BranchCompletedPayload stop_reason response) b depth parent) (\<lambda>event.
            ret (Some \<lparr>br_response = response, br_stop_reason = stop_reason, br_turns = turn, br_event = event\<rparr>)))
      (\<lambda>r l'. case r of None \<Rightarrow> True | Some br \<Rightarrow> refers l' (br_event br) {BRANCH_COMPLETED})" for stop_reason response
    by (rule logs_emit_then) (use assms in \<open>auto simp: run_level_def intro!: logs_ret\<close>)
  show ?thesis
    unfolding submitted_final_def Some option.case
  proof (rule logs_skip)
    show "logs l (case p of (response, stop_reason) \<Rightarrow>
            andthen (emit env (BranchCompletedPayload stop_reason response) b depth parent) (\<lambda>event.
              ret (Some \<lparr>br_response = response, br_stop_reason = stop_reason, br_turns = turn, br_event = event\<rparr>)))
      (\<lambda>r l'. case r of None \<Rightarrow> True | Some br \<Rightarrow> refers l' (br_event br) {BRANCH_COMPLETED})" for p
      by (cases p) (simp only: prod.case emitted)
  qed (auto intro!: still_operations split: submission.split option.split)
qed

lemma logs_after:
  assumes "refers l ev {CONTROLLER_EXECUTION}"
  shows "logs l (after_execution env config q x turn cv ev b depth) good_outcome"
proof (cases "er_exception x")
  case (Some e)
  have "refers l ev {MODEL_RESPONSE, CONTROLLER_EXECUTION}" using assms by (rule refers_mono) simp
  then show ?thesis unfolding after_execution_def Some option.case by (rule logs_recover)
next
  case None
  let ?A = "\<lambda>(r :: exn + branch_result option) l'. case r of Inr (Some br) \<Rightarrow> refers l' (br_event br) {BRANCH_COMPLETED} | _ \<Rightarrow> True"
  have "logs l (andthen (submitted_final env q x b depth ev turn) (\<lambda>r. ret (Inr r :: exn + branch_result option))) ?A"
    by (rule logs_andthen [OF logs_submitted [OF assms]]) (auto intro!: logs_ret split: option.split)
  then have final: "logs l (catch (andthen (submitted_final env q x b depth ev turn) (\<lambda>r. ret (Inr r)))
               (\<lambda>e. case e of ProtocolErr m cp \<Rightarrow> ret (Inl e) | _ \<Rightarrow> raise e)) ?A"
    by (rule logs_catch) (auto intro!: logs_ret logs_raise split: exn.split)
  have observed: "logs l' (andthen (emit env (ControllerObservationPayload (PDict observation)) b depth ev) (\<lambda>event.
                ret (Continue cv' event))) good_outcome"
    if "later l l'" for l' observation cv'
    by (rule logs_emit_then)
       (use refers_later [OF that assms] in \<open>auto simp: run_level_def good_outcome_def elim!: refers_mono intro!: logs_ret\<close>)
  have recovered: "logs l' (recover env config made y turn cv ev b depth) good_outcome" if "later l l'" for l' made y
    by (rule logs_recover, rule refers_mono [OF refers_later [OF that assms]]) simp
  show ?thesis
    unfolding after_execution_def None option.case
  proof (rule logs_andthen [OF final])
    fix final l'
    assume l': "later l l'" and "?A final l'"
    then show "logs l' (case final of
            Inl e \<Rightarrow>
              recover env config (mk_fault FinalSubmissionKind (exn_message e) None) (Some x) turn cv ev b depth
          | Inr (Some r) \<Rightarrow> ret (Final r)
          | Inr None \<Rightarrow>
              andthen (lift (controller_observation (hs_observation (cfg_harness config)) None (Some x)
                        (max_observation_chars (cfg_limits config)))) (\<lambda>observation.
              andthen (lift (append_observation cv observation)) (\<lambda>cv'.
              andthen (emit env (ControllerObservationPayload (PDict observation)) b depth ev) (\<lambda>event.
                ret (Continue cv' event))))) good_outcome"
      by (auto intro!: recovered logs_ret logs_lift_then observed simp: good_outcome_def split: sum.split option.split)
  qed
qed

lemma logs_run_cell:
  assumes "\<And>op p t l'. later l l' \<Longrightarrow> logs l' (h op p t) (\<lambda>_ _. True)"
  shows "logs l (run_cell h c) (\<lambda>_ _. True)"
  using assms
proof (induction c arbitrary: l)
  case (CellDone r)
  then show ?case by (simp add: logs_lift)
next
  case (CellCall op p t k)
  show ?case
    unfolding logs_def
  proof (intro allI impI)
    fix st :: "'a run_state"
    assume st: "sink_log (st_sink st) l"
    obtain u r where u: "h op p t st = (u, r)" by (cases "h op p t st")
    have "wp (h op p t) (\<lambda>x. since l (\<lambda>_. True)) (\<lambda>_. since l (\<lambda>_. True)) st"
      using CellCall.prems [OF later_refl] st by (simp add: logs_def)
    then have "since l (\<lambda>_. True) u" using u by (auto simp: wp_def split: sum.split_asm)
    then obtain l' where l': "later l l'" "sink_log (st_sink u) l'" by (auto simp: since_def)
    have "logs l' (run_cell h (k r)) (\<lambda>_ _. True)"
      by (rule CellCall.IH [of "k r"]) (simp, blast intro: CellCall.prems later_trans [OF l'(1)])
    then have "wp (run_cell h (k r)) (\<lambda>_. since l' (\<lambda>_. True)) (\<lambda>_. since l' (\<lambda>_. True)) u"
      using l'(2) by (simp add: logs_def)
    then have "wp (run_cell h (k r)) (\<lambda>_. since l (\<lambda>_. True)) (\<lambda>_. since l (\<lambda>_. True)) u"
      by (rule wp_mono) (auto intro: since_later [OF l'(1)])
    then show "wp (run_cell h (CellCall op p t k)) (\<lambda>_. since l (\<lambda>_. True)) (\<lambda>_. since l (\<lambda>_. True)) st"
      using u by (simp add: wp_def)
  qed
qed

lemma logs_settle_children:
  assumes "\<And>v l'. later l l' \<Longrightarrow> logs l' (f v) (\<lambda>_ _. True)"
  shows "logs l (settle_children f vs) (\<lambda>_ _. True)"
  using assms
proof (induction vs arbitrary: l)
  case Nil
  then show ?case by (simp add: logs_ret)
next
  case (Cons v vs)
  have rest: "logs l' (andthen (settle_children f vs) (\<lambda>rs. ret (r # rs))) (\<lambda>_ _. True)" if "later l l'" for l' r
    by (rule logs_andthen [OF Cons.IH]) (blast intro: Cons.prems later_trans [OF that], rule logs_ret, simp)
  have "settle_children f (v # vs) =
      andthen (catch (andthen (f v) (\<lambda>x. ret (Inr x))) (\<lambda>e. if is_exception e then ret (Inl e) else raise e))
        (\<lambda>r. andthen (settle_children f vs) (\<lambda>rs. ret (r # rs)))"
    by (intro ext) (simp add: andthen_def catch_def ret_def raise_def split: prod.split sum.split)
  moreover have "logs l (catch (andthen (f v) (\<lambda>x. ret (Inr x))) (\<lambda>e. if is_exception e then ret (Inl e) else raise e))
      (\<lambda>_ _. True)"
    by (rule logs_catch [OF logs_andthen [OF Cons.prems]]) (auto intro: logs_ret logs_raise)
  ultimately show ?case using rest by (auto intro: logs_andthen)
qed

lemma logs_parallel_map:
  "(\<And>v l'. later l l' \<Longrightarrow> logs l' (f v) (\<lambda>_ _. True)) \<Longrightarrow> logs l (parallel_map f vs) (\<lambda>_ _. True)"
  unfolding parallel_map_def
  by (auto intro!: logs_ret logs_andthen [OF logs_settle_children] logs_lift)

definition logs_child :: "'w branch_runner \<Rightarrow> bool" where
  "logs_child child \<longleftrightarrow> (\<forall>q n b p d l. refers l p (causes BRANCH_STARTED) \<longrightarrow>
     logs l (child q n b p d) (\<lambda>r l'. refers l' (br_event r) {BRANCH_COMPLETED}))"

lemma logs_handle:
  assumes "logs_child child" "refers l p {CONTROLLER_ACTION}"
  shows "logs l (handle_action env rx child q depth b p d op payload) (\<lambda>_ _. True)"
proof -
  have one: "logs l' (complete_one env rx depth b p d role body) (\<lambda>_ _. True)" if "later l l'" for l' role body
    unfolding complete_one_def
    by (rule logs_andthen [OF logs_call_model])
       (rule refers_mono [OF refers_later [OF that assms(2)]], auto intro!: logs_ret split: prod.split)
  have child: "logs l' (run_child env child depth p d body) (\<lambda>_ _. True)" if "later l l'" for l' body
  proof -
    have "refers l' p (causes BRANCH_STARTED)" by (rule refers_mono [OF refers_later [OF that assms(2)]]) auto
    then have "logs l' (child body (depth + 1) c p (Some d)) (\<lambda>r l'. refers l' (br_event r) {BRANCH_COMPLETED})" for c
      using assms(1) by (auto simp: logs_child_def)
    then show ?thesis
      unfolding run_child_def
      by (intro logs_skips) (rule logs_andthen, assumption, rule logs_ret, simp)
  qed
  have batch: "logs l (andthen (parallel_map f bodies) (\<lambda>rs. ret (PList rs))) (\<lambda>_ _. True)"
    if "\<And>body l'. later l l' \<Longrightarrow> logs l' (f body) (\<lambda>_ _. True)" for f bodies
    by (rule logs_andthen [OF logs_parallel_map [OF that]]) (auto intro: logs_ret)
  show ?thesis
    unfolding handle_action_def
    by (cases op; cases payload)
       (simp_all only: prod.case host_operation.case host_payload.case,
        (intro logs_skips logs_raise batch one child later_refl | assumption)+)
qed

lemma logs_turn:
  assumes "logs_child child" "refers l parent (causes MODEL_REQUEST)"
  shows "logs l (run_turn env rx child q ex depth b d turn cv parent) good_outcome"
proof -
  have handler: "logs l1 (turn_handler env rx child q depth b ev op pl t) (\<lambda>_ _. True)"
    if "refers l1 ev {CONTROLLER_ACTION}" for l1 ev op pl t
    unfolding turn_handler_def
    by (intro logs_skips, rule logs_andthen [OF logs_handle [OF assms(1) that]], intro logs_skips logs_ret) simp
  have exec: "logs l1 (execute_action env rx child q ex depth b d src ev) (\<lambda>_ _. True)"
    if "refers l1 ev {CONTROLLER_ACTION}" for l1 src ev
    unfolding execute_action_def
    by (intro logs_skips logs_run_cell handler) (rule refers_later [OF _ that])
  have acted: "logs l1 (andthen (execute_action env rx child q ex depth b d src ev) (\<lambda>execution.
                andthen (emit env (ControllerExecutionPayload execution) b depth ev) (\<lambda>execution_event.
                andthen (lift (raise_host_failure execution)) (\<lambda>_.
                  after_execution env (rx_config rx) q execution turn cv1 execution_event b depth)))) good_outcome"
    if ev: "refers l1 ev {CONTROLLER_ACTION}" for l1 src ev cv1
  proof (rule logs_andthen [OF exec [OF ev]])
    fix execution l2
    assume "later l1 l2"
    then have "refers l2 ev {CONTROLLER_ACTION}" using ev refers_later by blast
    then show "logs l2 (andthen (emit env (ControllerExecutionPayload execution) b depth ev) (\<lambda>execution_event.
                andthen (lift (raise_host_failure execution)) (\<lambda>_.
                  after_execution env (rx_config rx) q execution turn cv1 execution_event b depth))) good_outcome"
      by (intro logs_emit_then) (auto simp: run_level_def intro!: logs_lift_then logs_after)
  qed
  have responded: "logs l1 (let cv1 = append_response cv response
         in if pget response ''status'' = PStr ''incomplete''
            then recover env (rx_config rx)
                   (mk_fault ModelOutputKind ''controller response is incomplete''
                      (Some [(''incomplete_details'', pget response ''incomplete_details'')]))
                   None turn cv1 ev b depth
            else case parse_action response of
              Inl (ProtocolErr m cp) \<Rightarrow>
                recover env (rx_config rx) (mk_fault ControllerProtocolFault m None) None turn cv1 ev b depth
            | Inl e \<Rightarrow> raise e
            | Inr action \<Rightarrow>
                andthen (emit env (ControllerActionPayload (ca_code action)) b depth ev) (\<lambda>action_event.
                andthen (execute_action env rx child q ex depth b d (ca_code action) action_event) (\<lambda>execution.
                andthen (emit env (ControllerExecutionPayload execution) b depth action_event) (\<lambda>execution_event.
                andthen (lift (raise_host_failure execution)) (\<lambda>_.
                  after_execution env (rx_config rx) q execution turn cv1 execution_event b depth))))) good_outcome"
    if ev: "refers l1 ev {MODEL_RESPONSE}" for l1 response ev
  proof -
    have recovered: "logs l1 (recover env (rx_config rx) made x turn cv1 ev b depth) good_outcome" for made x cv1
      by (rule logs_recover, rule refers_mono [OF ev]) simp
    have action: "logs l1 (andthen (emit env (ControllerActionPayload src) b depth ev) (\<lambda>action_event.
                andthen (execute_action env rx child q ex depth b d src action_event) (\<lambda>execution.
                andthen (emit env (ControllerExecutionPayload execution) b depth action_event) (\<lambda>execution_event.
                andthen (lift (raise_host_failure execution)) (\<lambda>_.
                  after_execution env (rx_config rx) q execution turn cv1 execution_event b depth))))) good_outcome" for src cv1
      by (rule logs_emit_then) (use ev in \<open>auto simp: run_level_def intro!: acted\<close>)
    show ?thesis
      unfolding Let_def
      by (cases "pget response ''status'' = PStr ''incomplete''")
         (simp_all only: if_True if_False recovered, auto intro!: recovered action logs_raise split: sum.split exn.split)
  qed
  show ?thesis
    unfolding run_turn_def Let_def [of "rx_config rx"]
    by (intro logs_skips, rule logs_andthen [OF logs_call_model [OF assms(2)]])
       (auto split: prod.split intro!: responded)
qed

lemma logs_turns:
  assumes "logs_child child" "refers l parent (causes MODEL_REQUEST)"
  shows "logs l (run_turns env rx child q ex depth b d n turn cv parent)
     (\<lambda>r l'. case r of None \<Rightarrow> True | Some br \<Rightarrow> refers l' (br_event br) {BRANCH_COMPLETED})"
  using assms(2)
proof (induction n arbitrary: l turn cv parent)
  case 0
  then show ?case by (simp add: logs_ret)
next
  case (Suc n)
  show ?case
    unfolding run_turns.simps
    by (rule logs_andthen [OF logs_turn [OF assms(1) Suc.prems]])
       (auto simp: good_outcome_def intro!: logs_ret Suc.IH split: turn_outcome.splits)
qed

lemma logs_branch:
  assumes "logs_child child"
  shows "logs_child (branch env rx child)"
proof -
  let ?P = "\<lambda>r l'. case r of None \<Rightarrow> True | Some br \<Rightarrow> refers l' (br_event br) {BRANCH_COMPLETED}"
  have body: "logs l (andthen (with_executor env ex (if c then raise e else run_turns env rx child q ex depth b d n 1 cv ev))
      (\<lambda>r. case r of Some br \<Rightarrow> ret br | None \<Rightarrow> raise e')) (\<lambda>r l'. refers l' (br_event r) {BRANCH_COMPLETED})"
    if "refers l ev {BRANCH_STARTED}" for l ex c e e' q depth b d n cv ev
  proof -
    have "refers l ev (causes MODEL_REQUEST)" using that by (rule refers_mono) simp
    then have turns: "logs l (if c then raise e else run_turns env rx child q ex depth b d n 1 cv ev) ?P"
      by (auto intro: logs_raise logs_turns [OF assms])
    have guarded: "logs l (catch (if c then raise e else run_turns env rx child q ex depth b d n 1 cv ev)
        (\<lambda>e. catch (andthen (outside_call (env_executor_close env ex)) (\<lambda>_. raise e)) (\<lambda>_. raise e))) ?P"
      by (rule logs_catch [OF turns]) (intro logs_catch logs_skips logs_raise)
    have "logs l (with_executor env ex (if c then raise e else run_turns env rx child q ex depth b d n 1 cv ev)) ?P"
      unfolding with_executor_def
      by (rule logs_andthen [OF guarded]) (intro logs_skips logs_ret)
    then show ?thesis
      by (rule logs_andthen) (auto intro!: logs_ret logs_raise split: option.splits)
  qed
  show ?thesis
    unfolding logs_child_def
  proof (intro allI impI)
    fix q depth b p d l
    assume p: "refers l p (causes BRANCH_STARTED)"
    show "logs l (branch env rx child q depth b p d) (\<lambda>r l'. refers l' (br_event r) {BRANCH_COMPLETED})"
      unfolding branch_def Let_def
      by (intro logs_skips, rule logs_emit_then, simp add: p [simplified], simp add: run_level_def,
          intro logs_skips body) simp
  qed
qed

lemma logs_run_branch: "logs_child (run_branch env rx)"
proof -
  have "logs_child (branch_levels env rx n)" for n
  proof (induction n)
    case 0
    show ?case unfolding branch_levels.simps by (rule logs_branch) (simp add: logs_child_def logs_raise)
  next
    case (Suc n)
    then show ?case by (simp add: logs_branch)
  qed
  then show ?thesis by (simp add: logs_child_def run_branch_def)
qed

end

section \<open>Whole runs\<close>

lemma andthen_assoc: "andthen (andthen m f) g = andthen m (\<lambda>x. andthen (f x) g)"
  by (intro ext) (simp add: andthen_def split: prod.split sum.split)

lemma ret_andthen: "andthen (ret x) f = f x"
  by (intro ext) (simp add: andthen_def ret_def)

text \<open>The log of a run that is over its inner part, with the kinds of its last events.\<close>

definition ended :: "node list option \<Rightarrow> trace_event_kind list set \<Rightarrow> 'w run_state \<Rightarrow> bool" where
  "ended l tails st \<longleftrightarrow>
     (\<exists>l' tail. later l l' \<and> map fst tail \<in> tails \<and> sink_log (st_sink st) (map_option (\<lambda>ns. ns @ tail) l'))"

lemma ended_mono: "ended l T st \<Longrightarrow> T \<subseteq> U \<Longrightarrow> ended l U st"
  unfolding ended_def by blast

lemma ended_still: "ended l T s \<Longrightarrow> same_sink s t \<Longrightarrow> ended l T t"
  by (simp add: ended_def same_sink_def)

lemma map_option_Nil [simp]: "map_option (\<lambda>ns. ns @ []) l = l"
  by (simp add: option.map_ident)

lemma push_append: "push (map_option (\<lambda>ns. ns @ tail) l) n = map_option (\<lambda>ns. ns @ tail @ [n]) l"
  by (cases l) auto

lemma since_ended: "since l P st \<Longrightarrow> ended l {[]} st"
proof -
  assume "since l P st"
  then obtain l' where "later l l'" "sink_log (st_sink st) l'" by (auto simp: since_def)
  then have "later l l' \<and> map fst ([] :: node list) \<in> {[]} \<and> sink_log (st_sink st) (map_option (\<lambda>ns. ns @ []) l')"
    by (simp add: option.map_ident)
  then show ?thesis unfolding ended_def by blast
qed

lemma wp_still:
  assumes "keeps same_sink m" "ended l T st"
  shows "wp m (\<lambda>_. ended l T) (\<lambda>_. ended l T) st"
  by (rule wpI) (blast intro: ended_still [OF assms(2)] keepsD [OF assms(1)])+

definition closed_sink :: "'w run_state \<Rightarrow> bool" where
  "closed_sink st \<longleftrightarrow> (case st_sink st of NullTraceSink \<Rightarrow> True | Recorder r \<Rightarrow> rc_closed r)"

text \<open>Steps that never raise.\<close>

lemma wp_then_sure:
  "wp m (\<lambda>_ _. True) (\<lambda>_ _. False) s \<Longrightarrow> (\<And>x t. wp (f x) Q E t) \<Longrightarrow> wp (andthen m f) Q E s"
  unfolding wp_andthen by (erule wp_mono) simp_all

lemma sure_outside: "wp (outside f) (\<lambda>_ _. True) (\<lambda>_ _. False) s"
  by (simp add: wp_def outside_def split: prod.split)

lemma sure_stats: "wp (ledger_op env (\<lambda>now lg. (lg, Inr (stats lg now)))) (\<lambda>_ _. True) (\<lambda>_ _. False) s"
  by (simp add: wp_def ledger_op_def andthen_def outside_def on_ledger_def split: prod.split)

lemma sure_duration:
  "wp (case c of Some d \<Rightarrow> ret d | None \<Rightarrow> andthen (outside f) (\<lambda>now. ret (now - t0))) (\<lambda>_ _. True) (\<lambda>_ _. False) s"
  by (simp add: wp_simps split: option.split) (simp add: wp_def outside_def ret_def split: prod.split)

lemma sink_close_closes: "sink_close sink made io = (Recorder rc, res) \<Longrightarrow> rc_closed rc"
  by (cases sink) (auto dest: close_recorder_fields(1) split: prod.split_asm)

text \<open>A trace: its start, events of branches, models and controllers, and a last part.\<close>

definition trace_shape :: "node list \<Rightarrow> trace_event_kind list set \<Rightarrow> bool" where
  "trace_shape ns tails \<longleftrightarrow>
     (\<exists>inner tail. ns = (RUN_STARTED, None) # inner @ tail
        \<and> list_all (\<lambda>n. fst n \<notin> run_level) inner \<and> map fst tail \<in> tails)"

context tidy_environment
begin

text \<open>The last steps of a run: its terminal event, and the result.\<close>

lemma ended_completed:
  assumes "logs l m (\<lambda>x l'. refers l' (parent x) (causes RUN_COMPLETED))"
    and "\<And>x. payload_kind (p x) = RUN_COMPLETED" "\<And>x. keeps same_sink (fin x)"
    and st: "sink_log (st_sink st) l"
  shows "wp (andthen m (\<lambda>x. andthen (emit env (p x) root_branch 0 (parent x)) (\<lambda>_. fin x)))
     (\<lambda>_. ended l {[RUN_COMPLETED]}) (\<lambda>_. ended l {[], [RUN_COMPLETED]}) st"
proof -
  have step: "wp (andthen (emit env (p x) root_branch 0 (parent x)) (\<lambda>_. fin x))
      (\<lambda>_. ended l {[RUN_COMPLETED]}) (\<lambda>_. ended l {[], [RUN_COMPLETED]}) t"
    if at: "since l (\<lambda>l'. refers l' (parent x) (causes RUN_COMPLETED)) t" for x t
  proof -
    obtain l' where l': "later l l'" "sink_log (st_sink t) l'" "refers l' (parent x) (causes RUN_COMPLETED)"
      using at by (auto simp: since_def)
    have cause: "fst (ns ! j) \<in> causes (payload_kind (p x))" if "l' = Some ns" "parent x = Some (event_name j)" for ns j
      using l'(3) that refers_cause assms(2) by metis
    obtain u r where u: "emit env (p x) root_branch 0 (parent x) t = (u, r)" by fastforce
    note emitted = emit_step [OF u l'(2) cause]
    show ?thesis
    proof (cases r)
      case (Inl e)
      then have "st_sink u = st_sink t" using emitted by blast
      then have "ended l {[]} u" using since_ended [OF at] by (simp add: ended_def)
      then show ?thesis using u Inl by (auto simp: wp_def andthen_def intro: ended_mono)
    next
      case (Inr i)
      then obtain q where "sink_log (st_sink u) (push l' (RUN_COMPLETED, q))" using emitted assms(2) by metis
      then have "sink_log (st_sink u) (map_option (\<lambda>ns. ns @ [(RUN_COMPLETED, q)]) l')" by (cases l') simp_all
      then have "ended l {[RUN_COMPLETED]} u"
        unfolding ended_def using l'(1) by (intro exI [of _ l'] exI [of _ "[(RUN_COMPLETED, q)]"]) simp
      then have "wp (fin x) (\<lambda>_. ended l {[RUN_COMPLETED]}) (\<lambda>_. ended l {[RUN_COMPLETED]}) u"
        by (rule wp_still [OF assms(3)])
      then have "wp (fin x) (\<lambda>_. ended l {[RUN_COMPLETED]}) (\<lambda>_. ended l {[], [RUN_COMPLETED]}) u"
        by (rule wp_mono) (auto intro: ended_mono)
      then show ?thesis using u Inr by (simp add: wp_andthen) (simp add: wp_def)
    qed
  qed
  have "wp m (\<lambda>x. since l (\<lambda>l'. refers l' (parent x) (causes RUN_COMPLETED))) (\<lambda>_. since l (\<lambda>_. True)) st"
    using assms(1) st by (simp add: logs_def)
  then show ?thesis
    unfolding wp_andthen
    by (rule wp_mono) (use step in \<open>auto simp: wp_andthen dest!: since_ended intro: ended_mono\<close>)
qed

lemma still_finish: "keeps same_sink (finish_run env ro response sr n)"
proof -
  have "keeps same_sink (\<lambda>st. (st\<lparr>st_completed := Some d\<rparr>, Inr ()))" for d by (simp add: keeps_def same_sink_def)
  then show ?thesis unfolding finish_run_def Let_def by (intro still_operations)
qed

lemma run_body_ended:
  assumes "refers l ev {RUN_STARTED}" "sink_log (st_sink st) l"
  shows "wp (run_body env ro ev) (\<lambda>_. ended l {[RUN_COMPLETED]}) (\<lambda>_. ended l {[], [RUN_COMPLETED]}) st"
proof -
  let ?update = "\<lambda>(result :: branch_result) (st :: 'w run_state).
     (st\<lparr>st_stop_reason := br_stop_reason result, st_turns := br_turns result\<rparr>, Inr () :: exn + unit)"
  have update: "keeps same_sink (?update result)" for result by (simp add: keeps_def same_sink_def)
  have "refers l ev (causes BRANCH_STARTED)" using assms(1) by (rule refers_mono) simp
  then have "logs l (run_branch env (ro_context ro) (ro_request ro) 0 root_branch ev None)
      (\<lambda>r l'. refers l' (br_event r) {BRANCH_COMPLETED})"
    using logs_run_branch by (simp add: logs_child_def)
  then have "logs l (andthen (run_branch env (ro_context ro) (ro_request ro) 0 root_branch ev None)
      (\<lambda>result. andthen (?update result) (\<lambda>_. ret result))) (\<lambda>r l'. refers l' (br_event r) (causes RUN_COMPLETED))"
    by (rule logs_andthen) (auto intro!: logs_skip [OF update] logs_ret elim: refers_mono)
  note body = this
  have eq: "run_body env ro ev = andthen (andthen (run_branch env (ro_context ro) (ro_request ro) 0 root_branch ev None)
      (\<lambda>result. andthen (?update result) (\<lambda>_. ret result)))
      (\<lambda>result. andthen (emit env (RunCompletedPayload (br_stop_reason result) (br_response result)) root_branch 0
          (br_event result)) (\<lambda>_. finish_run env ro (br_response result) (br_stop_reason result) (br_turns result)))"
    by (simp add: run_body_def andthen_assoc ret_andthen)
  show ?thesis unfolding eq by (rule ended_completed [OF body _ still_finish assms(2)]) simp
qed

lemma direct_body_ended:
  assumes "refers l ev {RUN_STARTED}" "sink_log (st_sink st) l"
  shows "wp (direct_body env ro ev) (\<lambda>_. ended l {[RUN_COMPLETED]}) (\<lambda>_. ended l {[], [RUN_COMPLETED]}) st"
proof -
  let ?guard = "\<lambda>x :: dict \<times> string option. case validate_terminal_response (PDict (fst x)) of
     Some e \<Rightarrow> raise (BackendProtocol e) | None \<Rightarrow> (ret () :: ('w run_state, unit) act)"
  have guard: "keeps same_sink (?guard x)" for x by (intro still_operations)
  have "refers l ev (causes MODEL_REQUEST)" using assms(1) by (rule refers_mono) simp
  then have "logs l (andthen (call_model env (rlm_backend (rx_rlm (ro_context ro))) (ro_request ro) (rx_run_id (ro_context ro))
       root_branch 0 ev Public None) (\<lambda>x. andthen (?guard x) (\<lambda>_. ret x))) (\<lambda>x l'. refers l' (snd x) (causes RUN_COMPLETED))"
    by (intro logs_andthen [OF logs_call_model]) (auto intro!: logs_skip [OF guard] logs_ret elim: refers_mono)
  note body = this
  have eq: "direct_body env ro ev = andthen (andthen (call_model env (rlm_backend (rx_rlm (ro_context ro))) (ro_request ro)
       (rx_run_id (ro_context ro)) root_branch 0 ev Public None) (\<lambda>x. andthen (?guard x) (\<lambda>_. ret x)))
      (\<lambda>x. andthen (emit env (RunCompletedPayload ''direct'' (fst x)) root_branch 0 (snd x))
         (\<lambda>_. finish_run env ro (fst x) ''direct'' 0))"
    by (simp add: direct_body_def andthen_assoc ret_andthen split_def)
  show ?thesis unfolding eq by (rule ended_completed [OF body _ still_finish assms(2)]) simp
qed

text \<open>Failure and closing.\<close>

lemma fail_run_ended:
  assumes "ended l {[], [RUN_COMPLETED]} st"
  shows "wp (fail_run env ev e :: ('w run_state, 'b) act) Q
     (\<lambda>_. ended l {[], [RUN_COMPLETED], [RUN_FAILED], [RUN_COMPLETED, RUN_FAILED]}) st"
proof -
  let ?T = "{[], [RUN_COMPLETED], [RUN_FAILED], [RUN_COMPLETED, RUN_FAILED]}"
  let ?p = "RunFailedPayload (engine_error_record e)" and ?parent = "or_parent (failure_parent_event_id e) ev"
  define s where "s = st\<lparr>st_error := Some e\<rparr>"
  have "same_sink st s" by (simp add: s_def same_sink_def)
  then have s: "ended l {[], [RUN_COMPLETED]} s" by (rule ended_still [OF assms])
  obtain l' tail where l': "later l l'" "map fst tail \<in> {[], [RUN_COMPLETED]}"
    "sink_log (st_sink s) (map_option (\<lambda>ns. ns @ tail) l')"
    using s unfolding ended_def by (elim exE conjE) (rule that)
  obtain t r where t: "emit env ?p root_branch 0 ?parent s = (t, r)" by (cases "emit env ?p root_branch 0 ?parent s")
  have cause: "n \<in> causes (payload_kind ?p)" for n by simp
  note emitted = emit_step [OF t l'(3) cause, unfolded payload_kind.simps]
  have "ended l ?T t"
  proof (cases r)
    case (Inl x)
    then have "same_sink s t" unfolding same_sink_def using emitted by blast
    then have "ended l {[], [RUN_COMPLETED]} t" by (rule ended_still [OF s])
    then show ?thesis by (rule ended_mono) auto
  next
    case (Inr i)
    then obtain q where "sink_log (st_sink t) (push (map_option (\<lambda>ns. ns @ tail) l') (RUN_FAILED, q))"
      using emitted by blast
    then have "sink_log (st_sink t) (map_option (\<lambda>ns. ns @ tail @ [(RUN_FAILED, q)]) l')" by (simp add: push_append)
    moreover have "map fst (tail @ [(RUN_FAILED, q)]) \<in> ?T" using l'(2) by auto
    ultimately show ?thesis unfolding ended_def
      using l'(1) by (intro exI [of _ l'] exI [of _ "tail @ [(RUN_FAILED, q)]"] conjI)
  qed
  then show ?thesis
    using t by (cases r) (auto simp: fail_run_def wp_def andthen_def raise_def s_def split: prod.split)
qed

lemma recorder_log_close: "close_recorder r made io = (r', res) \<Longrightarrow> recorder_log r ns \<Longrightarrow> recorder_log r' ns"
  unfolding recorder_log_def using close_recorded by blast

lemma close_trace_ended:
  assumes "ended l T st"
  shows "wp (close_trace env ro reason) (\<lambda>_ t. ended l T t \<and> closed_sink t) (\<lambda>_ t. ended l T t \<and> closed_sink t) st"
proof (cases "st_sink st")
  case NullTraceSink
  then show ?thesis using assms by (simp add: close_trace_def wp_simps closed_sink_def)
next
  case (Recorder r)
  have shut: "ended l T (s\<lparr>st_sink := sink\<rparr>) \<and> closed_sink (s\<lparr>st_sink := sink\<rparr>)"
    if "sink_close (st_sink s) made io = (sink, res)" "ended l T s" for s made io sink res
  proof (cases "st_sink s")
    case NullTraceSink
    then have "same_sink s (s\<lparr>st_sink := sink\<rparr>)" using that(1) by (simp add: same_sink_def)
    moreover have "closed_sink (s\<lparr>st_sink := sink\<rparr>)" using that(1) NullTraceSink by (simp add: closed_sink_def)
    ultimately show ?thesis using ended_still [OF that(2)] by blast
  next
    case (Recorder rc)
    obtain rc' x where c: "close_recorder rc made io = (rc', x)" by fastforce
    then have sink: "sink = trace_sink.Recorder rc'" using that(1) Recorder by auto
    have "sink_log sink l1" if "sink_log (st_sink s) l1" for l1
      using that Recorder sink recorder_log_close [OF c] by auto
    then have "ended l T (s\<lparr>st_sink := sink\<rparr>)" using that(2) unfolding ended_def by auto
    then show ?thesis using close_recorder_fields(1) [OF c] sink by (simp add: closed_sink_def)
  qed
  let ?C = "\<lambda>_ t. ended l T t \<and> closed_sink t"
  have final: "wp (\<lambda>st'. case sink_close (st_sink st') made io of (sink, res) \<Rightarrow> (st'\<lparr>st_sink := sink\<rparr>, res)) ?C ?C s"
    if "ended l T s" for made io s
    using shut [OF _ that] by (auto simp: wp_def split: prod.split sum.split)
  have skip: "wp (andthen m f) ?C ?C s"
    if "keeps same_sink m" "ended l T s" "\<And>s. keeps same_sink m \<Longrightarrow> wp m (\<lambda>_ _. True) (\<lambda>_ _. False) s"
      "\<And>x t. ended l T t \<Longrightarrow> wp (f x) ?C ?C t" for m :: "('w run_state, 'b) act" and f s
  proof -
    have "wp m (\<lambda>_. ended l T) (\<lambda>_ _. False) s"
      using wp_conj [OF wp_still [OF that(1,2)] that(3) [OF that(1), of s]] by (rule wp_mono) auto
    then show ?thesis unfolding wp_andthen by (rule wp_mono) (use that(4) in auto)
  qed
  show ?thesis
    using assms Recorder
    by (simp add: close_trace_def wp_read_state wp_andthen [of read_state])
       (intro skip final sure_outside sure_stats sure_duration still_operations, assumption?)
qed

lemma supervise_ended:
  assumes "wp body (\<lambda>_. ended l {[RUN_COMPLETED]}) (\<lambda>_. ended l {[], [RUN_COMPLETED]}) st"
  shows "wp (supervise env ro reason ev body)
     (\<lambda>_ t. ended l {[RUN_COMPLETED]} t \<and> closed_sink t)
     (\<lambda>_ t. ended l {[], [RUN_COMPLETED], [RUN_FAILED], [RUN_COMPLETED, RUN_FAILED]} t \<and> closed_sink t) st"
    (is "wp _ ?Q ?E _")
proof -
  let ?T = "{[], [RUN_COMPLETED], [RUN_FAILED], [RUN_COMPLETED, RUN_FAILED]}"
  have fine: "wp (close_trace env ro reason) (\<lambda>_. ?Q x) ?E t" if "ended l {[RUN_COMPLETED]} t" for t x
    by (rule wp_mono [OF close_trace_ended [OF that]]) (auto elim: ended_mono)
  have broken: "wp (close_trace env ro reason) (\<lambda>_. ?E e) ?E t" if "ended l ?T t" for t e
    by (rule wp_mono [OF close_trace_ended [OF that]]) simp_all
  have failed: "wp (fail_run env ev e) (\<lambda>x. wp (close_trace env ro reason) (\<lambda>_. ?Q x) ?E)
      (\<lambda>e. wp (close_trace env ro reason) (\<lambda>_. ?E e) ?E) t" if "ended l {[], [RUN_COMPLETED]} t" for t e
    by (rule wp_mono [OF fail_run_ended [OF that, where Q = "\<lambda>_ _. False"]]) (simp_all add: broken)
  show ?thesis
    unfolding supervise_def wp_finally wp_catch
    by (rule wp_mono [OF assms]) (simp_all add: fine failed)
qed

lemma recorded_run_trace:
  assumes body: "\<And>l ev st. refers l ev {RUN_STARTED} \<Longrightarrow> sink_log (st_sink st) l \<Longrightarrow>
      wp (body ev) (\<lambda>_. ended l {[RUN_COMPLETED]}) (\<lambda>_. ended l {[], [RUN_COMPLETED]}) st"
    and st: "sink_log (st_sink st) l" "l = None \<or> l = Some []"
    and run: "recorded_run env ro reason body st = (t, r)" "st_sink t = trace_sink.Recorder rc"
  shows "\<exists>ns. recorder_log rc ns
     \<and> (case r of Inr x \<Rightarrow> rc_closed rc \<and> trace_shape ns {[RUN_COMPLETED]}
        | Inl e \<Rightarrow> ns = [] \<or> rc_closed rc \<and>
            trace_shape ns {[], [RUN_COMPLETED], [RUN_FAILED], [RUN_COMPLETED, RUN_FAILED]})"
proof -
  let ?T = "{[], [RUN_COMPLETED], [RUN_FAILED], [RUN_COMPLETED, RUN_FAILED]}"
  have unchanged: ?thesis if "st_sink t = st_sink st" "r = Inl e" for e
  proof -
    have "st_sink st = trace_sink.Recorder rc" using that(1) run(2) by simp
    then have "recorder_log rc []" using st by auto
    then show ?thesis using that(2) by auto
  qed
  obtain made where made: "run_started_payload_of (rx_config (ro_context ro)) (ro_request ro) = made" by simp
  show ?thesis
  proof (cases made)
    case (Inl e)
    then have "t = st \<and> r = Inl e" using run(1) made by (simp add: recorded_run_def andthen_def lift_def)
    then show ?thesis using unchanged by simp
  next
    case (Inr p)
    have kind: "payload_kind p = RUN_STARTED" using made Inr by (auto simp: run_started_payload_of_def ebind_eq_Inr)
    obtain u q where u: "emit env p root_branch 0 None st = (u, q)" by (cases "emit env p root_branch 0 None st")
    have cause: "fst (ns ! j) \<in> causes (payload_kind p)" if "l = Some ns" "j < length ns" for ns j
      using that st(2) by auto
    note started = emit_step [OF u st(1) cause, unfolded kind]
    show ?thesis
    proof (cases q)
      case (Inl e)
      then have "t = u \<and> r = Inl e" using run(1) made Inr u by (simp add: recorded_run_def andthen_def lift_def)
      then show ?thesis using unchanged started Inl by blast
    next
      case (Inr ev)
      then obtain k where k: "sink_log (st_sink u) (push l (RUN_STARTED, k))" "refers (push l (RUN_STARTED, k)) ev {RUN_STARTED}"
        "l \<noteq> None \<longrightarrow> None = map_option event_name k" using started by blast
      let ?l = "push l (RUN_STARTED, k)"
      have sup: "supervise env ro reason ev (body ev) u = (t, r)"
        using run(1) made \<open>made = Inr p\<close> u Inr by (simp add: recorded_run_def andthen_def lift_def)
      note out = wp_result [OF sup supervise_ended [OF body [OF k(2,1)]]]
      have shaped: "\<exists>ns. recorder_log rc ns \<and> trace_shape ns tails" if at: "ended ?l tails t" for tails
      proof -
        obtain l' tail where l': "later ?l l'" "map fst tail \<in> tails" "sink_log (st_sink t) (map_option (\<lambda>ns. ns @ tail) l')"
          using at unfolding ended_def by (elim exE conjE) (rule that)
        obtain ns where ns: "l' = Some ns" "recorder_log rc (ns @ tail)" using l'(3) run(2) by auto
        then have "l = Some []" using l'(1) st(2) by auto
        then obtain inner where "ns = (RUN_STARTED, None) # inner" "list_all (\<lambda>n. fst n \<notin> run_level) inner"
          using l'(1) ns(1) k(3) by auto
        then have "trace_shape (ns @ tail) tails"
          unfolding trace_shape_def using l'(2) by (intro exI [of _ inner] exI [of _ tail]) simp
        then show ?thesis using ns(2) by blast
      qed
      show ?thesis
      proof (cases r)
        case (Inl e)
        then have "ended ?l ?T t" "rc_closed rc" using out run(2) by (simp_all add: closed_sink_def)
        then show ?thesis using shaped Inl by auto
      next
        case (Inr x)
        then have "ended ?l {[RUN_COMPLETED]} t" "rc_closed rc" using out run(2) by (simp_all add: closed_sink_def)
        then show ?thesis using shaped Inr by auto
      qed
    qed
  qed
qed

end

interpretation tidied: tidy_environment "tidied env" for env :: "'w environment"
  by unfold_locales (auto simp: tidied_def split: prod.splits io.splits)

text \<open>The trace an operation leaves behind: it refines the causal grammar, and its outcome shows in its last event.\<close>

definition leaves_trace :: "('w, 'a) run_exit \<Rightarrow> bool" where
  "leaves_trace out \<longleftrightarrow>
     (case out of
        Refused e w \<Rightarrow> True
      | Ended st r \<Rightarrow>
          (case st_sink st of
             NullTraceSink \<Rightarrow> True
           | Recorder rc \<Rightarrow>
               \<exists>ns. recorder_log rc ns
                 \<and> (case r of
                      Inr x \<Rightarrow> rc_closed rc \<and> trace_shape ns {[RUN_COMPLETED]}
                    | Inl e \<Rightarrow> ns = [] \<or> rc_closed rc \<and>
                        trace_shape ns {[], [RUN_COMPLETED], [RUN_FAILED], [RUN_COMPLETED, RUN_FAILED]})))"

lemma new_sink_log:
  "make_trace_sink config run_id base stamp opened = Inr sink \<Longrightarrow> \<exists>l. sink_log sink l \<and> (l = None \<or> l = Some [])"
  by (auto simp: make_trace_sink_def new_recorder_def recorder_log_def recorded_def ebind_eq_Inr
      intro!: causal_growth.empty split: if_split_asm option.split_asm)

lemma run_with_trace:
  assumes "\<And>ro ev l st. refers l ev {RUN_STARTED} \<Longrightarrow> sink_log (st_sink st) l \<Longrightarrow>
      wp (body ro ev) (\<lambda>_. ended l {[RUN_COMPLETED]}) (\<lambda>_. ended l {[], [RUN_COMPLETED]}) st"
  shows "leaves_trace (run_with (\<lambda>ro. recorded_run (tidied env) ro reason (body ro)) (tidied env) self request w)"
proof (cases "open_run (tidied env) self request w")
  case (Pair w' o')
  show ?thesis
  proof (cases o')
    case (Inl e)
    then show ?thesis using Pair by (simp add: run_with_def leaves_trace_def)
  next
    case (Inr x)
    obtain ro sink lg where x: "x = (ro, sink, lg)" by (cases x)
    obtain l where l: "sink_log sink l" "l = None \<or> l = Some []"
      using open_run_Inr(5) [OF Pair [unfolded Inr x]] new_sink_log by blast
    obtain t r where t: "recorded_run (tidied env) ro reason (body ro) (initial_state sink lg w') = (t, r)"
      by (cases "recorded_run (tidied env) ro reason (body ro) (initial_state sink lg w')")
    have init: "sink_log (st_sink (initial_state sink lg w')) l" using l(1) by (simp add: initial_state_def)
    show ?thesis
      using tidied.recorded_run_trace [OF assms init l(2) t] Pair Inr x t
      by (auto simp: run_with_def leaves_trace_def split: trace_sink.split)
  qed
qed


section \<open>Every run closes its trace\<close>

lemma close_trace_closes: "close_trace env ro reason st = (t, r) \<Longrightarrow> closed_sink t"
proof -
  assume c: "close_trace env ro reason st = (t, r)"
  have final: "wp (\<lambda>st'. case sink_close (st_sink st') made io of (sink, res) \<Rightarrow> (st'\<lparr>st_sink := sink\<rparr>, res))
      (\<lambda>_. closed_sink) (\<lambda>_. closed_sink) s" for made io s
    by (auto simp: wp_def closed_sink_def dest: sink_close_closes split: prod.split sum.split trace_sink.split)
  have "wp (close_trace env ro reason) (\<lambda>_. closed_sink) (\<lambda>_. closed_sink) st"
  proof (cases "st_sink st")
    case NullTraceSink
    then show ?thesis by (simp add: close_trace_def wp_simps closed_sink_def)
  next
    case (Recorder rc)
    then show ?thesis
      by (simp add: close_trace_def wp_read_state wp_andthen [of read_state])
         (intro wp_then_sure [OF sure_duration] wp_then_sure [OF sure_stats] wp_then_sure [OF sure_outside] final)
  qed
  then show ?thesis using c by (simp add: wp_def split: sum.split_asm)
qed

text \<open>The state a run is left in: closed, or never started.\<close>

definition settles :: "('w, 'a) run_exit \<Rightarrow> bool" where
  "settles out \<longleftrightarrow>
     (case out of
        Refused e w \<Rightarrow> True
      | Ended st r \<Rightarrow>
          (case st_sink st of
             NullTraceSink \<Rightarrow> True
           | Recorder rc \<Rightarrow> rc_closed rc \<or> rc_event_ids rc = [] \<and> (\<exists>e. r = Inl e)))"

lemma run_with_settles:
  "settles (run_with (\<lambda>ro. recorded_run env ro reason (body ro)) env self request w)"
proof (cases "open_run env self request w")
  case (Pair w' o')
  show ?thesis
  proof (cases o')
    case (Inl e)
    then show ?thesis using Pair by (simp add: run_with_def settles_def)
  next
    case (Inr x)
    obtain ro sink lg where x: "x = (ro, sink, lg)" by (cases x)
    let ?s = "initial_state sink lg w'"
    obtain t r where t: "recorded_run env ro reason (body ro) ?s = (t, r)"
      by (cases "recorded_run env ro reason (body ro) ?s")
    have fresh: "rc_event_ids rc = []" if "sink = trace_sink.Recorder rc" for rc
      using open_run_Inr(5) [OF Pair [unfolded Inr x]] that
      by (auto simp: make_trace_sink_def new_recorder_def ebind_eq_Inr split: if_split_asm option.split_asm)
    have "closed_sink t \<or> (\<exists>e. r = Inl e \<and> (\<forall>rc. st_sink t = trace_sink.Recorder rc \<longrightarrow> rc_event_ids rc = []))"
    proof (cases "run_started_payload_of (rx_config (ro_context ro)) (ro_request ro)")
      case (Inl e)
      then show ?thesis using t fresh by (auto simp: recorded_run_def andthen_def lift_def initial_state_def)
    next
      case (Inr p)
      obtain u q where u: "emit env p root_branch 0 None ?s = (u, q)" by (cases "emit env p root_branch 0 None ?s")
      show ?thesis
      proof (cases q)
        case (Inl e)
        have "rc_event_ids rc = []" if "st_sink u = trace_sink.Recorder rc" for rc
        proof -
          obtain now w1 where now: "env_time env w' = (now, w1)" by (cases "env_time env w'")
          obtain wr w2 where wr: "env_io env w1 = (wr, w2)" by (cases "env_io env w1")
          have "sink_event sink p root_branch 0 None now wr = (st_sink u, q)"
            using u now wr by (auto simp: emit_def andthen_def outside_def initial_state_def split: prod.split_asm)
          then show ?thesis using that Inl fresh
            by (cases sink) (auto simp: record_event_def Let_def split: prod.split_asm if_split_asm sum.split_asm option.split_asm)
        qed
        moreover have "t = u" "r = Inl e" using t Inr u Inl by (simp_all add: recorded_run_def andthen_def lift_def)
        ultimately show ?thesis by blast
      next
        case (Inr ev)
        then have "supervise env ro reason ev (body ro ev) u = (t, r)"
          using t \<open>run_started_payload_of _ _ = Inr p\<close> u by (simp add: recorded_run_def andthen_def lift_def)
        then have "\<exists>v x. close_trace env ro reason v = (t, x)"
          by (auto simp: supervise_def finally_act_def split: prod.split_asm sum.split_asm)
        then show ?thesis using close_trace_closes by blast
      qed
    qed
    then show ?thesis
      using Pair Inr x t by (auto simp: run_with_def settles_def closed_sink_def split: trace_sink.split)
  qed
qed

text \<open>C8: every operation ends, and with its trace closed: for every environment, every request and every behaviour of the
  controller's code, whether the run returns, fails or is interrupted, the recorder has been closed exactly as the
  \<open>finally\<close> clause promises; the one exception is a run whose \<open>run.started\<close> event could not be recorded, which
  raises and leaves an empty trace.\<close>

theorem run_settles:
  "settles (run env self request w) \<and> settles (run_direct env self request w)"
  unfolding run_def run_direct_def by (intro conjI run_with_settles)

end
