(* ===== verification/Trace_Reader.thy ===== *)
theory Trace_Reader
  imports Trace
begin

text \<open>
  \<open>rlm/trace_reader.py\<close>: the strict reader of a trace directory.  The files are read through a function
  from names to their text or the error of reading them (UTF-8 decoding is not modelled: a file is its text);
  a subscript of a missing key is the \<open>KeyError\<close> that \<open>load_trace\<close> turns into a TraceError.
\<close>

section \<open>Elementary requirements\<close>

definition require_nonempty_text :: "py \<Rightarrow> string \<Rightarrow> exn + unit" where
  "require_nonempty_text v nm = ensure (nonempty_str v) (TraceErr (nm @ '' must be a non-empty string''))"

definition require_nonnegative_integer :: "py \<Rightarrow> string \<Rightarrow> exn + unit" where
  "require_nonnegative_integer v nm =
     ensure (case as_int v of Some i \<Rightarrow> 0 \<le> i | None \<Rightarrow> False) (TraceErr (nm @ '' must be a nonnegative integer''))"

definition require_nonnegative_number :: "py \<Rightarrow> string \<Rightarrow> exn + unit" where
  "require_nonnegative_number v nm =
     ensure (case as_number v of Some (Fin r) \<Rightarrow> 0 \<le> r | _ \<Rightarrow> False)
       (TraceErr (nm @ '' must be a finite nonnegative number''))"

definition require_sha256 :: "py \<Rightarrow> string \<Rightarrow> exn + unit" where
  "require_sha256 v nm =
     ensure (case as_str v of Some s \<Rightarrow> is_sha256_text s | None \<Rightarrow> False) (TraceErr (nm @ '' must be a SHA-256 digest''))"

definition require :: "bool \<Rightarrow> string \<Rightarrow> exn + unit" where
  "require b m = ensure b (TraceErr m)"

definition validate_error_record :: "py \<Rightarrow> string \<Rightarrow> exn + unit" where
  "validate_error_record v nm =
     (case error_record_from_dict v of
        Inr r \<Rightarrow> Inr ()
      | Inl e \<Rightarrow> if exn_class e \<in> {''TypeError'', ''ValueError'', ''StrictJSONError''}
          then Inl (TraceErr (nm @ '' is invalid: '' @ exn_message e)) else Inl e)"

definition exact_dataclass_mapping :: "py \<Rightarrow> string \<Rightarrow> string list \<Rightarrow> string list \<Rightarrow> string \<Rightarrow> exn + dict" where
  "exact_dataclass_mapping v cls fs optional nm =
     (case as_dict v of
        None \<Rightarrow> Inl (TraceErr (nm @ '' must be an object''))
      | Some d \<Rightarrow>
          if set fs - set optional \<subseteq> set (keys d) \<and> set (keys d) \<subseteq> set fs then Inr d
          else Inl (TraceErr (nm @ '' fields do not match '' @ cls)))"

section \<open>The files\<close>

definition read_file_once :: "(string \<Rightarrow> exn + string) \<Rightarrow> string \<Rightarrow> exn + string" where
  "read_file_once files file_name =
     (case files file_name of
        Inr t \<Rightarrow> Inr t
      | Inl e \<Rightarrow> if exn_class e = ''OSError''
          then Inl (TraceErr (''cannot read trace artifact '' @ file_name @ '': '' @ exn_message e)) else Inl e)"

definition decode_manifest :: "string \<Rightarrow> exn + dict" where
  "decode_manifest t =
     (case loads t of
        Inl e \<Rightarrow> Inl (TraceErr (''manifest.json requires strict JSON: '' @ exn_message e))
      | Inr v \<Rightarrow> (case as_dict v of
           None \<Rightarrow> Inl (TraceErr ''manifest.json must contain an object'')
         | Some d \<Rightarrow> Inr d))"

fun split_lines :: "string \<Rightarrow> string list" where
  "split_lines [] = [[]]"
| "split_lines (c # cs) =
     (if c = CHR 0x0A then [] # split_lines cs
      else (case split_lines cs of [] \<Rightarrow> [[c]] | l # ls \<Rightarrow> (c # l) # ls))"

fun decode_lines :: "nat \<Rightarrow> string list \<Rightarrow> exn + dict list" where
  "decode_lines i [] = Inr []"
| "decode_lines i (l # ls) =
     (case loads l of
        Inl e \<Rightarrow> Inl (TraceErr (''trace.jsonl line '' @ show_nat i @ '' requires strict JSON: '' @ exn_message e))
      | Inr v \<Rightarrow> (case as_dict v of
           None \<Rightarrow> Inl (TraceErr (''trace.jsonl line '' @ show_nat i @ '' must contain an object''))
         | Some d \<Rightarrow> ebind (decode_lines (Suc i) ls) (\<lambda>ds. Inr (d # ds))))"

definition decode_events :: "string \<Rightarrow> exn + dict list" where
  "decode_events t =
     (if t = [] \<or> last t \<noteq> CHR 0x0A then Inl (TraceErr ''trace.jsonl is empty or truncated'')
      else let ls = butlast (split_lines t)
           in if ls = [] \<or> [] \<in> set ls then Inl (TraceErr ''trace.jsonl contains an empty event line'')
              else decode_lines 1 ls)"

text \<open>\<open>schemas/trace-v1.json\<close>, as far as the reader uses it.\<close>

record trace_contract =
  ct_version :: string
  ct_manifest_fields :: "string list"
  ct_envelope_fields :: "string list"
  ct_event_types :: "string list"
  ct_payload_fields :: "(string \<times> string list) list"

definition trace_v1 :: trace_contract where
  "trace_v1 =
     \<lparr>ct_version = ''1'',
      ct_manifest_fields = [''run_id'', ''status'', ''stop_reason'', ''turns'', ''duration_seconds'', ''usage'',
        ''error'', ''harness'', ''harness_fingerprint'', ''effective_config'', ''environment_abi'',
        ''environment_abi_digest'', ''schema_version''],
      ct_envelope_fields = [''schema_version'', ''run_id'', ''event_id'', ''parent_event_id'', ''branch_id'',
        ''depth'', ''timestamp'', ''type'', ''payload''],
      ct_event_types = [''run.started'', ''run.completed'', ''run.failed'', ''branch.started'', ''branch.completed'',
        ''model.request'', ''model.response'', ''model.failed'', ''controller.action'', ''controller.execution'',
        ''controller.observation'', ''controller.recovery_decision'', ''controller.repair''],
      ct_payload_fields =
       [(''run.started'', [''request'', ''effective_config'', ''harness'', ''harness_fingerprint'',
           ''trace_schema_version'', ''environment_abi'', ''environment_abi_digest'']),
        (''run.completed'', [''stop_reason'', ''response'']),
        (''run.failed'', [''error'']),
        (''branch.started'', [''request'', ''controller_model'', ''prompt'', ''harness'', ''harness_fingerprint'']),
        (''branch.completed'', [''stop_reason'', ''response'']),
        (''model.request'', [''context'', ''request'']),
        (''model.response'', [''context'', ''duration_seconds'', ''response'']),
        (''model.failed'', [''context'', ''duration_seconds'', ''error'']),
        (''controller.action'', [''code'']),
        (''controller.execution'', [''execution'']),
        (''controller.observation'', [''observation'']),
        (''controller.recovery_decision'', [''turn'', ''decision'']),
        (''controller.repair'', [''turn'', ''fault'', ''observation''])]\<rparr>"

section \<open>The manifest\<close>

definition harness_fields :: "string list" where
  "harness_fields = [''prompt'', ''rendered_prompts'', ''schema_version'', ''abi_version'', ''abi_digest'', ''bootstrap'',
     ''recovery'', ''observation'', ''context'', ''prelude'']"

definition as_trace_invalid :: "string \<Rightarrow> exn + 'a \<Rightarrow> exn + 'a" where
  "as_trace_invalid nm r =
     (case r of
        Inr x \<Rightarrow> Inr x
      | Inl e \<Rightarrow> if is_exception e then Inl (TraceErr (nm @ '' is invalid: '' @ exn_message e)) else Inl e)"

definition decode_harness :: "py \<Rightarrow> string \<Rightarrow> exn + harness_spec" where
  "decode_harness v nm =
     ebind (exact_dataclass_mapping v ''HarnessSpec'' harness_fields [''prelude''] nm) (\<lambda>raw.
       as_trace_invalid nm
         (ebind (harness_spec_from_dict raw) (\<lambda>h.
          ebind (harness_to_dict h) (\<lambda>d.
          ebind (ensure (py_eq (PDict d) (PDict raw)) (value_error ''typed round-trip changed the value'')) (\<lambda>_.
          ebind (validate_harness_contract h) (\<lambda>_. Inr h))))))"

definition limit_fields :: "string list" where
  "limit_fields = [''max_turns'', ''max_model_calls'', ''max_subcalls'', ''max_parallel_model_calls'', ''max_depth'',
     ''max_total_tokens'', ''deadline_seconds'', ''execution_timeout_seconds'', ''max_execution_output_chars'',
     ''max_observation_chars'']"

definition decode_effective_config :: "py \<Rightarrow> exn + rlm_config" where
  "decode_effective_config v =
     ebind (exact_dataclass_mapping v ''RLMConfig''
              [''harness'', ''limits'', ''controller'', ''execution'', ''tracing''] [] ''trace effective config'') (\<lambda>raw.
     ebind (decode_harness (pget raw ''harness'') ''trace effective config harness'') (\<lambda>h.
     ebind (exact_dataclass_mapping (pget raw ''limits'') ''RunLimits'' limit_fields []
              ''trace effective config limits'') (\<lambda>limits.
     ebind (exact_dataclass_mapping (pget raw ''controller'') ''ControllerConfig'' [''model'', ''options''] []
              ''trace effective config controller'') (\<lambda>controller.
     ebind (exact_dataclass_mapping (pget raw ''execution'') ''ExecutionConfig'' [''working_directory''] []
              ''trace effective config execution'') (\<lambda>execution.
     ebind (exact_dataclass_mapping (pget raw ''tracing'') ''TraceConfig'' [''enabled'', ''directory'', ''markdown''] []
              ''trace effective config tracing'') (\<lambda>tracing.
     ebind (case ebind (config_of_sections h limits controller execution tracing) (\<lambda>config.
                 ebind (config_to_dict config) (\<lambda>d.
                 ebind (ensure (py_eq (PDict d) (PDict raw)) (value_error ''typed round-trip changed the value''))
                   (\<lambda>_. Inr config))) of
              Inr config \<Rightarrow> Inr config
            | Inl e \<Rightarrow> if exn_class e \<in> {''TypeError'', ''ValueError'', ''StrictJSONError''}
                then Inl (TraceErr (''trace effective config is invalid: '' @ exn_message e)) else Inl e) (\<lambda>config.
     ebind (require (tc_enabled (cfg_tracing config)) ''trace effective config must have tracing enabled'') (\<lambda>_.
       Inr config))))))))"

definition validate_environment_abi :: "py \<Rightarrow> py \<Rightarrow> exn + unit" where
  "validate_environment_abi v digest =
     (case as_dict v of
        None \<Rightarrow> Inl (TraceErr ''trace environment ABI must be an object'')
      | Some d \<Rightarrow>
          ebind (require (py_eq v (PDict (abi_to_dict ENVIRONMENT_ABI)))
                   ''trace environment ABI does not match the typed runtime ABI'') (\<lambda>_.
          ebind (sha_value v) (\<lambda>s.
          ebind (abi_digest ENVIRONMENT_ABI) (\<lambda>installed.
            require (py_eq (PStr s) digest \<and> py_eq digest (PStr installed))
              ''trace environment ABI digest does not match its content''))))"

definition usage_fields :: "string list" where
  "usage_fields = [''model_calls'', ''subcalls'', ''active_model_calls'', ''peak_parallel_model_calls'',
     ''max_model_calls'', ''max_subcalls'', ''max_parallel_model_calls'', ''max_total_tokens'', ''started_at'',
     ''deadline_at'', ''deadline_seconds'', ''elapsed_seconds'', ''remaining_seconds'', ''usage'']"

definition the_int :: "dict \<Rightarrow> string \<Rightarrow> int" where
  "the_int d k = (case as_int (pget d k) of Some i \<Rightarrow> i | None \<Rightarrow> 0)"

definition validate_usage :: "py \<Rightarrow> rlm_config \<Rightarrow> exn + dict" where
  "validate_usage v config =
     ebind (exact_dataclass_mapping v ''_TraceUsage'' usage_fields [] ''trace manifest usage'') (\<lambda>raw.
     ebind (exact_dataclass_mapping (pget raw ''usage'') ''TokenUsage''
              [''input_tokens'', ''output_tokens'', ''calls'', ''unreported_calls''] []
              ''trace manifest token usage'') (\<lambda>tokens.
     ebind (emap (\<lambda>p. require_nonnegative_integer (snd p) (''trace token usage '' @ fst p)) tokens) (\<lambda>_.
     ebind (emap (\<lambda>n. require_nonnegative_integer (pget raw n) (''trace manifest usage '' @ n))
              (take 7 usage_fields)) (\<lambda>_.
     ebind (if pget raw ''max_total_tokens'' = PNone then Inr ()
            else require_nonnegative_integer (pget raw ''max_total_tokens'')
                   ''trace manifest usage max_total_tokens'') (\<lambda>_.
     ebind (emap (\<lambda>n. require_nonnegative_number (pget raw n) (''trace manifest usage '' @ n))
              [''started_at'', ''deadline_at'', ''deadline_seconds'', ''elapsed_seconds'', ''remaining_seconds'']) (\<lambda>_.
     ebind (require (the_int raw ''model_calls'' = the_int tokens ''calls'')
              ''trace manifest usage model_calls disagrees with token usage calls'') (\<lambda>_.
     ebind (require (the_int tokens ''unreported_calls'' \<le> the_int tokens ''calls'')
              ''trace manifest unreported usage calls exceed total calls'') (\<lambda>_.
     ebind (require (the_int raw ''active_model_calls'' = 0)
              ''trace manifest must not retain active model calls'') (\<lambda>_.
     ebind (require (the_int raw ''peak_parallel_model_calls'' \<le> the_int raw ''max_parallel_model_calls'')
              ''trace manifest peak model calls exceed the configured maximum'') (\<lambda>_.
     ebind (require (the_int raw ''model_calls'' \<le> the_int raw ''max_model_calls''
                     \<and> the_int raw ''subcalls'' \<le> the_int raw ''max_subcalls'')
              ''trace manifest usage exceeds configured call limits'') (\<lambda>_.
     ebind (require (the_int raw ''max_model_calls'' = max_model_calls (cfg_limits config)
                     \<and> the_int raw ''max_subcalls'' = max_subcalls (cfg_limits config)
                     \<and> the_int raw ''max_parallel_model_calls'' = max_parallel_model_calls (cfg_limits config)
                     \<and> pget raw ''max_total_tokens''
                         = (case max_total_tokens (cfg_limits config) of None \<Rightarrow> PNone | Some t \<Rightarrow> PInt t)
                     \<and> py_eq (pget raw ''deadline_seconds'') (deadline_seconds (cfg_limits config)))
              ''trace manifest usage disagrees with effective config limits'') (\<lambda>_.
       Inr raw))))))))))))"

definition validate_manifest :: "dict \<Rightarrow> string list \<Rightarrow> string \<Rightarrow> exn + rlm_config" where
  "validate_manifest m fs version =
     ebind (require (set (keys m) = set fs) ''trace manifest fields do not match the v1 contract'') (\<lambda>_.
     ebind (require_nonempty_text (pget m ''run_id'') ''manifest run_id'') (\<lambda>_.
     ebind (require (pget m ''schema_version'' = PStr version)
              ''trace manifest schema_version does not match the v1 contract'') (\<lambda>_.
     ebind (require (pget m ''status'' \<in> {PStr ''completed'', PStr ''failed''}) ''trace manifest status is invalid'') (\<lambda>_.
     ebind (if pget m ''status'' = PStr ''completed'' \<or> pget m ''stop_reason'' \<noteq> PNone
            then require_nonempty_text (pget m ''stop_reason'') ''manifest stop_reason'' else Inr ()) (\<lambda>_.
     ebind (require_nonnegative_integer (pget m ''turns'') ''manifest turns'') (\<lambda>_.
     ebind (require_nonnegative_number (pget m ''duration_seconds'') ''manifest duration_seconds'') (\<lambda>_.
     ebind (require_sha256 (pget m ''harness_fingerprint'') ''manifest harness_fingerprint'') (\<lambda>_.
     ebind (require_sha256 (pget m ''environment_abi_digest'') ''manifest environment_abi_digest'') (\<lambda>_.
     ebind (decode_harness (pget m ''harness'') ''trace manifest harness'') (\<lambda>h.
     ebind (fingerprint h) (\<lambda>f.
     ebind (require (PStr f = pget m ''harness_fingerprint'')
              ''trace manifest harness fingerprint does not match its content'') (\<lambda>_.
     ebind (decode_effective_config (pget m ''effective_config'')) (\<lambda>config.
     ebind (harness_to_dict (cfg_harness config)) (\<lambda>hd1.
     ebind (harness_to_dict h) (\<lambda>hd2.
     ebind (require (py_eq (PDict hd1) (PDict hd2))
              ''trace manifest harness disagrees with the effective config harness'') (\<lambda>_.
     ebind (validate_environment_abi (pget m ''environment_abi'') (pget m ''environment_abi_digest'')) (\<lambda>_.
     ebind (require (hs_abi_version h = abi_version ENVIRONMENT_ABI)
              ''trace harness ABI version disagrees with the environment ABI'') (\<lambda>_.
     ebind (require (PStr (hs_abi_digest h) = pget m ''environment_abi_digest'')
              ''trace harness ABI digest disagrees with the environment ABI'') (\<lambda>_.
     ebind (validate_usage (pget m ''usage'') config) (\<lambda>_.
     ebind (require (pget m ''status'' \<noteq> PStr ''completed'' \<or> pget m ''error'' = PNone)
              ''completed trace manifest error must be null'') (\<lambda>_.
     ebind (if pget m ''status'' = PStr ''failed''
            then validate_error_record (pget m ''error'') ''trace manifest error'' else Inr ()) (\<lambda>_.
       Inr config))))))))))))))))))))))"

section \<open>One event\<close>

definition ev_type :: "dict \<Rightarrow> string" where
  "ev_type ev = (case as_str (pget ev ''type'') of Some t \<Rightarrow> t | None \<Rightarrow> [])"

definition ev_payload :: "dict \<Rightarrow> dict" where
  "ev_payload ev = (case as_dict (pget ev ''payload'') of Some d \<Rightarrow> d | None \<Rightarrow> [])"

definition require_dict :: "dict \<Rightarrow> string \<Rightarrow> string \<Rightarrow> exn + unit" where
  "require_dict d k m = require (is_dict (pget d k)) m"

definition validate_payload :: "string \<Rightarrow> dict \<Rightarrow> exn + unit" where
  "validate_payload t p =
     (if t = ''run.started'' then
        ebind (emap (\<lambda>n. require_dict p n (''run.started '' @ n @ '' must be an object''))
                 [''request'', ''effective_config'', ''harness'', ''environment_abi'']) (\<lambda>_.
        ebind (require_nonempty_text (pget p ''trace_schema_version'') ''run.started trace_schema_version'') (\<lambda>_.
        ebind (require_sha256 (pget p ''harness_fingerprint'') ''run.started harness_fingerprint'') (\<lambda>_.
        require_sha256 (pget p ''environment_abi_digest'') ''run.started environment_abi_digest'')))
      else if t = ''run.completed'' \<or> t = ''branch.completed'' then
        ebind (require_nonempty_text (pget p ''stop_reason'') (t @ '' stop_reason'')) (\<lambda>_.
        case validate_terminal_response (pget p ''response'') of
          Some e \<Rightarrow> Inl (TraceErr (t @ '' response is invalid: '' @ e))
        | None \<Rightarrow> Inr ())
      else if t = ''run.failed'' then validate_error_record (pget p ''error'') ''run.failed error''
      else if t = ''branch.started'' then
        ebind (emap (\<lambda>n. require_dict p n (''branch.started '' @ n @ '' must be an object''))
                 [''request'', ''harness'']) (\<lambda>_.
        ebind (emap (\<lambda>n. require_nonempty_text (pget p n) (''branch.started '' @ n))
                 [''controller_model'', ''prompt'']) (\<lambda>_.
        require_sha256 (pget p ''harness_fingerprint'') ''branch.started fingerprint''))
      else if t = ''model.request'' then require_dict p ''request'' ''model.request request must be an object''
      else if t = ''model.response'' then
        ebind (require_nonnegative_number (pget p ''duration_seconds'') ''model.response duration_seconds'') (\<lambda>_.
        require_dict p ''response'' ''model.response response must be an object'')
      else if t = ''model.failed'' then
        ebind (require_nonnegative_number (pget p ''duration_seconds'') ''model.failed duration_seconds'') (\<lambda>_.
        validate_error_record (pget p ''error'') ''model.failed error'')
      else if t = ''controller.action'' then require_nonempty_text (pget p ''code'') ''controller.action code''
      else if t = ''controller.execution'' then
        require_dict p ''execution'' ''controller.execution execution must be an object''
      else if t = ''controller.recovery_decision'' then
        ebind (require_nonnegative_integer (pget p ''turn'') ''recovery decision turn'') (\<lambda>_.
        require_dict p ''decision'' ''controller recovery decision must be an object'')
      else if t = ''controller.repair'' then
        ebind (require_nonnegative_integer (pget p ''turn'') ''controller repair turn'') (\<lambda>_.
        require_dict p ''fault'' ''controller repair fault must be an object'')
      else Inr ())"

definition validate_event ::
  "trace_contract \<Rightarrow> py \<Rightarrow> nat \<Rightarrow> string list \<Rightarrow> dict \<Rightarrow> exn + unit" where
  "validate_event ct run_id i seen ev =
     (let at_event = ''trace event '' @ show_nat i; parent = pget ev ''parent_event_id'' in
      ebind (require (set (keys ev) = set (ct_envelope_fields ct))
               (at_event @ '' fields do not match the v1 contract'')) (\<lambda>_.
      ebind (require (pget ev ''schema_version'' = PStr (ct_version ct))
               (at_event @ '' schema_version does not match the v1 contract'')) (\<lambda>_.
      ebind (require (py_eq (pget ev ''run_id'') run_id) (at_event @ '' run_id does not match the manifest'')) (\<lambda>_.
      ebind (require (pget ev ''event_id'' = PStr (event_name i) \<and> event_name i \<notin> set seen)
               ''trace event IDs must be unique and ordered'') (\<lambda>_.
      ebind (if i = 0
             then require (parent = PNone \<and> pget ev ''type'' = PStr ''run.started'')
                    ''the first trace event must be run.started with no parent''
             else require (parent \<in> PStr ` set seen) ''trace causal parents must refer only to earlier events'') (\<lambda>_.
      ebind (require_nonempty_text (pget ev ''branch_id'') ''trace event branch_id'') (\<lambda>_.
      ebind (require_nonnegative_integer (pget ev ''depth'') ''trace event depth'') (\<lambda>_.
      ebind (require_nonnegative_number (pget ev ''timestamp'') ''trace event timestamp'') (\<lambda>_.
      ebind (require (pget ev ''type'' \<in> PStr ` set (ct_event_types ct)) (at_event @ '' type is not in the v1 contract'')) (\<lambda>_.
      ebind (require (is_dict (pget ev ''payload'') \<and> dget (ct_payload_fields ct) (ev_type ev) \<noteq> None)
               (at_event @ '' payload is invalid'')) (\<lambda>_.
      ebind (require (set (keys (ev_payload ev)) = set (the (dget (ct_payload_fields ct) (ev_type ev))))
               (at_event @ '' payload fields do not match '' @ ev_type ev)) (\<lambda>_.
        validate_payload (ev_type ev) (ev_payload ev)))))))))))))"

section \<open>Model calls\<close>

record model_call =
  mcl_context :: py
  mcl_request_event :: string
  mcl_response_event :: "string option"
  mcl_response_index :: "nat option"
  mcl_response :: "py option"
  mcl_failed_event :: "string option"

definition validate_model_context :: "py \<Rightarrow> dict \<Rightarrow> exn + dict" where
  "validate_model_context v ev =
     (let t = ev_type ev; d = (case as_dict v of Some d \<Rightarrow> d | None \<Rightarrow> []) in
      ebind (require (is_dict v \<and> set (keys d) = {''run_id'', ''branch_id'', ''call_id'', ''role'', ''depth''})
               (t @ '' context fields are invalid'')) (\<lambda>_.
      ebind (require (py_eq (pget d ''run_id'') (pget ev ''run_id'')) (t @ '' context run_id does not match the event'')) (\<lambda>_.
      ebind (require (py_eq (pget d ''branch_id'') (pget ev ''branch_id''))
               (t @ '' context branch_id does not match the event'')) (\<lambda>_.
      ebind (require (py_eq (pget d ''depth'') (pget ev ''depth'')) (t @ '' context depth does not match the event'')) (\<lambda>_.
      ebind (require_nonempty_text (pget d ''call_id'') (t @ '' context call_id'')) (\<lambda>_.
      ebind (require (pget d ''role'' \<in> {PStr ''controller'', PStr ''public'', PStr ''subcall''})
               (t @ '' context role is invalid'')) (\<lambda>_. Inr d)))))))"

definition record_model_event ::
  "dict \<Rightarrow> nat \<Rightarrow> (string \<times> model_call) list \<Rightarrow> exn + (string \<times> model_call) list" where
  "record_model_event ev i model_calls =
     (let cx = pget (ev_payload ev) ''context''; t = ev_type ev;
          event_id = (case as_str (pget ev ''event_id'') of Some s \<Rightarrow> s | None \<Rightarrow> []) in
      ebind (validate_model_context cx ev) (\<lambda>d.
      let call_id = (case as_str (pget d ''call_id'') of Some s \<Rightarrow> s | None \<Rightarrow> []) in
      if t = ''model.request'' then
        (if call_id \<in> set (keys model_calls)
         then Inl (TraceErr (''duplicate model request call_id '' @ py_repr call_id))
         else Inr (AList.update call_id \<lparr>mcl_context = cx, mcl_request_event = event_id, mcl_response_event = None,
                mcl_response_index = None, mcl_response = None, mcl_failed_event = None\<rparr> model_calls))
      else (case dget model_calls call_id of
        None \<Rightarrow> Inl (TraceErr (t @ '' has no earlier model request for call_id '' @ py_repr call_id))
      | Some call \<Rightarrow>
          ebind (require (py_eq cx (mcl_context call)) (t @ '' context does not match its model request'')) (\<lambda>_.
          if t = ''model.response'' then
            ebind (require (mcl_response_event call = None \<and> mcl_failed_event call = None)
                     (''model call '' @ py_repr call_id @ '' has multiple outcomes'')) (\<lambda>_.
            ebind (require (pget ev ''parent_event_id'' = PStr (mcl_request_event call))
                     ''model.response must be caused by its model.request'') (\<lambda>_.
              Inr (AList.update call_id
                (call\<lparr>mcl_response_event := Some event_id, mcl_response_index := Some i,
                      mcl_response := Some (pget (ev_payload ev) ''response'')\<rparr>) model_calls)))
          else
            ebind (require (mcl_failed_event call = None)
                     (''model call '' @ py_repr call_id @ '' has multiple failures'')) (\<lambda>_.
            ebind (require (pget ev ''parent_event_id'' =
                      PStr (case mcl_response_event call of Some r \<Rightarrow> r | None \<Rightarrow> mcl_request_event call))
                     ''model.failed must follow its response or request'') (\<lambda>_.
            ebind (require (case mcl_response_index call of Some j \<Rightarrow> i = Suc j | None \<Rightarrow> True)
                     ''model.failed must occur immediately after its model.response'') (\<lambda>_.
              Inr (AList.update call_id (call\<lparr>mcl_failed_event := Some event_id\<rparr>) model_calls))))))))"

definition validate_model_outcome :: "string \<times> model_call \<Rightarrow> exn + unit" where
  "validate_model_outcome p =
     (let call_id = fst p; call = snd p in
      if mcl_response_event call = None \<and> mcl_failed_event call = None
      then Inl (TraceErr (''model request '' @ py_repr call_id @ '' has no response or failure''))
      else case mcl_response call of
        None \<Rightarrow> Inr ()
      | Some v \<Rightarrow>
          if mcl_failed_event call \<noteq> None then Inr ()
          else case validate_response_envelope v of
            Some e \<Rightarrow> Inl (TraceErr (''model.response for call '' @ py_repr call_id @ '' is invalid: '' @ e))
          | None \<Rightarrow> require (pget (the (as_dict v)) ''status'' \<in> {PStr ''completed'', PStr ''incomplete''})
              (''model.response for call '' @ py_repr call_id @ '' is not a terminal outcome''))"

definition validate_model_outcomes :: "(string \<times> model_call) list \<Rightarrow> exn + unit" where
  "validate_model_outcomes cs = ebind (emap validate_model_outcome cs) (\<lambda>_. Inr ())"

section \<open>Agreement of the manifest with the events\<close>

definition validate_branch_started :: "dict \<Rightarrow> rlm_config \<Rightarrow> dict \<Rightarrow> exn + unit" where
  "validate_branch_started m config ev =
     (if ev_type ev \<noteq> ''branch.started'' then Inr ()
      else let p = ev_payload ev in
        ebind (require (py_eq (pget p ''harness'') (pget m ''harness'')
                   \<and> py_eq (pget p ''harness_fingerprint'') (pget m ''harness_fingerprint''))
                 ''branch.started harness provenance disagrees with the manifest'') (\<lambda>_.
        ebind (render_prompt (cfg_harness config) (the_int ev ''depth'' < max_depth (cfg_limits config))) (\<lambda>prompt.
        ebind (require (pget p ''prompt'' = PStr prompt)
                 ''branch.started prompt disagrees with the validated harness'') (\<lambda>_.
        let expected = (case cc_model (cfg_controller config) of
                          Some m \<Rightarrow> PStr m
                        | None \<Rightarrow> pget (the (as_dict (pget p ''request''))) ''model'')
        in require (is_str expected \<and> pget p ''controller_model'' = expected)
             ''branch.started controller model disagrees with effective config''))))"

definition validate_manifest_provenance :: "dict \<Rightarrow> dict list \<Rightarrow> rlm_config \<Rightarrow> exn + unit" where
  "validate_manifest_provenance m evs config =
     (let p = ev_payload (hd evs) in
      ebind (require (ev_type (hd evs) = ''run.started'') ''trace is missing its initial run.started event'') (\<lambda>_.
      ebind (emap (\<lambda>n. require (py_eq (pget m n) (pget p n)) (''manifest '' @ n @ '' disagrees with run.started''))
               [''effective_config'', ''harness'', ''harness_fingerprint'', ''environment_abi'',
                ''environment_abi_digest'']) (\<lambda>_.
      ebind (require (py_eq (pget p ''trace_schema_version'') (pget m ''schema_version''))
               ''run.started trace schema version disagrees with the manifest'') (\<lambda>_.
      ebind (emap (validate_branch_started m config) evs) (\<lambda>_. Inr ())))))"

definition validate_terminal_agreement :: "dict \<Rightarrow> dict \<Rightarrow> exn + unit" where
  "validate_terminal_agreement m final =
     (if ev_type final = ''run.completed'' then
        ebind (require (pget m ''status'' = PStr ''completed'') ''manifest status disagrees with run.completed'') (\<lambda>_.
        require (py_eq (pget m ''stop_reason'') (pget (ev_payload final) ''stop_reason''))
          ''manifest stop_reason disagrees with run.completed'')
      else
        ebind (require (pget m ''status'' = PStr ''failed'') ''manifest status disagrees with run.failed'') (\<lambda>_.
        require (py_eq (pget m ''error'') (pget (ev_payload final) ''error''))
          ''manifest error disagrees with run.failed''))"

section \<open>The whole trace\<close>

fun validate_events ::
  "trace_contract \<Rightarrow> py \<Rightarrow> nat \<Rightarrow> string list \<Rightarrow> (string \<times> model_call) list \<Rightarrow> dict list
   \<Rightarrow> exn + (string \<times> model_call) list" where
  "validate_events ct run_id i seen model_calls [] = Inr model_calls"
| "validate_events ct run_id i seen model_calls (ev # evs) =
     ebind (validate_event ct run_id i seen ev) (\<lambda>_.
     ebind (if ev_type ev \<in> {''model.request'', ''model.response'', ''model.failed''}
            then record_model_event ev i model_calls else Inr model_calls) (\<lambda>model_calls'.
       validate_events ct run_id (Suc i) (event_name i # seen) model_calls' evs))"

definition is_final :: "dict \<Rightarrow> bool" where
  "is_final ev \<longleftrightarrow> ev_type ev \<in> {''run.completed'', ''run.failed''}"

definition validate_trace :: "trace_contract \<Rightarrow> dict \<Rightarrow> dict list \<Rightarrow> string option \<Rightarrow> exn + unit" where
  "validate_trace ct m evs expected_run_id =
     ebind (validate_manifest m (ct_manifest_fields ct) (ct_version ct)) (\<lambda>config.
     ebind (case expected_run_id of
              None \<Rightarrow> Inr ()
            | Some r \<Rightarrow> require (pget m ''run_id'' = PStr r)
                (''trace run ID '' @ repr_value (pget m ''run_id'') @ '' does not match expected run ID '' @ py_repr r)) (\<lambda>_.
     ebind (validate_events ct (pget m ''run_id'') 0 [] [] evs) (\<lambda>model_calls.
     ebind (require (length (filter (\<lambda>ev. pget ev ''type'' = PStr ''run.started'') evs) = 1)
              ''trace must contain exactly one run.started event'') (\<lambda>_.
     ebind (require (length (filter is_final evs) = 1) ''trace must contain exactly one final run event'') (\<lambda>_.
     ebind (require (evs \<noteq> [] \<and> is_final (last evs)) ''the final run event must be the last trace event'') (\<lambda>_.
     ebind (validate_manifest_provenance m evs config) (\<lambda>_.
     ebind (validate_terminal_agreement m (last evs)) (\<lambda>_.
       validate_model_outcomes model_calls))))))))"

record trace_artifact =
  ta_directory :: string
  ta_manifest :: dict
  ta_events :: "dict list"
  ta_manifest_sha256 :: string
  ta_jsonl_sha256 :: string

definition nested_data_error :: "exn \<Rightarrow> exn" where
  "nested_data_error e =
     (case e of
        TraceErr m \<Rightarrow> e
      | _ \<Rightarrow> if exn_class e \<in> {''KeyError'', ''TypeError'', ''ValueError'', ''StrictJSONError'', ''OverflowError''}
          then TraceErr (''trace contains malformed nested data: '' @ exn_message e) else e)"

definition load_trace :: "(string \<Rightarrow> exn + string) \<Rightarrow> string \<Rightarrow> string option \<Rightarrow> exn + trace_artifact" where
  "load_trace files directory expected_run_id =
     (if expected_run_id = Some []
      then Inl (value_error ''expected_run_id must be a non-empty string or None'')
      else
        ebind (read_file_once files ''manifest.json'') (\<lambda>manifest_bytes.
        ebind (read_file_once files ''trace.jsonl'') (\<lambda>jsonl_bytes.
        ebind (decode_manifest manifest_bytes) (\<lambda>m.
        ebind (decode_events jsonl_bytes) (\<lambda>evs.
        case validate_trace trace_v1 m evs expected_run_id of
          Inl e \<Rightarrow> Inl (nested_data_error e)
        | Inr _ \<Rightarrow> Inr \<lparr>ta_directory = directory, ta_manifest = m, ta_events = evs,
            ta_manifest_sha256 = sha256_text manifest_bytes, ta_jsonl_sha256 = sha256_text jsonl_bytes\<rparr>)))))"

section \<open>What the requirements say\<close>

lemma require_Inr [simp]: "require b m = Inr u \<longleftrightarrow> b"
  by (simp add: require_def)

lemma require_texts_Inr [simp]:
  "require_nonempty_text v nm = Inr u \<longleftrightarrow> nonempty_str v"
  "require_dict d k m = Inr u \<longleftrightarrow> is_dict (pget d k)"
  by (simp_all add: require_nonempty_text_def require_dict_def)

lemma require_Inl:
  "require b m = Inl e \<Longrightarrow> \<exists>t. e = TraceErr t"
  "require_nonempty_text v nm = Inl e \<Longrightarrow> \<exists>t. e = TraceErr t"
  "require_nonnegative_integer v nm = Inl e \<Longrightarrow> \<exists>t. e = TraceErr t"
  "require_nonnegative_number v nm = Inl e \<Longrightarrow> \<exists>t. e = TraceErr t"
  "require_sha256 v nm = Inl e \<Longrightarrow> \<exists>t. e = TraceErr t"
  "require_dict d k m = Inl e \<Longrightarrow> \<exists>t. e = TraceErr t"
  by (auto simp: require_def require_nonempty_text_def require_nonnegative_integer_def
      require_nonnegative_number_def require_sha256_def require_dict_def)

section \<open>The events of an accepted trace\<close>

definition reader_event_ok :: "py \<Rightarrow> nat \<Rightarrow> dict \<Rightarrow> bool" where
  "reader_event_ok run_id i ev \<longleftrightarrow>
     set (keys ev) = set TRACE_ENVELOPE_FIELDS \<and> py_eq (pget ev ''run_id'') run_id
     \<and> pget ev ''event_id'' = PStr (event_name i) \<and> pget ev ''type'' = PStr (ev_type ev)
     \<and> (\<exists>k. ev_type ev = event_kind_value k \<and> set (keys (ev_payload ev)) = set (payload_fields k))
     \<and> (if i = 0 then ev_type ev = ''run.started'' \<and> pget ev ''parent_event_id'' = PNone
        else \<exists>j<i. pget ev ''parent_event_id'' = PStr (event_name j))"

lemma trace_v1_types: "ct_event_types trace_v1 = map event_kind_value trace_event_kinds"
  by (simp add: trace_v1_def trace_event_kinds_def)

lemma trace_v1_payloads: "dget (ct_payload_fields trace_v1) (event_kind_value k) = Some (payload_fields k)"
  by (cases k) (simp_all add: trace_v1_def)

lemma trace_v1_fields [simp]:
  "ct_envelope_fields trace_v1 = TRACE_ENVELOPE_FIELDS" "ct_manifest_fields trace_v1 = TRACE_MANIFEST_FIELDS"
  "ct_version trace_v1 = TRACE_SCHEMA_VERSION"
  by (simp_all add: trace_v1_def TRACE_ENVELOPE_FIELDS_def TRACE_MANIFEST_FIELDS_def TRACE_SCHEMA_VERSION_def)

lemma validate_event_ok:
  assumes "validate_event trace_v1 run_id i seen ev = Inr u" "set seen = event_name ` {..<i}"
  shows "reader_event_ok run_id i ev"
proof -
  have ty: "pget ev ''type'' \<in> PStr ` set (ct_event_types trace_v1)"
    using assms(1) by (auto simp: validate_event_def Let_def ebind_eq_Inr)
  then obtain k where k: "pget ev ''type'' = PStr (event_kind_value k)" by (auto simp: trace_v1_types)
  then have et: "ev_type ev = event_kind_value k" by (simp add: ev_type_def)
  have "set (keys (ev_payload ev)) = set (the (dget (ct_payload_fields trace_v1) (ev_type ev)))"
    "if i = 0 then pget ev ''parent_event_id'' = PNone \<and> pget ev ''type'' = PStr ''run.started''
     else pget ev ''parent_event_id'' \<in> PStr ` set seen"
    "set (keys ev) = set TRACE_ENVELOPE_FIELDS" "py_eq (pget ev ''run_id'') run_id"
    "pget ev ''event_id'' = PStr (event_name i)"
    using assms(1) by (auto simp: validate_event_def Let_def ebind_eq_Inr split: if_split_asm)
  then show ?thesis
    using k et assms(2) trace_v1_payloads [of k] by (auto simp: reader_event_ok_def split: if_split_asm)
qed

lemma validate_events_ok:
  assumes "validate_events trace_v1 run_id i seen model_calls evs = Inr calls'" "set seen = event_name ` {..<i}"
  shows "\<forall>j<length evs. reader_event_ok run_id (i + j) (evs ! j)"
  using assms
proof (induction evs arbitrary: i seen model_calls)
  case Nil
  then show ?case by simp
next
  case (Cons ev evs)
  then obtain u mcs where v: "validate_event trace_v1 run_id i seen ev = Inr u"
    and r: "validate_events trace_v1 run_id (Suc i) (event_name i # seen) mcs evs = Inr calls'"
    by (auto simp: ebind_eq_Inr)
  have "set (event_name i # seen) = event_name ` {..<Suc i}" using Cons.prems(2) by (auto simp: lessThan_Suc)
  note later = Cons.IH [OF r this] and now = validate_event_ok [OF v Cons.prems(2)]
  have "reader_event_ok run_id (i + j) ((ev # evs) ! j)" if "j < length (ev # evs)" for j
    using that later now by (cases j) simp_all
  then show ?case by blast
qed

text \<open>The final event of an accepted trace is its last one, and agrees with the manifest.\<close>

lemma filter_one: "length (filter P xs) = 1 \<Longrightarrow> i < length xs \<Longrightarrow> j < length xs \<Longrightarrow> P (xs ! i) \<Longrightarrow> P (xs ! j) \<Longrightarrow> i = j"
proof (rule ccontr)
  assume one: "length (filter P xs) = 1" and ij: "i < length xs" "j < length xs" "P (xs ! i)" "P (xs ! j)" "i \<noteq> j"
  have "card {k. k < length xs \<and> P (xs ! k)} = 1" using one by (simp add: length_filter_conv_card)
  then obtain k where k: "{k. k < length xs \<and> P (xs ! k)} = {k}" by (rule card_1_singletonE)
  have "i \<in> {k. k < length xs \<and> P (xs ! k)}" "j \<in> {k. k < length xs \<and> P (xs ! k)}" using ij by simp_all
  then show False using ij(5) unfolding k by simp
qed

lemma load_trace_Inr:
  assumes "load_trace files directory expected = Inr a"
  obtains m t where "read_file_once files ''manifest.json'' = Inr m" "read_file_once files ''trace.jsonl'' = Inr t"
    "decode_manifest m = Inr (ta_manifest a)" "decode_events t = Inr (ta_events a)"
    "ta_manifest_sha256 a = sha256_text m" "ta_jsonl_sha256 a = sha256_text t"
    "validate_trace trace_v1 (ta_manifest a) (ta_events a) expected = Inr ()"
proof -
  obtain m t mm evs where r: "read_file_once files ''manifest.json'' = Inr m"
    "read_file_once files ''trace.jsonl'' = Inr t" "decode_manifest m = Inr mm" "decode_events t = Inr evs"
    and e: "(case validate_trace trace_v1 mm evs expected of
        Inl e \<Rightarrow> Inl (nested_data_error e)
      | Inr _ \<Rightarrow> Inr \<lparr>ta_directory = directory, ta_manifest = mm, ta_events = evs,
          ta_manifest_sha256 = sha256_text m, ta_jsonl_sha256 = sha256_text t\<rparr>) = Inr a"
    using assms unfolding load_trace_def by (auto simp: ebind_eq_Inr split: if_split_asm)
  show ?thesis
    using e r by (cases "validate_trace trace_v1 mm evs expected") (auto intro: that)
qed

lemma accepted_model_calls:
  assumes "load_trace files directory expected = Inr a"
  obtains cs where "validate_events trace_v1 (pget (ta_manifest a) ''run_id'') 0 [] [] (ta_events a) = Inr cs"
    "validate_model_outcomes cs = Inr ()"
proof -
  have "validate_trace trace_v1 (ta_manifest a) (ta_events a) expected = Inr ()"
    by (rule load_trace_Inr [OF assms])
  then show ?thesis by (auto simp: validate_trace_def ebind_eq_Inr intro: that)
qed

text \<open>What \<open>load_trace\<close> accepts is one causal run: the artifact holds exactly the decoded files with their digests, the
  events carry the ids evt-000000, evt-000001, ... of one run (the expected one), every parent is an earlier event, the
  run starts once, at the first event, and ends once, at the last, and the manifest's status is that of the ending.\<close>

theorem load_trace_sound:
  assumes "load_trace files directory expected = Inr a"
  shows "(\<exists>m t. files ''manifest.json'' = Inr m \<and> files ''trace.jsonl'' = Inr t
            \<and> decode_manifest m = Inr (ta_manifest a) \<and> decode_events t = Inr (ta_events a)
            \<and> ta_manifest_sha256 a = sha256_text m \<and> ta_jsonl_sha256 a = sha256_text t)
     \<and> (\<forall>i<length (ta_events a). reader_event_ok (pget (ta_manifest a) ''run_id'') i (ta_events a ! i)
            \<and> (ev_type (ta_events a ! i) = ''run.started'' \<longleftrightarrow> i = 0)
            \<and> (is_final (ta_events a ! i) \<longleftrightarrow> i = length (ta_events a) - 1))
     \<and> ta_events a \<noteq> []
     \<and> (\<forall>r. expected = Some r \<longrightarrow> pget (ta_manifest a) ''run_id'' = PStr r)
     \<and> pget (ta_manifest a) ''status''
          = PStr (if ev_type (last (ta_events a)) = ''run.completed'' then ''completed'' else ''failed'')"
proof -
  obtain m t where f: "read_file_once files ''manifest.json'' = Inr m" "read_file_once files ''trace.jsonl'' = Inr t"
    and d: "decode_manifest m = Inr (ta_manifest a)" "decode_events t = Inr (ta_events a)"
    and sha: "ta_manifest_sha256 a = sha256_text m" "ta_jsonl_sha256 a = sha256_text t"
    and v: "validate_trace trace_v1 (ta_manifest a) (ta_events a) expected = Inr ()"
    by (rule load_trace_Inr [OF assms])
  have ff: "files ''manifest.json'' = Inr m" "files ''trace.jsonl'' = Inr t"
    using f by (auto simp: read_file_once_def split: sum.split_asm if_split_asm)
  let ?evs = "ta_events a" and ?r = "pget (ta_manifest a) ''run_id''"
  obtain calls' where e: "validate_events trace_v1 ?r 0 [] [] ?evs = Inr calls'"
    and one: "length (filter (\<lambda>ev. pget ev ''type'' = PStr ''run.started'') ?evs) = 1"
    and fin: "length (filter is_final ?evs) = 1" "?evs \<noteq> []" "is_final (last ?evs)"
    and agree: "validate_terminal_agreement (ta_manifest a) (last ?evs) = Inr ()"
    and ex: "\<forall>r. expected = Some r \<longrightarrow> ?r = PStr r"
    using v by (auto simp: validate_trace_def ebind_eq_Inr split: option.split_asm)
  have ok: "reader_event_ok ?r i (?evs ! i)" if "i < length ?evs" for i
    using validate_events_ok [OF e] that by simp
  have ty: "ev_type (?evs ! i) = t \<longleftrightarrow> pget (?evs ! i) ''type'' = PStr t" if "i < length ?evs" for i t
    using ok [OF that] by (auto simp: reader_event_ok_def)
  have start: "ev_type (?evs ! i) = ''run.started'' \<longleftrightarrow> i = 0" if "i < length ?evs" for i
    using filter_one [OF one that, of 0] ok [of 0] ty [OF that] ty [of 0] fin(2) by (auto simp: reader_event_ok_def)
  have last: "is_final (?evs ! i) \<longleftrightarrow> i = length ?evs - 1" if "i < length ?evs" for i
    using filter_one [OF fin(1) that, of "length ?evs - 1"] fin(2,3) by (auto simp: last_conv_nth)
  have "pget (ta_manifest a) ''status''
      = PStr (if ev_type (last ?evs) = ''run.completed'' then ''completed'' else ''failed'')"
    using agree by (auto simp: validate_terminal_agreement_def ebind_eq_Inr split: if_split_asm)
  then show ?thesis using ff d sha ok start last fin(2) ex by blast
qed

section \<open>The lines of the recorder are read back\<close>

lemma digit_not_newline: "is_digit c \<Longrightarrow> c \<noteq> CHR 0x0A"
  by (auto simp: is_digit_def)

lemma show_pos_newline: "0 \<le> n \<Longrightarrow> CHR 0x0A \<notin> set (show_pos n)"
  using show_pos_digits digit_not_newline by blast

lemma show_int_newline: "CHR 0x0A \<notin> set (show_int n)"
  by (auto simp: show_int_def show_pos_newline)

lemma join_str_newline:
  "CHR 0x0A \<notin> set sep \<Longrightarrow> (\<And>x. x \<in> set xs \<Longrightarrow> CHR 0x0A \<notin> set x) \<Longrightarrow> CHR 0x0A \<notin> set (join_str sep xs)"
  by (induction sep xs rule: join_str.induct) auto

lemma json_string_newline: "CHR 0x0A \<notin> set (json_string s)"
proof -
  have "hex_char d \<noteq> CHR 0x0A" if "d < 16" for d
    using is_hex_lower_hex_char [OF that] by (auto simp: is_hex_lower_def)
  from this [of "n div 16 mod 16" for n] this [of "n mod 16" for n] have "CHR 0x0A \<notin> set (hex2 n)" for n
    by (auto simp: hex2_def dest: sym)
  then have "CHR 0x0A \<notin> set (json_char c)" for c by (auto simp: json_char_def)
  then show ?thesis by (auto simp: json_string_def)
qed

lemma float_digits_newline: "CHR 0x0A \<notin> set ds \<Longrightarrow> CHR 0x0A \<notin> set (float_digits_text ds e)"
proof -
  have "CHR 0x0A \<notin> set (float_exp_text n)" for n
    using show_pos_newline [of "abs n"] by (auto simp: float_exp_text_def pad_left_def)
  then show "CHR 0x0A \<notin> set ds \<Longrightarrow> CHR 0x0A \<notin> set (float_digits_text ds e)"
    by (auto simp: float_digits_text_def dest: in_set_takeD in_set_dropD)
qed

lemma float_repr_newline: "CHR 0x0A \<notin> set (float_repr r)"
proof -
  have "CHR 0x0A \<notin> set (show_pos (floor (abs r * 10 ^ k) div 10 ^ z))" for k z
    by (intro show_pos_newline) (simp add: pos_imp_zdiv_nonneg_iff)
  then show ?thesis by (auto simp: float_repr_def Let_def float_digits_newline)
qed

lemma encode_newline_style:
  "indent st = None \<Longrightarrow> CHR 0x0A \<notin> set (item_sep st) \<Longrightarrow> CHR 0x0A \<notin> set (key_sep st) \<Longrightarrow>
   CHR 0x0A \<notin> set (encode st l v)"
proof (induction st l v rule: encode.induct)
  case (4 st l f)
  then show ?case by (cases f) (simp_all add: float_repr_newline)
next
  case (6 st l xs)
  have "CHR 0x0A \<notin> set (join_str (item_sep st @ newline_indent st (Suc l)) (map (encode st (Suc l)) xs))"
    using 6 by (intro join_str_newline) (force simp: newline_indent_def)+
  then show ?case using 6 by (simp add: newline_indent_def)
next
  case (7 st l d)
  have "CHR 0x0A \<notin> set (join_str (item_sep st @ newline_indent st (Suc l))
      (map (\<lambda>p. json_string (fst p) @ key_sep st @ encode st (Suc l) (snd p)) d))"
    using 7 by (intro join_str_newline) (force simp: newline_indent_def json_string_newline)+
  then show ?case using 7 by (simp add: newline_indent_def)
qed (simp_all add: show_int_newline json_string_newline)

lemma encode_newline: "CHR 0x0A \<notin> set (encode compact l v)"
  by (rule encode_newline_style) (simp_all add: compact_def)

lemma split_lines_line: "CHR 0x0A \<notin> set l \<Longrightarrow> split_lines (l @ CHR 0x0A # t) = l # split_lines t"
  by (induction l) auto

lemma split_lines_nonempty [simp]: "split_lines t \<noteq> []"
  by (cases t) (simp_all split: list.split)

lemma split_lines_concat:
  "(\<And>l. l \<in> set ls \<Longrightarrow> CHR 0x0A \<notin> set l) \<Longrightarrow> split_lines (concat (map (\<lambda>l. l @ [CHR 0x0A]) ls)) = ls @ [[]]"
  by (induction ls) (simp_all add: split_lines_line)

lemma encode_dict_nonempty: "encode st l (PDict d) \<noteq> []"
  by simp

lemma decode_lines_encoded:
  "(\<And>ev. ev \<in> set evs \<Longrightarrow> json_text_value (PDict ev)) \<Longrightarrow>
   decode_lines i (map (\<lambda>ev. encode compact 0 (PDict ev)) evs) = Inr evs"
proof (induction evs arbitrary: i)
  case Nil
  then show ?case by simp
next
  case (Cons ev evs)
  have "json_text_value (PDict ev)" by (rule Cons.prems) simp
  then have "loads (encode compact 0 (PDict ev)) = Inr (PDict ev)"
    using strict_json_roundtrip(2) [OF style_ok_styles(1)] by (simp add: loads_def compact_def del: encode.simps)
  moreover have "decode_lines (Suc i) (map (\<lambda>ev. encode compact 0 (PDict ev)) evs) = Inr evs"
    by (rule Cons.IH) (rule Cons.prems, simp)
  ultimately show ?case by (simp del: encode.simps)
qed

definition file_text :: "string list \<Rightarrow> string" where
  "file_text ls = concat (map (\<lambda>l. l @ [CHR 0x0A]) ls)"

lemma decode_events_encoded:
  assumes "\<And>ev. ev \<in> set evs \<Longrightarrow> json_text_value (PDict ev)" "evs \<noteq> []"
  shows "decode_events (file_text (map (\<lambda>ev. encode compact 0 (PDict ev)) evs)) = Inr evs"
proof -
  let ?ls = "map (\<lambda>ev. encode compact 0 (PDict ev)) evs"
  have "split_lines (file_text ?ls) = ?ls @ [[]]"
    unfolding file_text_def by (rule split_lines_concat) (auto simp: encode_newline simp del: encode.simps)
  moreover have "file_text ?ls \<noteq> [] \<and> last (file_text ?ls) = CHR 0x0A"
    using assms(2) by (induction evs rule: rev_induct) (simp_all add: file_text_def)
  moreover have "[] \<notin> set ?ls" unfolding set_map image_iff using encode_dict_nonempty [of compact 0] by metis
  ultimately show ?thesis
    using decode_lines_encoded [OF assms(1)] assms(2) by (simp add: decode_events_def del: encode.simps)
qed


section \<open>Recording the start of a run\<close>

lemma error_free_dict: "json_text_value (PDict d) \<Longrightarrow> json_data (PDict d)"
  by (simp add: json_text_value_def wf_json_def)

lemma run_started_dict_ok:
  assumes "valid_config (rs_effective_config p)" "json_data (PDict (rs_request p))" "json_data (PDict (rs_environment_abi p))"
  obtains d where "run_started_dict p = Inr d" "json_data (PDict d)"
proof -
  obtain D where D: "config_to_dict (rs_effective_config p) = Inr D" "json_text_value (PDict D)"
    by (rule config_roundtrip [OF assms(1)])
  have "json_text_value (PDict (harness_snapshot (rs_harness_fingerprint p)))" by (rule snapshot_text_value)
  then obtain f where f: "fingerprint (rs_harness_fingerprint p) = Inr f"
    using sha_value_ok error_free_dict unfolding fingerprint_def by blast
  have h: "json_data (PDict (sorted_snapshot (rs_harness p)))"
    using sorted_keys_text_value [OF snapshot_text_value [of "rs_harness p"]]
    by (simp only: sorted_keys_snapshot error_free_dict)
  have "run_started_dict p = Inr
      [(''request'', PDict (rs_request p)), (''effective_config'', PDict D),
       (''harness'', PDict (sorted_snapshot (rs_harness p))), (''harness_fingerprint'', PStr f),
       (''trace_schema_version'', PStr (rs_trace_schema_version p)), (''environment_abi'', PDict (rs_environment_abi p)),
       (''environment_abi_digest'', PStr (rs_environment_abi_digest p))]"
    using D(1) f by (simp add: run_started_dict_def harness_to_dict_sorted)
  then show ?thesis by (rule that) (use h error_free_dict [OF D(2)] assms in simp)
qed

lemma record_run_started:
  assumes "rc_event_ids r = []" "rc_next_id r = 0" "\<not> rc_closed r"
    and "valid_config (rs_effective_config p)" "json_data (PDict (rs_request p))" "json_data (PDict (rs_environment_abi p))"
  shows "\<exists>r' line. record_event r (RunStartedPayload p) b d None now IoOk = (r', Inr (event_name 0))
     \<and> rc_lines r' = rc_lines r @ [line]"
proof -
  obtain v where v: "run_started_dict p = Inr v" "json_data (PDict v)"
    by (rule run_started_dict_ok [OF assms(4-6)])
  have keys_v: "set (keys v) = set (payload_fields RUN_STARTED)"
    using payload_to_dict_keys [of "RunStartedPayload p" v] v(1) by simp
  let ?ev = "event_to_dict \<lparr>te_run_id = rc_run_id r, te_event_id = event_name 0,
                    te_parent_event_id = None, te_branch_id = b, te_depth = d,
                    te_timestamp = now, te_type = event_kind_value RUN_STARTED, te_payload = v\<rparr>"
  have j: "json_data (PDict ?ev)" using v(2) by (simp add: event_to_dict_def opt_str_def)
  then have "build_event r (RunStartedPayload p) b d None now = Inr (?ev, encode compact 0 (PDict ?ev))"
    using assms(1,2) v(1) keys_v dumps_ok [OF j, of compact]
    by (simp add: build_event_def validate_trace_event_def compact_def Let_def del: set_map encode.simps)
  then show ?thesis
    using assms(2,3) by (simp add: record_event_def del: encode.simps)
qed

definition sample_started :: run_started_payload where
  "sample_started =
     \<lparr>rs_request = [(''model'', PStr ''m''), (''input'', PStr ''i'')], rs_effective_config = sample_config,
      rs_harness = sample_harness, rs_harness_fingerprint = sample_harness, rs_trace_schema_version = ''1'',
      rs_environment_abi = [(''version'', PStr ''2'')], rs_environment_abi_digest = ''d''\<rparr>"


section \<open>Every model call is answered\<close>

definition call_id_of :: "dict \<Rightarrow> string" where
  "call_id_of ev =
     (case as_dict (pget (ev_payload ev) ''context'') of
        None \<Rightarrow> [] | Some d \<Rightarrow> (case as_str (pget d ''call_id'') of None \<Rightarrow> [] | Some s \<Rightarrow> s))"

definition is_outcome :: "dict \<Rightarrow> bool" where
  "is_outcome ev \<longleftrightarrow> ev_type ev \<in> {''model.response'', ''model.failed''}"

definition calls_tracked :: "dict list \<Rightarrow> (string \<times> model_call) list \<Rightarrow> bool" where
  "calls_tracked pre cs \<longleftrightarrow>
     (\<forall>q<length pre. ev_type (pre ! q) = ''model.request'' \<longrightarrow>
        (\<exists>call. dget cs (call_id_of (pre ! q)) = Some call \<and> mcl_request_event call = event_name q))
     \<and> (\<forall>c call. dget cs c = Some call \<and> (mcl_response_event call \<noteq> None \<or> mcl_failed_event call \<noteq> None) \<longrightarrow>
        (\<exists>j<length pre. is_outcome (pre ! j) \<and> call_id_of (pre ! j) = c
           \<and> pget (pre ! j) ''parent_event_id'' = PStr (mcl_request_event call)))"

lemma calls_tracked_snoc:
  assumes "calls_tracked pre cs"
    and "ev_type ev = ''model.request'' \<Longrightarrow>
       \<exists>call. dget cs' (call_id_of ev) = Some call \<and> mcl_request_event call = event_name (length pre)"
    and keep: "\<And>c call. dget cs c = Some call \<Longrightarrow>
       \<exists>call'. dget cs' c = Some call' \<and> mcl_request_event call' = mcl_request_event call"
    and new: "\<And>c call'. dget cs' c = Some call' \<Longrightarrow> mcl_response_event call' \<noteq> None \<or> mcl_failed_event call' \<noteq> None \<Longrightarrow>
       (\<exists>call. dget cs c = Some call \<and> (mcl_response_event call \<noteq> None \<or> mcl_failed_event call \<noteq> None)
          \<and> mcl_request_event call = mcl_request_event call')
       \<or> (is_outcome ev \<and> call_id_of ev = c \<and> pget ev ''parent_event_id'' = PStr (mcl_request_event call'))"
  shows "calls_tracked (pre @ [ev]) cs'"
proof -
  have "\<exists>call. dget cs' (call_id_of ((pre @ [ev]) ! q)) = Some call \<and> mcl_request_event call = event_name q"
    if "q < length (pre @ [ev])" "ev_type ((pre @ [ev]) ! q) = ''model.request''" for q
  proof (cases "q = length pre")
    case True
    then show ?thesis using assms(2) that by simp
  next
    case False
    then have "q < length pre" "ev_type (pre ! q) = ''model.request''" using that by (simp_all add: nth_append)
    then obtain call where "dget cs (call_id_of (pre ! q)) = Some call" "mcl_request_event call = event_name q"
      using assms(1) by (auto simp: calls_tracked_def)
    moreover from this(1) obtain call' where "dget cs' (call_id_of (pre ! q)) = Some call'"
      "mcl_request_event call' = mcl_request_event call" using keep by blast
    ultimately show ?thesis using \<open>q < length pre\<close> by (simp add: nth_append)
  qed
  moreover have "\<exists>j<length (pre @ [ev]). is_outcome ((pre @ [ev]) ! j) \<and> call_id_of ((pre @ [ev]) ! j) = c
           \<and> pget ((pre @ [ev]) ! j) ''parent_event_id'' = PStr (mcl_request_event call')"
    if a: "dget cs' c = Some call'" "mcl_response_event call' \<noteq> None \<or> mcl_failed_event call' \<noteq> None" for c call'
    using new [OF a]
  proof (rule disjE)
    assume "\<exists>call. dget cs c = Some call \<and> (mcl_response_event call \<noteq> None \<or> mcl_failed_event call \<noteq> None)
        \<and> mcl_request_event call = mcl_request_event call'"
    then obtain j where "j < length pre" "is_outcome (pre ! j)" "call_id_of (pre ! j) = c"
      "pget (pre ! j) ''parent_event_id'' = PStr (mcl_request_event call')"
      using assms(1) unfolding calls_tracked_def by metis
    then show ?thesis by (intro exI [of _ j]) (simp add: nth_append)
  qed (auto intro!: exI [of _ "length pre"])
  ultimately show ?thesis by (simp only: calls_tracked_def) blast
qed

lemma validate_model_context_Inr:
  "validate_model_context v ev = Inr d \<Longrightarrow> v = PDict d \<and> (\<exists>c. pget d ''call_id'' = PStr c)"
proof -
  assume a: "validate_model_context v ev = Inr d"
  let ?d = "case as_dict v of Some d \<Rightarrow> d | None \<Rightarrow> []"
  have "is_dict v" "nonempty_str (pget ?d ''call_id'')" "?d = d"
    using a by (auto simp: validate_model_context_def Let_def ebind_eq_Inr)
  then have "v = PDict d" "nonempty_str (pget d ''call_id'')" by (auto simp: is_dict_iff)
  then show ?thesis by (cases "pget d ''call_id''") (simp_all add: nonempty_str_def)
qed

lemma record_model_event_tracked:
  assumes "calls_tracked pre cs" "record_model_event ev (length pre) cs = Inr cs'"
    and ev: "pget ev ''event_id'' = PStr (event_name (length pre))"
      "ev_type ev \<in> {''model.request'', ''model.response'', ''model.failed''}"
  shows "calls_tracked (pre @ [ev]) cs'"
proof -
  obtain d c where d: "validate_model_context (pget (ev_payload ev) ''context'') ev = Inr d"
    and cx: "pget (ev_payload ev) ''context'' = PDict d" and c: "pget d ''call_id'' = PStr c"
    using assms(2) unfolding record_model_event_def Let_def ebind_eq_Inr by (blast dest: validate_model_context_Inr)
  have id: "call_id_of ev = c" by (simp add: call_id_of_def cx c)
  show ?thesis
  proof (cases "ev_type ev = ''model.request''")
    case True
    then have cs': "c \<notin> set (keys cs)"
      "\<exists>call'. cs' = AList.update c call' cs \<and> mcl_request_event call' = event_name (length pre)
         \<and> mcl_response_event call' = None \<and> mcl_failed_event call' = None"
      using assms(2) by (auto simp: record_model_event_def Let_def d c ev(1) split: if_split_asm)
    then have "dget cs c = None" by (simp add: map_of_eq_None_iff)
    with cs'(2) show ?thesis
      by (intro calls_tracked_snoc [OF assms(1)]) (auto simp: id split: if_split_asm)
  next
    case False
    then obtain call where call: "dget cs c = Some call"
      using assms(2) by (auto simp: record_model_event_def Let_def d c split: option.split_asm)
    then obtain call' where "cs' = AList.update c call' cs" "mcl_request_event call' = mcl_request_event call"
      "mcl_response_event call \<noteq> None \<or> mcl_failed_event call \<noteq> None
        \<or> pget ev ''parent_event_id'' = PStr (mcl_request_event call)"
      using assms(2) False
      by (auto simp: record_model_event_def Let_def d c ebind_eq_Inr split: if_split_asm option.split_asm)
    then show ?thesis
      using False call ev(2) by (intro calls_tracked_snoc [OF assms(1)]) (auto simp: id is_outcome_def split: if_split_asm)
  qed
qed

lemma validate_events_tracked:
  "validate_events trace_v1 run_id (length pre) seen cs evs = Inr cs' \<Longrightarrow> calls_tracked pre cs \<Longrightarrow>
   calls_tracked (pre @ evs) cs'"
proof (induction evs arbitrary: pre seen cs)
  case Nil
  then show ?case by simp
next
  case (Cons ev evs)
  obtain u cs1 where v: "validate_event trace_v1 run_id (length pre) seen ev = Inr u"
    and m: "(if ev_type ev \<in> {''model.request'', ''model.response'', ''model.failed''}
            then record_model_event ev (length pre) cs else Inr cs) = Inr cs1"
    and r: "validate_events trace_v1 run_id (length (pre @ [ev])) (event_name (length pre) # seen) cs1 evs = Inr cs'"
    using Cons.prems(1) by (auto simp: ebind_eq_Inr)
  have "pget ev ''event_id'' = PStr (event_name (length pre))"
    using v by (auto simp: validate_event_def Let_def ebind_eq_Inr)
  then have "calls_tracked (pre @ [ev]) cs1"
  proof (cases "ev_type ev \<in> {''model.request'', ''model.response'', ''model.failed''}")
    case True
    with m record_model_event_tracked [OF Cons.prems(2)] \<open>pget ev ''event_id'' = _\<close> show ?thesis by simp
  next
    case False
    then have "cs1 = cs" using m by simp
    then show ?thesis using False by (intro calls_tracked_snoc [OF Cons.prems(2)]) auto
  qed
  from Cons.IH [OF r this] show ?case by simp
qed

text \<open>In an accepted trace every model request is answered: there is a later response or failure with its call id
  whose parent is the request; and no two requests share a call id.\<close>

theorem accepted_calls_answered:
  assumes "load_trace files directory expected = Inr a"
    and "i < length (ta_events a)" "ev_type (ta_events a ! i) = ''model.request''"
  shows "(\<exists>j. i < j \<and> j < length (ta_events a) \<and> is_outcome (ta_events a ! j)
       \<and> call_id_of (ta_events a ! j) = call_id_of (ta_events a ! i)
       \<and> pget (ta_events a ! j) ''parent_event_id'' = PStr (event_name i))
     \<and> (\<forall>k<length (ta_events a). ev_type (ta_events a ! k) = ''model.request'' \<and>
          call_id_of (ta_events a ! k) = call_id_of (ta_events a ! i) \<longrightarrow> k = i)"
proof -
  let ?evs = "ta_events a"
  obtain cs where e: "validate_events trace_v1 (pget (ta_manifest a) ''run_id'') 0 [] [] ?evs = Inr cs"
    and out: "validate_model_outcomes cs = Inr ()"
    by (rule accepted_model_calls [OF assms(1)])
  have t: "calls_tracked ?evs cs"
    using validate_events_tracked [of _ "[]" "[]" "[]" ?evs cs] e by (simp add: calls_tracked_def)
  then obtain call where call: "dget cs (call_id_of (?evs ! i)) = Some call" "mcl_request_event call = event_name i"
    using assms(2,3) by (auto simp: calls_tracked_def)
  have "validate_model_outcome (call_id_of (?evs ! i), call) = Inr ()"
    using out map_of_SomeD [OF call(1)]
    by (fastforce simp: validate_model_outcomes_def ebind_eq_Inr emap_Inr_iff list_all2_conv_all_nth in_set_conv_nth)
  then have "mcl_response_event call \<noteq> None \<or> mcl_failed_event call \<noteq> None"
    by (auto simp: validate_model_outcome_def Let_def split: if_split_asm)
  then obtain j where j: "j < length ?evs" "is_outcome (?evs ! j)" "call_id_of (?evs ! j) = call_id_of (?evs ! i)"
    "pget (?evs ! j) ''parent_event_id'' = PStr (event_name i)"
    using t call unfolding calls_tracked_def by metis
  have "reader_event_ok (pget (ta_manifest a) ''run_id'') j (?evs ! j)"
    using validate_events_ok [OF e] j(1) by simp
  then have "i < j" using j(4) by (auto simp: reader_event_ok_def split: if_split_asm)
  moreover have "k = i" if "k < length ?evs" "ev_type (?evs ! k) = ''model.request''"
    "call_id_of (?evs ! k) = call_id_of (?evs ! i)" for k
    using t call that unfolding calls_tracked_def by (metis event_name_inject option.inject)
  ultimately show ?thesis using j by blast
qed

section \<open>A failure must follow its response at once\<close>

definition fails_in :: "(exn \<Rightarrow> bool) \<Rightarrow> exn + 'a \<Rightarrow> bool" where
  "fails_in P r \<longleftrightarrow> (\<forall>e. r = Inl e \<longrightarrow> P e)"

definition is_trace_error :: "exn \<Rightarrow> bool" where
  "is_trace_error e \<longleftrightarrow> (\<exists>m. e = TraceErr m)"

lemma fails_in_intros:
  "fails_in P (Inr x)"
  "P e \<Longrightarrow> fails_in P (Inl e)"
  "fails_in P m \<Longrightarrow> (\<And>y. m = Inr y \<Longrightarrow> fails_in P (f y)) \<Longrightarrow> fails_in P (ebind m f)"
  "(c \<Longrightarrow> fails_in P s) \<Longrightarrow> (\<not> c \<Longrightarrow> fails_in P t) \<Longrightarrow> fails_in P (if c then s else t)"
  by (auto simp: fails_in_def ebind_eq_Inl)

lemma fails_in_emap: "(\<And>y. y \<in> set xs \<Longrightarrow> fails_in P (f y)) \<Longrightarrow> fails_in P (emap f xs)"
  by (induction xs) (auto intro!: fails_in_intros)

lemma fails_in_require:
  assumes "\<And>m. P (TraceErr m)"
  shows "fails_in P (require b t)" "fails_in P (require_nonempty_text v nm)"
    "fails_in P (require_nonnegative_integer v nm)" "fails_in P (require_nonnegative_number v nm)"
    "fails_in P (require_sha256 v nm)" "fails_in P (require_dict d k t)"
  using assms by (auto simp: fails_in_def dest: require_Inl)

lemma is_trace_error_TraceErr [simp]: "is_trace_error (TraceErr m)"
  by (simp add: is_trace_error_def)

lemma validate_model_context_fails: "fails_in is_trace_error (validate_model_context v ev)"
  unfolding validate_model_context_def Let_def
  by (intro fails_in_intros fails_in_require is_trace_error_TraceErr)

lemma ebind_require:
  "(b \<Longrightarrow> \<exists>m. f () = Inl (TraceErr m)) \<Longrightarrow> \<exists>m. ebind (require b t) f = Inl (TraceErr m)"
  by (cases b) (simp_all add: require_def)


definition sample_context :: "string \<Rightarrow> py" where
  "sample_context c = PDict [(''run_id'', PStr ''r''), (''branch_id'', PStr ''b''), (''call_id'', PStr c),
     (''role'', PStr ''subcall''), (''depth'', PInt 0)]"

definition sample_model_event :: "nat \<Rightarrow> string \<Rightarrow> nat \<Rightarrow> string \<Rightarrow> dict" where
  "sample_model_event i t parent c =
     [(''run_id'', PStr ''r''), (''event_id'', PStr (event_name i)), (''parent_event_id'', PStr (event_name parent)),
      (''branch_id'', PStr ''b''), (''depth'', PInt 0), (''type'', PStr t),
      (''payload'', PDict [(''context'', sample_context c)])]"


end
