(* ===== verification/Ipc.thy ===== *)
theory Ipc
  imports Specs Response
begin

text \<open>
  \<open>rlm/executor.py\<close>, the pipe between the host and the worker: the strict-JSON frames both ends send and
  receive, the decoders the host applies to the parts of a result frame, and the bounded capture of a
  cell's output.  A frame is the text of its UTF-8 bytes.
\<close>

section \<open>Frames\<close>

datatype ipc_kind =
    IpcReady | IpcStartupError | IpcShutdown | IpcShutdownComplete | IpcExecute
  | IpcExecutionResult | IpcHostRequest | IpcHostResponse | IpcWorkerError

fun ipc_kind_value :: "ipc_kind \<Rightarrow> string" where
  "ipc_kind_value IpcReady = ''ready''"
| "ipc_kind_value IpcStartupError = ''startup_error''"
| "ipc_kind_value IpcShutdown = ''shutdown''"
| "ipc_kind_value IpcShutdownComplete = ''shutdown_complete''"
| "ipc_kind_value IpcExecute = ''execute''"
| "ipc_kind_value IpcExecutionResult = ''execution_result''"
| "ipc_kind_value IpcHostRequest = ''host_request''"
| "ipc_kind_value IpcHostResponse = ''host_response''"
| "ipc_kind_value IpcWorkerError = ''worker_error''"

definition ipc_kinds :: "ipc_kind list" where
  "ipc_kinds = [IpcReady, IpcStartupError, IpcShutdown, IpcShutdownComplete, IpcExecute,
     IpcExecutionResult, IpcHostRequest, IpcHostResponse, IpcWorkerError]"

definition MAX_IPC_BYTES :: nat where
  "MAX_IPC_BYTES = 64 * 1024 * 1024"

abbreviation runtime_error :: "string \<Rightarrow> exn" where
  "runtime_error \<equiv> PyExc ''RuntimeError''"

abbreviation os_error :: "string \<Rightarrow> exn" where
  "os_error \<equiv> PyExc ''OSError''"

text \<open>\<open>RLMError(message, code=code)\<close>\<close>

definition rlm_error :: "string \<Rightarrow> string \<Rightarrow> exn" where
  "rlm_error message c = RLMErr message c 500 ''server_error'' None None"

definition send_message :: "dict \<Rightarrow> exn + string" where
  "send_message message =
     (case json_compatibility_error (PDict message) of
        Some e \<Rightarrow> Inl (type_error (''executor IPC message requires strict JSON: '' @ e))
      | None \<Rightarrow> ebind (dumps compact (PDict message)) (\<lambda>encoded.
          if MAX_IPC_BYTES < length (utf8 encoded)
          then Inl (os_error (''executor IPC message is '' @ show_nat (length (utf8 encoded))
                 @ '' bytes; limit is '' @ show_nat MAX_IPC_BYTES @ '' bytes''))
          else Inr encoded))"

text \<open>\<open>recv_bytes\<close> refuses a longer frame, and what is not a strict JSON object is an \<open>OSError\<close>.\<close>

definition receive_message :: "string \<Rightarrow> exn + dict" where
  "receive_message encoded =
     (if MAX_IPC_BYTES < length (utf8 encoded) then Inl (os_error ''bad message length'')
      else case loads encoded of
        Inl e \<Rightarrow> Inl (os_error (''invalid executor IPC JSON: '' @ exn_message e))
      | Inr value \<Rightarrow>
          (case as_dict value of
             None \<Rightarrow> Inl (os_error (''invalid executor IPC JSON object: got '' @ type_name value))
           | Some message \<Rightarrow>
               (case json_compatibility_error value of
                  Some e \<Rightarrow> Inl (os_error (''invalid executor IPC JSON: '' @ e))
                | None \<Rightarrow> Inr message)))"

definition message_kind :: "dict \<Rightarrow> exn + ipc_kind" where
  "message_kind message =
     (case as_str (pget message ''type'') of
        None \<Rightarrow> Inl (HostProtocol ''executor IPC message requires a string type'')
      | Some raw \<Rightarrow>
          (case find (\<lambda>k. ipc_kind_value k = raw) ipc_kinds of
             None \<Rightarrow> Inl (HostProtocol (''unknown executor IPC message type: '' @ py_repr raw))
           | Some k \<Rightarrow> Inr k))"

section \<open>The parts of a result frame\<close>

definition fault_kinds :: "(string \<times> execution_fault_kind) list" where
  "fault_kinds = map (\<lambda>k. (execution_fault_kind_value k, k)) [EFExecution, EFModelOutput, EFFinalSubmission]"

definition host_failure_kinds :: "(string \<times> host_failure_kind) list" where
  "host_failure_kinds = map (\<lambda>k. (host_failure_kind_value k, k)) [HFRlmError, HFInfrastructure]"

definition output_channels :: "(string \<times> output_channel) list" where
  "output_channels = map (\<lambda>c. (channel_value c, c)) [ChStdout, ChStderr, ChDisplay, ChTraceback]"

definition text_or_none :: "py \<Rightarrow> bool" where
  "text_or_none v \<longleftrightarrow> v = PNone \<or> is_str v"

text \<open>A \<open>parent\<close> that is neither \<open>None\<close> nor a non-empty string is refused.\<close>

definition bad_parent :: "py \<Rightarrow> bool" where
  "bad_parent v \<longleftrightarrow> v \<noteq> PNone \<and> \<not> nonempty_str v"

definition host_error_record :: "py \<Rightarrow> exn + error_record" where
  "host_error_record value =
     (case as_dict value of
        None \<Rightarrow> Inl (value_error ''host error frame must be an object'')
      | Some d \<Rightarrow>
          if \<not> set (keys d) \<subseteq> {''record'', ''causal_parent_event_id''} \<or> ''record'' \<notin> set (keys d)
          then Inl (value_error ''host error frame must contain only a record and optional causal parent'')
          else if bad_parent (pget d ''causal_parent_event_id'')
          then Inl (value_error ''host error causal parent must be a non-empty string or null'')
          else error_record_from_dict (pget d ''record''))"

definition is_value_error :: "exn \<Rightarrow> bool" where
  "is_value_error e \<longleftrightarrow> exn_class e \<in> {''ValueError'', ''StrictJSONError''}"

definition host_error_item :: "py \<Rightarrow> exn + py" where
  "host_error_item frame =
     (case host_error_record frame of
        Inl e \<Rightarrow>
          Inl (if is_value_error e
               then rlm_error (''invalid executor host error frame: '' @ exn_message e) ''executor_protocol''
               else e)
      | Inr record \<Rightarrow> ebind (error_record_to_dict record) (\<lambda>d.
          Inr (PDict ((''record'', PDict d) #
            (case as_dict frame of
               None \<Rightarrow> []
             | Some i \<Rightarrow> if ''causal_parent_event_id'' \<in> set (keys i)
                 then [(''causal_parent_event_id'', pget i ''causal_parent_event_id'')] else [])))))"

definition host_errors :: "py \<Rightarrow> exn + py list" where
  "host_errors value =
     (case value of
        PNone \<Rightarrow> Inr []
      | PList items \<Rightarrow> emap host_error_item items
      | _ \<Rightarrow> Inl (rlm_error ''executor host errors must be a list'' ''executor_protocol''))"

definition exception_fields :: "string list" where
  "exception_fields = [''type'', ''message'', ''fault_kind'', ''code'', ''traceback'', ''details'']"

definition decode_exception :: "py \<Rightarrow> exn + execution_exception option" where
  "decode_exception value =
     (if value = PNone then Inr None else
      case as_dict value of
        None \<Rightarrow> Inl (HostProtocol ''execution exception frame has an invalid field set'')
      | Some d \<Rightarrow>
          if set (keys d) \<noteq> set exception_fields
          then Inl (HostProtocol ''execution exception frame has an invalid field set'')
          else if \<not> is_str (pget d ''type'') \<or> \<not> is_str (pget d ''message'')
          then Inl (HostProtocol ''execution exception frame requires text identity fields'')
          else case enum_of ''ExecutionFaultKind'' fault_kinds (pget d ''fault_kind'') of
            Inl e \<Rightarrow> Inl (HostProtocol ''execution exception fault_kind is invalid'')
          | Inr kind \<Rightarrow>
              if \<not> text_or_none (pget d ''code'')
              then Inl (HostProtocol ''execution exception code must be text or null'')
              else if \<not> text_or_none (pget d ''traceback'')
              then Inl (HostProtocol ''execution exception traceback must be text or null'')
              else if pget d ''details'' \<noteq> PNone \<and> \<not> is_dict (pget d ''details'')
              then Inl (HostProtocol ''execution exception details must be an object or null'')
              else Inr (Some
                \<lparr>xe_type = the (as_str (pget d ''type'')), xe_message = the (as_str (pget d ''message'')),
                 xe_fault_kind = kind, xe_code = as_str (pget d ''code''),
                 xe_traceback = as_str (pget d ''traceback''), xe_details = as_dict (pget d ''details'')\<rparr>))"

definition decode_host_failure :: "py \<Rightarrow> exn + host_failure option" where
  "decode_host_failure value =
     (if value = PNone then Inr None else
      case as_dict value of
        None \<Rightarrow> Inl (HostProtocol ''host failure frame has an invalid field set'')
      | Some d \<Rightarrow>
          if set (keys d) \<noteq> {''kind'', ''error''}
          then Inl (HostProtocol ''host failure frame has an invalid field set'')
          else case as_dict (pget d ''error'') of
            None \<Rightarrow> Inl (HostProtocol ''host failure error frame has an invalid field set'')
          | Some raw \<Rightarrow>
              if set (keys raw) \<noteq> {''record''} \<and> set (keys raw) \<noteq> {''record'', ''causal_parent_event_id''}
              then Inl (HostProtocol ''host failure error frame has an invalid field set'')
              else case ebind (enum_of ''HostFailureKind'' host_failure_kinds (pget d ''kind'')) (\<lambda>kind.
                     ebind (error_record_from_dict (pget raw ''record'')) (\<lambda>record. Inr (kind, record))) of
                Inl e \<Rightarrow> Inl (HostProtocol (''invalid host failure frame: '' @ exn_message e))
              | Inr (kind, record) \<Rightarrow>
                  if bad_parent (pget raw ''causal_parent_event_id'')
                  then Inl (HostProtocol ''host failure causal parent must be text or null'')
                  else Inr (Some \<lparr>hf_kind = kind, hf_error = record,
                         hf_causal_parent = as_str (pget raw ''causal_parent_event_id'')\<rparr>))"

definition decode_submission :: "py \<Rightarrow> exn + submission option" where
  "decode_submission value =
     (if value = PNone then Inr None else
      case as_dict value of
        None \<Rightarrow> Inl (HostProtocol ''execution submission must be an object or null'')
      | Some d \<Rightarrow>
          if set (keys d) = {''text''} \<and> is_str (pget d ''text'')
          then Inr (Some (TextSubmission (the (as_str (pget d ''text'')))))
          else if set (keys d) = {''response''} \<and> is_dict (pget d ''response'')
               \<and> json_compatibility_error (pget d ''response'') = None
          then Inr (Some (ResponseSubmission (the (as_dict (pget d ''response'')))))
          else Inl (HostProtocol ''execution submission has an invalid shape''))"

text \<open>The counts of a truncation are taken as they are.\<close>

record raw_truncation =
  rt_channel :: output_channel
  rt_original :: py
  rt_retained :: py
  rt_omitted :: py

definition decode_truncation :: "py \<Rightarrow> exn + raw_truncation" where
  "decode_truncation frame =
     (case as_dict frame of
        None \<Rightarrow> Inl (HostProtocol ''execution truncation has an invalid field set'')
      | Some d \<Rightarrow>
          if set (keys d) \<noteq> {''channel'', ''original_chars'', ''retained_chars'', ''omitted_chars''}
          then Inl (HostProtocol ''execution truncation has an invalid field set'')
          else case enum_of ''OutputChannel'' output_channels (pget d ''channel'') of
            Inl e \<Rightarrow> Inl (HostProtocol (''invalid execution truncation: '' @ exn_message e))
          | Inr channel \<Rightarrow>
              Inr \<lparr>rt_channel = channel, rt_original = pget d ''original_chars'',
                   rt_retained = pget d ''retained_chars'', rt_omitted = pget d ''omitted_chars''\<rparr>)"

definition decode_truncations :: "py \<Rightarrow> exn + raw_truncation list" where
  "decode_truncations value =
     (case as_list value of
        None \<Rightarrow> Inl (HostProtocol ''execution truncations must be a list'')
      | Some items \<Rightarrow> emap decode_truncation items)"

text \<open>
  The \<open>ExecutionResult\<close> the host builds: the text fields, the namespace and the duration are the values of
  the frame, which the code does not check.
\<close>

record raw_execution =
  rx_stdout :: py
  rx_stderr :: py
  rx_display :: py
  rx_exception :: "execution_exception option"
  rx_host_failure :: "host_failure option"
  rx_submission :: "submission option"
  rx_namespace :: py
  rx_truncations :: "raw_truncation list"
  rx_duration :: py

definition result_fields :: "string list" where
  "result_fields = [''type'', ''stdout'', ''stderr'', ''display'', ''duration_seconds'', ''exception'',
     ''host_failure'', ''submission'', ''namespace'', ''truncations'']"

definition decode_result :: "dict \<Rightarrow> exn + raw_execution" where
  "decode_result message =
     (if set (keys message) \<noteq> set result_fields
      then Inl (HostProtocol ''execution result frame has an invalid field set'')
      else ebind (decode_exception (pget message ''exception'')) (\<lambda>exception.
           ebind (decode_host_failure (pget message ''host_failure'')) (\<lambda>failure.
           ebind (decode_submission (pget message ''submission'')) (\<lambda>submitted.
           ebind (decode_truncations (pget message ''truncations'')) (\<lambda>truncations.
             Inr \<lparr>rx_stdout = pget message ''stdout'', rx_stderr = pget message ''stderr'',
                  rx_display = pget message ''display'',
                  rx_exception = (if failure \<noteq> None then None else exception),
                  rx_host_failure = failure,
                  rx_submission = (if failure \<noteq> None \<or> exception \<noteq> None then None else submitted),
                  rx_namespace = pget message ''namespace'', rx_truncations = truncations,
                  rx_duration = pget message ''duration_seconds''\<rparr>)))))"

section \<open>Bounded capture of output\<close>

record output_budget =
  ob_max_chars :: int
  ob_retained_chars :: int

definition budget_take :: "output_budget \<Rightarrow> int \<Rightarrow> output_budget \<times> int" where
  "budget_take b count =
     (let accepted = min count (max 0 (ob_max_chars b - ob_retained_chars b))
      in (b\<lparr>ob_retained_chars := ob_retained_chars b + accepted\<rparr>, accepted))"

record bounded_io =
  bio_channel :: output_channel
  bio_text :: string
  bio_total_chars :: int
  bio_retained_chars :: int

definition new_io :: "output_channel \<Rightarrow> bounded_io" where
  "new_io ch = \<lparr>bio_channel = ch, bio_text = [], bio_total_chars = 0, bio_retained_chars = 0\<rparr>"

definition io_write :: "output_budget \<Rightarrow> bounded_io \<Rightarrow> string \<Rightarrow> output_budget \<times> bounded_io" where
  "io_write b io value =
     (case budget_take b (int (length value)) of
        (b', room) \<Rightarrow>
          (let io' = (if room \<noteq> 0
                 then io\<lparr>bio_text := bio_text io @ take (nat room) value,
                         bio_retained_chars := bio_retained_chars io + int (length (take (nat room) value))\<rparr>
                 else io)
           in (b', io'\<lparr>bio_total_chars := bio_total_chars io' + int (length value)\<rparr>)))"

definition io_truncation :: "bounded_io \<Rightarrow> output_truncation option" where
  "io_truncation io =
     (if bio_total_chars io > bio_retained_chars io
      then Some \<lparr>tr_channel = bio_channel io, tr_original = bio_total_chars io,
                 tr_retained = bio_retained_chars io,
                 tr_omitted = bio_total_chars io - bio_retained_chars io\<rparr>
      else None)"

text \<open>The four captures of a cell share one budget.\<close>

record capture =
  cap_budget :: output_budget
  cap_io :: "output_channel \<Rightarrow> bounded_io"

definition new_capture :: "int \<Rightarrow> capture" where
  "new_capture max_chars =
     \<lparr>cap_budget = \<lparr>ob_max_chars = max_chars, ob_retained_chars = 0\<rparr>, cap_io = new_io\<rparr>"

definition capture_write :: "output_channel \<Rightarrow> string \<Rightarrow> capture \<Rightarrow> capture" where
  "capture_write ch value c =
     (case io_write (cap_budget c) (cap_io c ch) value of
        (b, io) \<Rightarrow> c\<lparr>cap_budget := b, cap_io := (cap_io c)(ch := io)\<rparr>)"

definition captured :: "output_channel \<Rightarrow> capture \<Rightarrow> string" where
  "captured ch c = bio_text (cap_io c ch)"

definition truncations_of :: "capture \<Rightarrow> output_truncation list" where
  "truncations_of c =
     List.map_filter (\<lambda>ch. io_truncation (cap_io c ch)) [ChStdout, ChStderr, ChDisplay, ChTraceback]"

section \<open>What a frame carries\<close>

definition sendable :: "dict \<Rightarrow> bool" where
  "sendable d \<longleftrightarrow> json_text_value (PDict d) \<and> length (utf8 (encode compact 0 (PDict d))) \<le> MAX_IPC_BYTES"

lemma json_text_value_data: "json_text_value v \<Longrightarrow> json_data v"
  by (simp add: json_text_value_def wf_json_def)

lemma sendable_encoded:
  assumes "sendable d"
  shows "json_compatibility_error (PDict d) = None"
    and "dumps compact (PDict d) = Inr (encode compact 0 (PDict d))"
    and "loads (encode compact 0 (PDict d)) = Inr (PDict d)"
proof -
  have v: "json_text_value (PDict d)" using assms by (simp add: sendable_def)
  have ns: "\<not> sort_keys compact" by (simp add: compact_def)
  from v have data: "json_data (PDict d)" by (rule json_text_value_data)
  then show "json_compatibility_error (PDict d) = None" by (simp only: json_compatibility_error_iff)
  show "dumps compact (PDict d) = Inr (encode compact 0 (PDict d))"
    using dumps_ok [OF data, of compact] ns by simp
  show "loads (encode compact 0 (PDict d)) = Inr (PDict d)"
    using strict_json_roundtrip(2) [OF style_ok_styles(1) v] ns by (simp add: loads_def)
qed

lemma send_sendable: "sendable d \<Longrightarrow> send_message d = Inr (encode compact 0 (PDict d))"
  by (simp only: send_message_def sendable_encoded option.case ebind_Inr)
     (simp add: sendable_def not_less del: encode.simps)

lemma receive_sendable: "sendable d \<Longrightarrow> receive_message (encode compact 0 (PDict d)) = Inr d"
  using sendable_encoded [of d]
  by (simp only: receive_message_def sum.case as_dict.simps option.case)
     (simp add: sendable_def not_less del: encode.simps)

lemma message_kind_value:
  "message_kind ((''type'', PStr (ipc_kind_value k)) # d) = Inr k"
  by (cases k) (simp_all add: message_kind_def ipc_kinds_def)

section \<open>The captures keep the first characters written\<close>

text \<open>All characters written, each with its channel, in the order they were written.\<close>

definition stream :: "(output_channel \<times> string) list \<Rightarrow> (output_channel \<times> char) list" where
  "stream ws = concat (map (\<lambda>(ch, s). map (Pair ch) s) ws)"

definition on_channel :: "output_channel \<Rightarrow> (output_channel \<times> char) list \<Rightarrow> string" where
  "on_channel ch xs = map snd (filter (\<lambda>p. fst p = ch) xs)"

definition capture_all :: "int \<Rightarrow> (output_channel \<times> string) list \<Rightarrow> capture" where
  "capture_all max_chars ws = fold (\<lambda>(ch, s). capture_write ch s) ws (new_capture max_chars)"

definition captures :: "int \<Rightarrow> (output_channel \<times> char) list \<Rightarrow> capture \<Rightarrow> bool" where
  "captures m xs c \<longleftrightarrow>
     ob_max_chars (cap_budget c) = m
     \<and> ob_retained_chars (cap_budget c) = int (length (take (nat m) xs))
     \<and> (\<forall>ch. bio_channel (cap_io c ch) = ch
          \<and> bio_text (cap_io c ch) = on_channel ch (take (nat m) xs)
          \<and> bio_retained_chars (cap_io c ch) = int (length (on_channel ch (take (nat m) xs)))
          \<and> bio_total_chars (cap_io c ch) = int (length (on_channel ch xs)))"

lemma on_channel_append [simp]: "on_channel ch (xs @ ys) = on_channel ch xs @ on_channel ch ys"
  by (simp add: on_channel_def)

lemma on_channel_pairs: "on_channel ch (map (Pair ch') s) = (if ch = ch' then s else [])"
  by (induction s) (auto simp: on_channel_def)

lemma captures_new: "0 \<le> m \<Longrightarrow> captures m [] (new_capture m)"
  by (simp add: captures_def new_capture_def new_io_def on_channel_def)

lemma captures_write:
  assumes "0 \<le> m" "captures m xs c"
  shows "captures m (xs @ map (Pair ch) s) (capture_write ch s c)"
proof -
  let ?left = "m - int (length (take (nat m) xs))"
  have b: "ob_max_chars (cap_budget c) = m" "ob_retained_chars (cap_budget c) = int (length (take (nat m) xs))"
    and io: "\<And>ch'. bio_channel (cap_io c ch') = ch'"
      "\<And>ch'. bio_text (cap_io c ch') = on_channel ch' (take (nat m) xs)"
      "\<And>ch'. bio_retained_chars (cap_io c ch') = int (length (on_channel ch' (take (nat m) xs)))"
      "\<And>ch'. bio_total_chars (cap_io c ch') = int (length (on_channel ch' xs))"
    using assms(2) by (auto simp: captures_def)
  let ?room = "min (int (length s)) (max 0 ?left)"
  have room: "nat ?room = length (take (nat m - length xs) s)"
    using assms(1) by auto
  have kept: "take (nat m) (xs @ map (Pair ch) s) = take (nat m) xs @ map (Pair ch) (take (nat ?room) s)"
    unfolding room by (simp add: take_map min_def)
  have total: "int (length (take (nat m) xs)) + ?room = int (length (take (nat m) (xs @ map (Pair ch) s)))"
    using assms(1) by auto
  have w: "capture_write ch s c =
      c\<lparr>cap_budget := (cap_budget c)\<lparr>ob_retained_chars := int (length (take (nat m) xs)) + ?room\<rparr>,
        cap_io := (cap_io c)(ch := (cap_io c ch)
          \<lparr>bio_text := bio_text (cap_io c ch) @ take (nat ?room) s,
           bio_retained_chars := bio_retained_chars (cap_io c ch) + int (length (take (nat ?room) s)),
           bio_total_chars := bio_total_chars (cap_io c ch) + int (length s)\<rparr>)\<rparr>"
    by (simp add: capture_write_def io_write_def budget_take_def Let_def b)
  show ?thesis
    unfolding captures_def w kept on_channel_append on_channel_pairs
    using io b(1) total [unfolded kept] by (simp del: take_append length_take)
qed

lemma capture_all_captures:
  assumes "0 \<le> m"
  shows "captures m (stream ws) (capture_all m ws)"
proof -
  have "captures m xs c \<Longrightarrow> captures m (xs @ stream ws) (fold (\<lambda>(ch, s). capture_write ch s) ws c)" for xs c
  proof (induction ws arbitrary: xs c)
    case Nil
    then show ?case by (simp add: stream_def)
  next
    case (Cons w ws)
    obtain ch s where w: "w = (ch, s)" by (cases w)
    show ?case
      using Cons.IH [OF captures_write [OF assms Cons.prems, of ch s]] by (simp add: w stream_def)
  qed
  from this [OF captures_new [OF assms]] show ?thesis by (simp add: capture_all_def)
qed

text \<open>C23: a cell's output is captured within its budget: the four channels together keep exactly the
  first \<open>max_output_chars\<close> characters the cell wrote, in the order it wrote them and each on its
  channel, never more; and a channel reports a truncation exactly when some of its characters are
  missing, with the exact numbers of characters written, kept and omitted.\<close>

theorem captured_output_bounded:
  assumes "1 \<le> max_chars" "c = capture_all max_chars ws"
  shows "captured ch c = on_channel ch (take (nat max_chars) (stream ws))
    \<and> (\<Sum>ch\<leftarrow>[ChStdout, ChStderr, ChDisplay, ChTraceback]. int (length (captured ch c))) =
        min max_chars (int (length (stream ws)))
    \<and> io_truncation (cap_io c ch) =
        (if length (captured ch c) < length (on_channel ch (stream ws))
         then Some \<lparr>tr_channel = ch, tr_original = int (length (on_channel ch (stream ws))),
                    tr_retained = int (length (captured ch c)),
                    tr_omitted = int (length (on_channel ch (stream ws))) - int (length (captured ch c))\<rparr>
         else None)"
proof -
  have c: "captures max_chars (stream ws) c" using capture_all_captures assms by simp
  then have kept: "captured ch c = on_channel ch (take (nat max_chars) (stream ws))" for ch
    by (simp add: captures_def captured_def)
  have "(\<Sum>ch\<leftarrow>[ChStdout, ChStderr, ChDisplay, ChTraceback]. int (length (on_channel ch xs))) = int (length xs)" for xs
  proof (induction xs)
    case Nil
    then show ?case by (simp add: on_channel_def)
  next
    case (Cons x xs)
    then show ?case by (cases "fst x") (simp_all add: on_channel_def)
  qed
  from this [of "take (nat max_chars) (stream ws)"]
  have "(\<Sum>ch\<leftarrow>[ChStdout, ChStderr, ChDisplay, ChTraceback]. int (length (captured ch c))) =
      min max_chars (int (length (stream ws)))"
    using assms(1) by (auto simp: kept min_def)
  moreover have "io_truncation (cap_io c ch) =
        (if length (captured ch c) < length (on_channel ch (stream ws))
         then Some \<lparr>tr_channel = ch, tr_original = int (length (on_channel ch (stream ws))),
                    tr_retained = int (length (captured ch c)),
                    tr_omitted = int (length (on_channel ch (stream ws))) - int (length (captured ch c))\<rparr>
         else None)"
    using c by (simp add: captures_def io_truncation_def captured_def)
  ultimately show ?thesis using kept by blast
qed

lemma captured_output_bounded_witness:
  "captured ChStderr (capture_all 5 [(ChStdout, ''abc''), (ChStderr, ''defg'')]) = ''de''
   \<and> io_truncation (cap_io (capture_all 5 [(ChStdout, ''abc''), (ChStderr, ''defg'')]) ChStderr)
       = Some \<lparr>tr_channel = ChStderr, tr_original = 4, tr_retained = 2, tr_omitted = 2\<rparr>"
  using captured_output_bounded [of 5 _ "[(ChStdout, ''abc''), (ChStderr, ''defg'')]" ChStderr, OF _ refl]
  by (simp add: stream_def on_channel_def)

end
