(* ===== verification/Worker.thy ===== *)
theory Worker
  imports Ipc Prompts
begin

text \<open>
  \<open>rlm/executor.py\<close>, the worker process: the functions bound in the controller's namespace, the execution of
  one cell, and the command loop.  A worker at work is a tree: it sends a frame and goes on with the frame it
  receives (\<open>None\<close> at the end of the pipe), or it is over.  The code of a cell is a tree as well: it writes
  output, displays values, calls the bound functions, and ends with its error and the namespace it leaves.
  What Python does in between is not the program's; the calls are made with arguments that are mappings,
  where the bound function begins with \<open>dict(...)\<close>.
\<close>

section \<open>Trees\<close>

datatype ('q, 'a, 'r) tree = Over 'r | Sends 'q "'a \<Rightarrow> ('q, 'a, 'r) tree"

type_synonym 'r wire = "(string, string option, 'r) tree"

primrec tree_bind :: "('q, 'a, 'r) tree \<Rightarrow> ('r \<Rightarrow> ('q, 'a, 's) tree) \<Rightarrow> ('q, 'a, 's) tree" where
  "tree_bind (Over x) f = f x"
| "tree_bind (Sends q k) f = Sends q (\<lambda>answer. tree_bind (k answer) f)"

text \<open>An exception of a cell, with its \<open>code\<close> and \<open>details\<close> attributes.\<close>

datatype worker_error =
    Raised exn
  | ModelOutputError string dict
  | FinalSubmissionError string dict
  | CellError string string py "dict option"

fun worker_error_class :: "worker_error \<Rightarrow> string" where
  "worker_error_class (Raised e) = exn_class e"
| "worker_error_class (ModelOutputError m d) = ''ModelOutputFault''"
| "worker_error_class (FinalSubmissionError m d) = ''FinalSubmissionFault''"
| "worker_error_class (CellError cls m c d) = cls"

fun worker_error_message :: "worker_error \<Rightarrow> string" where
  "worker_error_message (Raised e) = exn_message e"
| "worker_error_message (ModelOutputError m d) = m"
| "worker_error_message (FinalSubmissionError m d) = m"
| "worker_error_message (CellError cls m c d) = m"

fun worker_error_code :: "worker_error \<Rightarrow> py" where
  "worker_error_code (Raised e) = (if is_rlm_error e then PStr (exn_code e) else PNone)"
| "worker_error_code (CellError cls m c d) = c"
| "worker_error_code _ = PNone"

fun worker_error_details :: "worker_error \<Rightarrow> dict option" where
  "worker_error_details (Raised e) = None"
| "worker_error_details (ModelOutputError m d) = Some d"
| "worker_error_details (FinalSubmissionError m d) = Some d"
| "worker_error_details (CellError cls m c d) = d"

fun execution_fault_kind :: "worker_error \<Rightarrow> execution_fault_kind" where
  "execution_fault_kind (ModelOutputError m d) = EFModelOutput"
| "execution_fault_kind (FinalSubmissionError m d) = EFFinalSubmission"
| "execution_fault_kind _ = EFExecution"

record worker_state =
  ws_public_request :: dict
  ws_submission :: "dict option"
  ws_host_failure :: "dict option"
  ws_next_id :: int

type_synonym ('q, 'b, 'a) work = "worker_state \<Rightarrow> ('q, 'b, worker_state \<times> (worker_error + 'a)) tree"

text \<open>How a host operation is called: on the pipe it is \<open>host_call\<close> below.\<close>

type_synonym ('q, 'b) bridge = "bool \<Rightarrow> host_operation \<Rightarrow> dict \<Rightarrow> ('q, 'b, py) work"

definition work :: "worker_error + 'a \<Rightarrow> ('q, 'b, 'a) work" where
  "work r ws = Over (ws, r)"

definition work_bind :: "('q, 'b, 'a) work \<Rightarrow> ('a \<Rightarrow> ('q, 'b, 'c) work) \<Rightarrow> ('q, 'b, 'c) work" where
  "work_bind m f ws = tree_bind (m ws) (\<lambda>(ws', r). case r of Inl e \<Rightarrow> Over (ws', Inl e) | Inr x \<Rightarrow> f x ws')"

section \<open>The bridge to the host\<close>

definition not_cell_thread :: "string \<Rightarrow> exn" where
  "not_cell_thread operation = runtime_error (operation @ '' may only run on the active IPython cell thread; ''
     @ ''use a provided batch helper for parallel calls'')"

text \<open>
  An error frame of the host: a malformed request is raised in the cell, any other failure is latched for the
  result frame.
\<close>

definition latch_error :: "py \<Rightarrow> worker_state \<Rightarrow> worker_state \<times> (worker_error + py)" where
  "latch_error err ws =
     (case host_error_record err of
        Inl e \<Rightarrow> (ws, Inl (Raised (if is_value_error e
                   then HostProtocol (''invalid executor host error frame: '' @ exn_message e) else e)))
      | Inr record \<Rightarrow>
          if er_exception_type record = ''InvalidRequestError''
          then (ws, Inl (Raised (InvalidRequest (er_message record) (er_code record) None)))
          else (ws\<lparr>ws_host_failure := (case ws_host_failure ws of
                   Some f \<Rightarrow> Some f
                 | None \<Rightarrow> Some [(''kind'', PStr (host_failure_kind_value
                       (if er_code record \<noteq> ''internal_error'' then HFRlmError else HFInfrastructure))),
                     (''error'', err)])\<rparr>,
                Inl (Raised (runtime_error (er_message record)))))"

text \<open>What the worker makes of the frame it received for a request.\<close>

definition host_reply :: "int \<Rightarrow> string option \<Rightarrow> worker_state \<Rightarrow> worker_state \<times> (worker_error + py)" where
  "host_reply request_id incoming ws =
     (case incoming of
        None \<Rightarrow> (ws, Inl (Raised (PyExc ''EOFError'' [])))
      | Some encoded \<Rightarrow>
     (case receive_message encoded of
        Inl e \<Rightarrow> (ws, Inl (Raised e))
      | Inr reply \<Rightarrow>
     (case message_kind reply of
        Inl e \<Rightarrow> (ws, Inl (Raised e))
      | Inr kind \<Rightarrow>
          if kind \<noteq> IpcHostResponse \<or> \<not> py_eq (pget reply ''request_id'') (PInt request_id)
          then (ws, Inl (Raised (runtime_error (''invalid host response: '' @ repr_value (PDict reply)))))
          else if ''error'' \<in> set (keys reply) then
            (if set (keys reply) \<noteq> {''type'', ''request_id'', ''error''}
             then (ws, Inl (Raised (HostProtocol ''host response error frame has an invalid field set'')))
             else latch_error (pget reply ''error'') ws)
          else if set (keys reply) \<noteq> {''type'', ''request_id'', ''value''}
          then (ws, Inl (Raised (HostProtocol ''host response value frame has an invalid field set'')))
          else (ws, Inr (pget reply ''value'')))))"

definition host_request :: "int \<Rightarrow> host_operation \<Rightarrow> dict \<Rightarrow> dict" where
  "host_request request_id operation payload =
     [(''type'', PStr (ipc_kind_value IpcHostRequest)), (''request_id'', PInt request_id),
      (''operation'', PStr (operation_value operation)), (''payload'', PDict payload)]"

definition host_call :: "(string, string option) bridge" where
  "host_call on_thread operation payload ws =
     (if \<not> on_thread then Over (ws, Inl (Raised (not_cell_thread (operation_value operation))))
      else if ws_host_failure ws \<noteq> None
      then Over (ws, Inl (Raised (runtime_error ''fatal host failure is already latched'')))
      else let request_id = ws_next_id ws; ws' = ws\<lparr>ws_next_id := request_id + 1\<rparr>
        in case send_message (host_request request_id operation payload) of
             Inl e \<Rightarrow> Over (ws', Inl (Raised e))
           | Inr frame \<Rightarrow> Sends frame (\<lambda>incoming. Over (host_reply request_id incoming ws')))"

section \<open>The bound functions\<close>

definition want :: "bool \<Rightarrow> exn \<Rightarrow> 'a \<Rightarrow> worker_error + 'a" where
  "want ok e x = (if ok then Inr x else Inl (Raised e))"

definition model_complete :: "('q, 'b) bridge \<Rightarrow> bool \<Rightarrow> dict option \<Rightarrow> ('q, 'b, dict) work" where
  "model_complete hc th request_obj =
     work_bind (hc th ModelComplete [(''request'', opt_dict request_obj)]) (\<lambda>value.
       work (case as_dict value of
               None \<Rightarrow> Inl (Raised (runtime_error ''model_complete host returned a non-object''))
             | Some d \<Rightarrow> Inr d))"

fun batch_bodies :: "int \<Rightarrow> py list \<Rightarrow> worker_error + py list" where
  "batch_bodies index [] = Inr []"
| "batch_bodies index (v # vs) =
     (case as_dict v of
        None \<Rightarrow> Inl (Raised (type_error (''model_complete_batch expects full request mappings; item ''
                  @ show_int index @ '' is '' @ type_name v @ ''. Use ask_batch for text prompts.'')))
      | Some d \<Rightarrow> ebind (batch_bodies (index + 1) vs) (\<lambda>bodies. Inr (PDict d # bodies)))"

definition object_list :: "string \<Rightarrow> py \<Rightarrow> worker_error + dict list" where
  "object_list name value =
     (case value of
        PList items \<Rightarrow>
          if list_all is_dict items then Inr (map (\<lambda>v. the (as_dict v)) items)
          else Inl (Raised (runtime_error (name @ '' host returned an invalid value'')))
      | _ \<Rightarrow> Inl (Raised (runtime_error (name @ '' host returned an invalid value''))))"

definition model_complete_batch :: "('q, 'b) bridge \<Rightarrow> bool \<Rightarrow> py list \<Rightarrow> ('q, 'b, dict list) work" where
  "model_complete_batch hc th requests =
     work_bind (work (batch_bodies 0 requests)) (\<lambda>bodies.
     work_bind (hc th ModelCompleteBatch [(''requests'', PList bodies)]) (\<lambda>value.
       work (object_list ''model_complete_batch'' value)))"

definition text_request ::
  "dict \<Rightarrow> string \<Rightarrow> string option \<Rightarrow> string option \<Rightarrow> dict option \<Rightarrow> worker_error + dict" where
  "text_request public_request prompt system model options =
     (let chosen = (if model = None \<or> model = Some [] then pget public_request ''model'' else opt_str model);
          body = AList.update ''model'' chosen (case options of None \<Rightarrow> [] | Some d \<Rightarrow> d)
      in if \<not> truthy chosen then Inl (Raised (value_error ''ask requires a model''))
         else Inr (AList.update ''input'' (PStr prompt)
                (case system of None \<Rightarrow> body | Some s \<Rightarrow> AList.update ''instructions'' (PStr s) body)))"

definition worker_text_failure :: "int \<Rightarrow> dict \<Rightarrow> text_failure" where
  "worker_text_failure index response =
     \<lparr>tf_index = index,
      tf_kind = (if pget response ''status'' = PStr ''incomplete'' then IncompleteResponse else EmptyText),
      tf_response = response\<rparr>"

definition usable_text :: "dict \<Rightarrow> bool" where
  "usable_text response \<longleftrightarrow>
     pget response ''status'' = PStr ''completed'' \<and> strip (response_output_text response) \<noteq> []"

definition ask ::
  "('q, 'b) bridge \<Rightarrow> bool \<Rightarrow> string \<Rightarrow> string option \<Rightarrow> string option \<Rightarrow> dict option \<Rightarrow> ('q, 'b, string) work" where
  "ask hc th prompt system model options ws =
     work_bind (work (text_request (ws_public_request ws) prompt system model options)) (\<lambda>body.
     work_bind (model_complete hc th (Some body)) (\<lambda>response.
       work (if usable_text response then Inr (response_output_text response)
             else Inl (ModelOutputError ''ask returned no usable text''
                    [(''failures'', PList [PDict (failure_summary (worker_text_failure 0 response))])])))) ws"

fun batch_texts :: "dict list \<Rightarrow> string option list" where
  "batch_texts [] = []"
| "batch_texts (r # rs) = (if usable_text r then Some (response_output_text r) else None) # batch_texts rs"

fun batch_failures :: "int \<Rightarrow> dict list \<Rightarrow> text_failure list" where
  "batch_failures index [] = []"
| "batch_failures index (r # rs) =
     (if usable_text r then batch_failures (index + 1) rs
      else worker_text_failure index r # batch_failures (index + 1) rs)"

definition ask_batch ::
  "('q, 'b) bridge \<Rightarrow> bool \<Rightarrow> string list \<Rightarrow> string option \<Rightarrow> string option \<Rightarrow> dict option
     \<Rightarrow> ('q, 'b, ask_batch_result) work" where
  "ask_batch hc th prompts system model options ws =
     work_bind (work (emap (\<lambda>p. text_request (ws_public_request ws) p system model options) prompts)) (\<lambda>requests.
     work_bind (model_complete_batch hc th (map PDict requests)) (\<lambda>responses.
       if length responses \<noteq> length requests
       then work (Inl (Raised (runtime_error ''model_complete_batch returned the wrong number of responses'')))
       else work (case mk_ask_batch_result
               \<lparr>ab_texts = batch_texts responses, ab_responses = responses,
                ab_failures = batch_failures 0 responses\<rparr> of
             Inl e \<Rightarrow> Inl (Raised e) | Inr b \<Rightarrow> Inr b))) ws"

definition no_recursion :: exn where
  "no_recursion = runtime_error ''recursive RLM calls are disabled for this branch''"

definition rlm_complete :: "('q, 'b) bridge \<Rightarrow> bool \<Rightarrow> bool \<Rightarrow> dict option \<Rightarrow> ('q, 'b, dict) work" where
  "rlm_complete hc allow_recursion th request_obj =
     (if \<not> allow_recursion then work (Inl (Raised no_recursion))
      else work_bind (hc th RlmComplete [(''request'', opt_dict request_obj)]) (\<lambda>value.
        work (case as_dict value of
                None \<Rightarrow> Inl (Raised (runtime_error ''rlm_complete host returned a non-object''))
              | Some d \<Rightarrow> Inr d)))"

definition rlm_complete_batch ::
  "('q, 'b) bridge \<Rightarrow> bool \<Rightarrow> bool \<Rightarrow> dict list \<Rightarrow> ('q, 'b, dict list) work" where
  "rlm_complete_batch hc allow_recursion th requests =
     (if \<not> allow_recursion then work (Inl (Raised no_recursion))
      else work_bind (hc th RlmCompleteBatch [(''requests'', PList (map PDict requests))]) (\<lambda>value.
        work (object_list ''rlm_complete_batch'' value)))"

definition submit :: "string \<Rightarrow> bool \<Rightarrow> worker_error + dict \<Rightarrow> ('q, 'b, unit) work" where
  "submit name on_thread submitted ws =
     (if \<not> on_thread then Over (ws, Inl (Raised (not_cell_thread name)))
      else if ws_submission ws \<noteq> None
      then Over (ws, Inl (FinalSubmissionError ''only one final submission is allowed'' []))
      else case submitted of
             Inl e \<Rightarrow> Over (ws, Inl e)
           | Inr value \<Rightarrow> Over (ws\<lparr>ws_submission := Some value\<rparr>, Inr ()))"

definition FINAL_RESPONSE :: "bool \<Rightarrow> py \<Rightarrow> ('q, 'b, unit) work" where
  "FINAL_RESPONSE th response =
     submit ''FINAL_RESPONSE'' th
       (case as_dict response of
          None \<Rightarrow> Inl (FinalSubmissionError ''FINAL_RESPONSE requires an object''
                    [(''received_type'', PStr (type_name response))])
        | Some d \<Rightarrow>
            (case json_compatibility_error (PDict d) of
               Some e \<Rightarrow> Inl (FinalSubmissionError ''FINAL_RESPONSE requires strict JSON'' [(''reason'', PStr e)])
             | None \<Rightarrow> Inr [(''response'', PDict d)]))"

definition FINAL_TEXT :: "bool \<Rightarrow> py \<Rightarrow> ('q, 'b, unit) work" where
  "FINAL_TEXT th txt =
     submit ''FINAL_TEXT'' th
       (case as_str txt of
          None \<Rightarrow> Inl (FinalSubmissionError ''FINAL_TEXT requires a string''
                    [(''received_type'', PStr (type_name txt))])
        | Some s \<Rightarrow> Inr [(''text'', PStr s)])"

text \<open>The variables of the namespace: a batch result, a sized builtin, or any other object.\<close>

datatype variable = BatchVar ask_batch_result | SizedVar string nat | OtherVar string

fun variable_summary :: "variable \<Rightarrow> string" where
  "variable_summary (BatchVar b) = ''AskBatchResult(len='' @ show_nat (length (ab_texts b))
     @ '', failures='' @ show_nat (length (ab_failures b)) @ '')''"
| "variable_summary (SizedVar kind n) = kind @ ''(len='' @ show_nat n @ '')''"
| "variable_summary (OtherVar kind) = kind"

text \<open>\<open>_environment_namespace_contract\<close>: the names of the ABI, and those \<open>SHOW_VARS\<close> leaves out.\<close>

definition reserved_names :: "environment_abi \<Rightarrow> string list" where
  "reserved_names abi = map fn_name (abi_functions abi) @ [abi_request_name abi]"

definition ignored_names :: "environment_abi \<Rightarrow> string list" where
  "ignored_names abi = [''In'', ''Out'', ''exit'', ''quit'', ''get_ipython'', ''open''] @ reserved_names abi"

definition SHOW_VARS :: "string list \<Rightarrow> (string \<times> variable) list \<Rightarrow> dict" where
  "SHOW_VARS ignored user_ns =
     map (\<lambda>p. (fst p, PStr (variable_summary (snd p))))
       (filter (\<lambda>p. \<not> startswith (fst p) ''_'' \<and> fst p \<notin> set ignored) (sort_key fst user_ns))"

section \<open>The code of a cell\<close>

datatype api_call =
    CallModelComplete "dict option"
  | CallModelCompleteBatch "py list"
  | CallAsk string "string option" "string option" "dict option"
  | CallAskBatch "string list" "string option" "string option" "dict option"
  | CallRlmComplete "dict option"
  | CallRlmCompleteBatch "dict list"
  | CallFinalResponse py
  | CallFinalText py

datatype api_value = ApiValue py | ApiBatch ask_batch_result

datatype cell_code =
    CellEnd "(worker_error \<times> string) option" "(string \<times> variable) list"
  | CellWrite output_channel string cell_code
  | CellDisplay "string option" cell_code
  | CellUse bool api_call "worker_error + api_value \<Rightarrow> cell_code"

definition work_map :: "('a \<Rightarrow> 'c) \<Rightarrow> ('q, 'b, 'a) work \<Rightarrow> ('q, 'b, 'c) work" where
  "work_map f m = work_bind m (\<lambda>x. work (Inr (f x)))"

definition objects :: "dict list \<Rightarrow> api_value" where
  "objects ds = ApiValue (PList (map PDict ds))"

fun api :: "('q, 'b) bridge \<Rightarrow> bool \<Rightarrow> bool \<Rightarrow> api_call \<Rightarrow> ('q, 'b, api_value) work" where
  "api hc rec th (CallModelComplete r) = work_map (\<lambda>d. ApiValue (PDict d)) (model_complete hc th r)"
| "api hc rec th (CallModelCompleteBatch rs) = work_map objects (model_complete_batch hc th rs)"
| "api hc rec th (CallAsk p s m opts) = work_map (\<lambda>t. ApiValue (PStr t)) (ask hc th p s m opts)"
| "api hc rec th (CallAskBatch ps s m opts) = work_map ApiBatch (ask_batch hc th ps s m opts)"
| "api hc rec th (CallRlmComplete r) = work_map (\<lambda>d. ApiValue (PDict d)) (rlm_complete hc rec th r)"
| "api hc rec th (CallRlmCompleteBatch rs) = work_map objects (rlm_complete_batch hc rec th rs)"
| "api hc rec th (CallFinalResponse v) = work_map (\<lambda>_. ApiValue PNone) (FINAL_RESPONSE th v)"
| "api hc rec th (CallFinalText v) = work_map (\<lambda>_. ApiValue PNone) (FINAL_TEXT th v)"

record cell_outcome =
  co_error :: "(worker_error \<times> string) option"
  co_namespace :: "(string \<times> variable) list"
  co_capture :: capture
  co_state :: worker_state

primrec run_code ::
  "('q, 'b) bridge \<Rightarrow> bool \<Rightarrow> cell_code \<Rightarrow> capture \<Rightarrow> worker_state \<Rightarrow> ('q, 'b, cell_outcome) tree" where
  "run_code hc rec (CellEnd err ns) c ws =
     Over \<lparr>co_error = err, co_namespace = ns, co_capture = c, co_state = ws\<rparr>"
| "run_code hc rec (CellWrite ch s p) c ws = run_code hc rec p (capture_write ch s c) ws"
| "run_code hc rec (CellDisplay plain p) c ws =
     run_code hc rec p (case plain of None \<Rightarrow> c
       | Some s \<Rightarrow> capture_write ChDisplay [CHR 0x0A] (capture_write ChDisplay s c)) ws"
| "run_code hc rec (CellUse th call k) c ws =
     tree_bind (api hc rec th call ws) (\<lambda>(ws', r). run_code hc rec (k r) c ws')"

section \<open>The result frame\<close>

definition rstrip_newlines :: "string \<Rightarrow> string" where
  "rstrip_newlines s = rev (dropWhile (\<lambda>c. c = CHR 0x0A) (rev s))"

text \<open>The traceback is captured last; an empty one is left as it is.\<close>

definition capture_traceback :: "cell_outcome \<Rightarrow> capture" where
  "capture_traceback co =
     (case co_error co of
        None \<Rightarrow> co_capture co
      | Some (e, tb) \<Rightarrow> if tb = [] then co_capture co else capture_write ChTraceback tb (co_capture co))"

definition exception_frame :: "cell_outcome \<Rightarrow> py" where
  "exception_frame co =
     (case co_error co of
        None \<Rightarrow> PNone
      | Some (e, tb) \<Rightarrow> PDict [
          (''type'', PStr (worker_error_class e)), (''message'', PStr (worker_error_message e)),
          (''fault_kind'', PStr (execution_fault_kind_value (execution_fault_kind e))),
          (''code'', worker_error_code e),
          (''traceback'', PStr (captured ChTraceback (capture_traceback co))),
          (''details'', opt_dict (worker_error_details e))])"

definition frame_submission :: "cell_outcome \<Rightarrow> dict option" where
  "frame_submission co =
     (if co_error co \<noteq> None \<or> ws_host_failure (co_state co) \<noteq> None then None
      else ws_submission (co_state co))"

definition execution_frame :: "string list \<Rightarrow> rat \<Rightarrow> cell_outcome \<Rightarrow> dict" where
  "execution_frame ignored duration co =
     [(''type'', PStr (ipc_kind_value IpcExecutionResult)),
      (''stdout'', PStr (captured ChStdout (co_capture co))),
      (''stderr'', PStr (captured ChStderr (co_capture co))),
      (''display'', PStr (rstrip_newlines (captured ChDisplay (co_capture co)))),
      (''duration_seconds'', PFloat (Fin duration)),
      (''exception'', exception_frame co),
      (''host_failure'', opt_dict (ws_host_failure (co_state co))),
      (''submission'', opt_dict (frame_submission co)),
      (''namespace'', PDict (SHOW_VARS ignored (co_namespace co))),
      (''truncations'', PList (map (\<lambda>t. PDict (truncation_to_dict t)) (truncations_of (capture_traceback co))))]"

section \<open>The command loop\<close>

record worker =
  wk_allow_recursion :: bool
  wk_max_output_chars :: int
  wk_ignored :: "string list"

text \<open>
  After a command the worker has sent a frame and waits for the next one, has left the loop with a last frame
  or without one, or has died of an exception.
\<close>

datatype worker_outcome = Waits worker_state string | Exits "string option" | Dies worker_error

definition worker_sends :: "worker_state \<Rightarrow> dict \<Rightarrow> worker_outcome" where
  "worker_sends ws message =
     (case send_message message of Inl e \<Rightarrow> Dies (Raised e) | Inr frame \<Rightarrow> Waits ws frame)"

definition worker_refuses :: "worker_state \<Rightarrow> string \<Rightarrow> worker_outcome" where
  "worker_refuses ws message =
     worker_sends ws [(''type'', PStr (ipc_kind_value IpcWorkerError)), (''error'', PStr message)]"

text \<open>\<open>ipython\<close> stands for IPython: the code a cell's text runs as in the current namespace.\<close>

definition execute_cell ::
  "worker \<Rightarrow> (string \<Rightarrow> cell_code) \<Rightarrow> rat \<Rightarrow> string \<Rightarrow> worker_state \<Rightarrow> worker_outcome wire" where
  "execute_cell wk ipython duration cell ws =
     tree_bind (run_code host_call (wk_allow_recursion wk) (ipython cell) (new_capture (wk_max_output_chars wk)) ws)
       (\<lambda>co. Over (worker_sends (co_state co) (execution_frame (wk_ignored wk) duration co)))"

definition worker_command ::
  "worker \<Rightarrow> (string \<Rightarrow> cell_code) \<Rightarrow> rat \<Rightarrow> worker_state \<Rightarrow> string option \<Rightarrow> worker_outcome wire" where
  "worker_command wk ipython duration ws incoming =
     (case incoming of
        None \<Rightarrow> Over (Exits None)
      | Some encoded \<Rightarrow>
     (case receive_message encoded of
        Inl e \<Rightarrow> Over (Dies (Raised e))
      | Inr command \<Rightarrow>
     (case message_kind command of
        Inl e \<Rightarrow> Over (worker_refuses ws (exn_message e))
      | Inr kind \<Rightarrow>
          if kind = IpcShutdown then
            (if set (keys command) \<noteq> {''type''} then Over (worker_refuses ws ''invalid shutdown frame'')
             else Over (case send_message [(''type'', PStr (ipc_kind_value IpcShutdownComplete))] of
                      Inl e \<Rightarrow> Dies (Raised e) | Inr frame \<Rightarrow> Exits (Some frame)))
          else if kind \<noteq> IpcExecute \<or> set (keys command) \<noteq> {''type'', ''code''}
          then Over (worker_refuses ws ''invalid worker command'')
          else let ws' = ws\<lparr>ws_submission := None, ws_host_failure := None\<rparr>
            in case as_str (pget command ''code'') of
                 None \<Rightarrow> Over (worker_refuses ws' ''execute code must be text'')
               | Some cell \<Rightarrow> execute_cell wk ipython duration cell ws')))"

section \<open>Startup\<close>

text \<open>The environment variables of the worker: a few names of the host's, and its own directories.\<close>

definition safe_names :: "string list" where
  "safe_names = [''LANG'', ''LC_ALL'', ''LC_CTYPE'', ''PATH'', ''PYTHONHOME'', ''PYTHONPATH'', ''TERM'',
     ''TZ'', ''VIRTUAL_ENV'']"

definition sanitize_environment ::
  "string \<Rightarrow> string \<Rightarrow> (string \<times> string) list \<Rightarrow> (string \<times> string) list" where
  "sanitize_environment working_directory tempdir environ =
     dupdate (filter (\<lambda>p. fst p \<in> set safe_names) environ)
       [(''HOME'', working_directory), (''PWD'', working_directory), (''TMPDIR'', tempdir)]"

text \<open>
  How the steps before the loop go: the process group, the request, IPython, the bindings and the prelude,
  with the names the prelude binds.
\<close>

record worker_launch =
  wl_setsid_error :: "exn option"
  wl_import_error :: "exn option"
  wl_bindings :: "(string \<times> binding) list"
  wl_prelude :: "(exn + string list) option"
  wl_process_group :: "int option"

definition startup_error :: "string \<Rightarrow> exn + string" where
  "startup_error message =
     send_message [(''type'', PStr (ipc_kind_value IpcStartupError)), (''error'', PStr message)]"

text \<open>
  The bindings are checked, the prelude runs, and the worker is ready; the result is the frame it sends and the
  worker and state it goes on with, or the exception it dies of.
\<close>

definition worker_ready ::
  "worker_launch \<Rightarrow> dict \<Rightarrow> bool \<Rightarrow> int \<Rightarrow> exn + string \<times> (worker \<times> worker_state) option" where
  "worker_ready wl request allow_recursion max_output_chars =
     ebind (validate_environment_bindings ENVIRONMENT_ABI (wl_bindings wl) allow_recursion) (\<lambda>_.
     case wl_prelude wl of
       Some (Inl e) \<Rightarrow>
         ebind (startup_error (''harness prelude failed: '' @ exn_class e @ '': '' @ exn_message e)) (\<lambda>frame.
           Inr (frame, None))
     | prelude \<Rightarrow>
         let names = (case prelude of Some (Inr names) \<Rightarrow> filter (\<lambda>n. \<not> startswith n ''_'') names | _ \<Rightarrow> [])
         in ebind (send_message [(''type'', PStr (ipc_kind_value IpcReady)),
                (''process_group_id'', case wl_process_group wl of None \<Rightarrow> PNone | Some g \<Rightarrow> PInt g)]) (\<lambda>frame.
            Inr (frame, Some
              (\<lparr>wk_allow_recursion = allow_recursion, wk_max_output_chars = max_output_chars,
                wk_ignored = ignored_names ENVIRONMENT_ABI @ names\<rparr>,
               \<lparr>ws_public_request = request, ws_submission = None, ws_host_failure = None,
                ws_next_id = 0\<rparr>))))"

definition worker_main ::
  "worker_launch \<Rightarrow> string \<Rightarrow> bool \<Rightarrow> int \<Rightarrow> exn + string \<times> (worker \<times> worker_state) option" where
  "worker_main wl public_request_json allow_recursion max_output_chars =
     (let refused = (\<lambda>m. ebind (startup_error m) (\<lambda>frame. Inr (frame, None))) in
      case wl_setsid_error wl of
        Some e \<Rightarrow> refused (''could not establish POSIX process group: '' @ exn_class e @ '': '' @ exn_message e)
      | None \<Rightarrow>
     (case loads public_request_json of
        Inl e \<Rightarrow> refused (''invalid request JSON: '' @ exn_message e)
      | Inr value \<Rightarrow>
     (case as_dict value of
        None \<Rightarrow> refused ''request JSON must be an object''
      | Some request \<Rightarrow>
     (case wl_import_error wl of
        Some e \<Rightarrow> refused (exn_class e @ '': '' @ exn_message e)
      | None \<Rightarrow> worker_ready wl request allow_recursion max_output_chars))))"

end
