(* ===== verification/Executor.thy ===== *)
theory Executor
  imports Worker Effects
begin

text \<open>
  \<open>rlm/executor.py\<close>, the host's side: \<open>IPythonExecutor\<close> starts the worker process, sends it cells, serves the
  host calls a cell makes until its result arrives, and closes the process however that went.  The process and
  the pipe are operations on a world of their own; a failing one raises.  The loop that serves a cell has no
  bound of its own, so it takes fuel, and \<open>None\<close> says that the fuel is used up.
\<close>

section \<open>The process\<close>

datatype signal = SIGTERM | SIGKILL | SIGNONE

record 'w process =
  px_posix :: bool
  px_clock :: "'w \<Rightarrow> rat \<times> 'w"
  px_start :: "'w \<Rightarrow> (exn + unit) \<times> 'w"
  px_is_alive :: "'w \<Rightarrow> (exn + bool) \<times> 'w"
  px_pid :: "'w \<Rightarrow> int option"
  px_exitcode :: "'w \<Rightarrow> (exn + py) \<times> 'w"
  px_join :: "rat \<Rightarrow> 'w \<Rightarrow> (exn + unit) \<times> 'w"
  px_terminate :: "'w \<Rightarrow> (exn + unit) \<times> 'w"
  px_kill :: "'w \<Rightarrow> (exn + unit) \<times> 'w"
  px_close :: "'w \<Rightarrow> (exn + unit) \<times> 'w"
  px_getpgid :: "int \<Rightarrow> 'w \<Rightarrow> (exn + int) \<times> 'w"
  px_killpg :: "int \<Rightarrow> signal \<Rightarrow> 'w \<Rightarrow> (exn + unit) \<times> 'w"
  px_poll :: "rat \<Rightarrow> 'w \<Rightarrow> (exn + bool) \<times> 'w"
  px_send :: "string \<Rightarrow> 'w \<Rightarrow> (exn + unit) \<times> 'w"
  px_recv :: "'w \<Rightarrow> (exn + string) \<times> 'w"
  px_child_close :: "'w \<Rightarrow> (exn + unit) \<times> 'w"
  px_parent_close :: "'w \<Rightarrow> (exn + unit) \<times> 'w"
  px_cleanup :: "('w \<Rightarrow> (exn + unit) \<times> 'w) option"

record 'w executor_state =
  xs_startup_timeout :: rat
  xs_started :: bool
  xs_closed :: bool
  xs_process_group_id :: "int option"
  xs_child_open :: bool
  xs_exitcode :: py
  xs_world :: 'w

type_synonym ('w, 'a) host_act = "('w executor_state, 'a) act"

definition px :: "('w \<Rightarrow> (exn + 'a) \<times> 'w) \<Rightarrow> ('w, 'a) host_act" where
  "px f s = (case f (xs_world s) of (r, w) \<Rightarrow> (s\<lparr>xs_world := w\<rparr>, r))"

definition px_now :: "'w process \<Rightarrow> ('w, rat) host_act" where
  "px_now p = px (\<lambda>w. case px_clock p w of (t, w') \<Rightarrow> (Inr t, w'))"

definition transmit :: "'w process \<Rightarrow> dict \<Rightarrow> ('w, unit) host_act" where
  "transmit p message = andthen (lift (send_message message)) (\<lambda>frame. px (px_send p frame))"

definition receive :: "'w process \<Rightarrow> ('w, dict) host_act" where
  "receive p = andthen (px (px_recv p)) (\<lambda>encoded. lift (receive_message encoded))"

text \<open>\<open>except (classes) as exc\<close>\<close>

definition is_os_error :: "exn \<Rightarrow> bool" where
  "is_os_error e \<longleftrightarrow> exn_class e \<in> {''OSError'', ''ConnectionError'', ''BrokenPipeError'',
     ''ConnectionResetError'', ''ConnectionAbortedError'', ''ProcessLookupError'', ''PermissionError''}"

definition is_connection_error :: "exn \<Rightarrow> bool" where
  "is_connection_error e \<longleftrightarrow> exn_class e \<in> {''ConnectionError'', ''BrokenPipeError'',
     ''ConnectionResetError'', ''ConnectionAbortedError''}"

definition is_eof_error :: "exn \<Rightarrow> bool" where
  "is_eof_error e \<longleftrightarrow> exn_class e = ''EOFError''"

definition except :: "(exn \<Rightarrow> bool) \<Rightarrow> ('s, 'a) act \<Rightarrow> (exn \<Rightarrow> ('s, 'a) act) \<Rightarrow> ('s, 'a) act" where
  "except selected m h = catch m (\<lambda>e. if selected e then h e else raise e)"

section \<open>Process groups\<close>

definition known_process_group_id :: "'w process \<Rightarrow> ('w, int option) host_act" where
  "known_process_group_id p = (\<lambda>s.
     case xs_process_group_id s of
       Some g \<Rightarrow> (s, Inr (Some g))
     | None \<Rightarrow>
         (case px_pid p (xs_world s) of
            None \<Rightarrow> (s, Inr None)
          | Some pid \<Rightarrow>
              if \<not> px_posix p then (s, Inr None)
              else except (\<lambda>e. exn_class e = ''ProcessLookupError'')
                     (andthen (px (px_getpgid p pid)) (\<lambda>g.
                        if g \<noteq> pid then ret None
                        else (\<lambda>s. (s\<lparr>xs_process_group_id := Some g\<rparr>, Inr (Some g)))))
                     (\<lambda>_. ret None) s))"

definition signal_process_group :: "'w process \<Rightarrow> signal \<Rightarrow> ('w, bool) host_act" where
  "signal_process_group p sig =
     (if \<not> px_posix p then ret False
      else andthen (known_process_group_id p) (\<lambda>group.
        case group of
          None \<Rightarrow> ret False
        | Some g \<Rightarrow> except (\<lambda>e. exn_class e \<in> {''ProcessLookupError'', ''PermissionError''})
            (andthen (px (px_killpg p g sig)) (\<lambda>_. ret True)) (\<lambda>_. ret False)))"

definition process_group_exists :: "'w process \<Rightarrow> ('w, bool) host_act" where
  "process_group_exists p = signal_process_group p SIGNONE"

definition close_child_endpoint :: "'w process \<Rightarrow> ('w, unit) host_act" where
  "close_child_endpoint p = (\<lambda>s.
     if \<not> xs_child_open s then (s, Inr ()) else px (px_child_close p) (s\<lparr>xs_child_open := False\<rparr>))"

section \<open>Closing\<close>

text \<open>The local variables of \<open>close\<close> that its stages append to.\<close>

record 'w closing =
  cl_executor :: "'w executor_state"
  cl_failures :: "close_failure list"
  cl_interruptions :: "exn list"

definition attempt :: "string \<Rightarrow> ('w, 'a) host_act \<Rightarrow> 'a \<Rightarrow> ('w closing, 'a) act" where
  "attempt stage operation fallback cl =
     (case operation (cl_executor cl) of
        (s, Inr x) \<Rightarrow> (cl\<lparr>cl_executor := s\<rparr>, Inr x)
      | (s, Inl e) \<Rightarrow>
          if is_exception e
          then (cl\<lparr>cl_executor := s, cl_failures := cl_failures cl @ [
                  \<lparr>cf_name = stage, cf_exception_type = exn_class e,
                   cf_message = (if exn_message e = [] then exn_class e else exn_message e)\<rparr>]\<rparr>, Inr fallback)
          else (cl\<lparr>cl_executor := s, cl_interruptions := cl_interruptions cl @ [e]\<rparr>, Inr fallback))"

definition process_is_alive :: "'w process \<Rightarrow> ('w closing, bool) act" where
  "process_is_alive p = attempt ''process.is_alive'' (px (px_is_alive p)) False"

definition shutdown :: "'w process \<Rightarrow> ('w, bool) host_act" where
  "shutdown p = except (\<lambda>e. is_eof_error e \<or> is_connection_error e)
     (andthen (transmit p [(''type'', PStr (ipc_kind_value IpcShutdown))]) (\<lambda>_.
      andthen (px (px_poll p 2)) (\<lambda>arrived.
        if \<not> arrived then ret False
        else andthen (receive p) (\<lambda>message.
             andthen (lift (message_kind message)) (\<lambda>kind.
               ret (kind = IpcShutdownComplete \<and> set (keys message) = {''type''}))))))
     (\<lambda>_. ret False)"

definition when_then :: "bool \<Rightarrow> ('s, unit) act \<Rightarrow> ('s, unit) act" where
  "when_then b m = (if b then m else ret ())"

definition exit_stage :: "'w process \<Rightarrow> ('w, unit) host_act" where
  "exit_stage p = (\<lambda>s. case px (px_exitcode p) s of
     (t, Inr v) \<Rightarrow> (t\<lparr>xs_exitcode := v\<rparr>, Inr ()) | (t, Inl e) \<Rightarrow> (t\<lparr>xs_exitcode := PNone\<rparr>, Inl e))"

definition graceful_stages :: "'w process \<Rightarrow> bool \<Rightarrow> bool \<Rightarrow> ('w closing, unit) act" where
  "graceful_stages p started force =
     andthen (process_is_alive p) (\<lambda>alive.
     andthen (if alive \<and> \<not> force then attempt ''shutdown'' (shutdown p) False else ret False) (\<lambda>acknowledged.
       when_then (acknowledged \<and> started)
         (attempt ''process.join.graceful'' (px (px_join p (1 / 2))) ())))"

definition terminate_stages :: "'w process \<Rightarrow> ('w closing, unit) act" where
  "terminate_stages p =
     andthen (attempt ''process_group.sigterm'' (signal_process_group p SIGTERM) False) (\<lambda>group_signalled.
     andthen (process_is_alive p) (\<lambda>alive.
       when_then (alive \<and> \<not> group_signalled) (attempt ''process.terminate'' (px (px_terminate p)) ())))"

definition sigkill_stages :: "'w process \<Rightarrow> ('w closing, unit) act" where
  "sigkill_stages p =
     andthen (if px_posix p then attempt ''process_group.sigkill'' (signal_process_group p SIGKILL) False
              else ret False) (\<lambda>group_killed.
     andthen (process_is_alive p) (\<lambda>alive.
     andthen (when_then (alive \<and> \<not> group_killed) (attempt ''process.kill'' (px (px_kill p)) ())) (\<lambda>_.
       attempt ''process.join.kill'' (px (px_join p 1)) ())))"

definition kill_stages :: "'w process \<Rightarrow> ('w closing, unit) act" where
  "kill_stages p =
     andthen (attempt ''process.join.terminate'' (px (px_join p 3)) ()) (\<lambda>_.
     andthen (process_is_alive p) (\<lambda>alive.
     andthen (if alive then ret True else attempt ''process_group.exists'' (process_group_exists p) False) (\<lambda>exists.
     andthen (when_then exists (sigkill_stages p)) (\<lambda>_.
       attempt ''process.exitcode'' (exit_stage p) ()))))"

definition release_stages :: "'w process \<Rightarrow> bool \<Rightarrow> ('w closing, unit) act" where
  "release_stages p started =
     andthen (attempt ''child.close'' (close_child_endpoint p) ()) (\<lambda>_.
     andthen (attempt ''parent.close'' (px (px_parent_close p)) ()) (\<lambda>_.
     andthen (if \<not> started then ret False else process_is_alive p) (\<lambda>alive.
     andthen (when_then (\<not> alive) (attempt ''process.close'' (px (px_close p)) ())) (\<lambda>_.
       case px_cleanup p of
         None \<Rightarrow> ret ()
       | Some cleanup \<Rightarrow> attempt ''temporary_directory.cleanup'' (px cleanup) ()))))"

definition close_stages :: "'w process \<Rightarrow> bool \<Rightarrow> bool \<Rightarrow> ('w closing, unit) act" where
  "close_stages p started force =
     andthen (graceful_stages p started force) (\<lambda>_.
     andthen (terminate_stages p) (\<lambda>_.
     andthen (when_then started (kill_stages p)) (\<lambda>_.
       release_stages p started)))"

text \<open>The first interruption is raised; without one, the ordinary failures are raised together.\<close>

definition close_result :: "'w closing \<Rightarrow> exn + unit" where
  "close_result cl =
     (case cl_interruptions cl of
        selected # additional \<Rightarrow> Inl selected
      | [] \<Rightarrow> if cl_failures cl \<noteq> [] then Inl (ExecutorClose (cl_failures cl)) else Inr ())"

definition close_executor :: "'w process \<Rightarrow> bool \<Rightarrow> ('w, unit) host_act" where
  "close_executor p force s =
     (if xs_closed s then (s, Inr ())
      else case close_stages p (xs_started s) force
             \<lparr>cl_executor = s\<lparr>xs_closed := True\<rparr>, cl_failures = [], cl_interruptions = []\<rparr> of
             (cl, _) \<Rightarrow> (cl_executor cl, close_result cl))"

definition raise_after_forced_close :: "'w process \<Rightarrow> exn \<Rightarrow> ('w, 'a) host_act" where
  "raise_after_forced_close p primary s = (fst (close_executor p True s), Inl primary)"

section \<open>Starting\<close>

record executor_arguments =
  xa_request :: dict
  xa_startup_timeout :: rat
  xa_max_output_chars :: int
  xa_prelude_source :: py

text \<open>\<open>__init__\<close>: the checks of the arguments, and the text of the request the worker is spawned with.\<close>

definition new_executor :: "executor_arguments \<Rightarrow> 'w \<Rightarrow> exn + 'w executor_state \<times> string" where
  "new_executor a w =
     (if xa_max_output_chars a < 1 then Inl (value_error ''max_output_chars must be at least 1'')
      else if xa_prelude_source a \<noteq> PNone \<and> \<not> is_str (xa_prelude_source a)
      then Inl (type_error ''prelude_source must be a string or None'')
      else case json_compatibility_error (PDict (xa_request a)) of
        Some e \<Rightarrow> Inl (HostProtocol (''executor request must be strict JSON: '' @ e))
      | None \<Rightarrow> ebind (dumps compact (PDict (xa_request a))) (\<lambda>request_json.
          Inr (\<lparr>xs_startup_timeout = xa_startup_timeout a, xs_started = False, xs_closed = False,
                xs_process_group_id = None, xs_child_open = True, xs_exitcode = PNone, xs_world = w\<rparr>,
               request_json)))"

definition receive_within :: "'w process \<Rightarrow> rat \<Rightarrow> string \<Rightarrow> ('w, dict) host_act" where
  "receive_within p limit operation =
     andthen (px (px_poll p limit)) (\<lambda>arrived.
       if \<not> arrived then raise (ExecutionTimeout limit)
       else except (\<lambda>e. is_eof_error e \<or> is_os_error e) (receive p) (\<lambda>_.
         andthen (px (px_exitcode p)) (\<lambda>exitcode.
           raise (rlm_error (''IPython exited during '' @ operation @ '' with code '' @ repr_value exitcode)
                    ''executor_exit''))))"

definition start_executor :: "'w process \<Rightarrow> ('w, unit) host_act" where
  "start_executor p s =
     (if xs_started s then (s, Inl (rlm_error ''IPython executor has already started'' ''executor_state''))
      else andthen
        (catch (andthen (px (px_start p)) (\<lambda>_.
                andthen (\<lambda>s. (s\<lparr>xs_started := True\<rparr>, Inr ())) (\<lambda>_.
                andthen (close_child_endpoint p) (\<lambda>_.
                  receive_within p (xs_startup_timeout s) ''IPython startup''))))
           (\<lambda>e. raise_after_forced_close p
              (if is_rlm_error e \<or> \<not> is_exception e then e
               else rlm_error (''IPython failed to start: '' @ exn_class e @ '': '' @ exn_message e)
                      ''executor_startup'')))
        (\<lambda>message.
           case message_kind message of
             Inl e \<Rightarrow> raise_after_forced_close p e
           | Inr kind \<Rightarrow>
               if kind \<noteq> IpcReady \<or> set (keys message) \<noteq> {''type'', ''process_group_id''}
               then raise_after_forced_close p
                      (rlm_error (''IPython failed to start: '' @ repr_value (PDict message)) ''executor_startup'')
               else (\<lambda>s.
                 case (as_int (pget message ''process_group_id''), px_pid p (xs_world s)) of
                   (Some g, Some pid) \<Rightarrow>
                     (if px_posix p \<and> g = pid then s\<lparr>xs_process_group_id := Some g\<rparr> else s, Inr ())
                 | _ \<Rightarrow> (s, Inr ()))) s)"

section \<open>Serving a cell\<close>

type_synonym 'w action_handler = "host_operation \<Rightarrow> host_payload \<Rightarrow> rat \<Rightarrow> ('w, py) host_act"

definition ensure_running :: "'w process \<Rightarrow> ('w, unit) host_act" where
  "ensure_running p = (\<lambda>s.
     if xs_closed s then (s, Inl (rlm_error ''IPython executor is not running'' ''executor_state''))
     else andthen (px (px_is_alive p)) (\<lambda>alive.
       if alive then ret () else raise (rlm_error ''IPython executor is not running'' ''executor_state'')) s)"

fun is_timeout :: "exn \<Rightarrow> bool" where
  "is_timeout (ExecutionTimeout r) = True"
| "is_timeout _ = False"

fun is_host_protocol :: "exn \<Rightarrow> bool" where
  "is_host_protocol (HostProtocol m) = True"
| "is_host_protocol _ = False"

text \<open>The value of a host request: its handler runs only while the cell has time left.\<close>

definition answer_request ::
  "'w process \<Rightarrow> 'w action_handler \<Rightarrow> rat \<Rightarrow> rat \<Rightarrow> dict \<Rightarrow> ('w, py) host_act" where
  "answer_request p handler limit deadline message =
     andthen (lift (case Option.bind (as_str (pget message ''operation'')) operation_of of
                None \<Rightarrow> Inl (HostProtocol (''unknown host operation discriminator: ''
                          @ repr_value (pget message ''operation'')))
              | Some operation \<Rightarrow> Inr operation)) (\<lambda>operation.
     andthen (lift (decode_payload operation (pget message ''payload''))) (\<lambda>payload.
     andthen (px_now p) (\<lambda>now.
       if deadline - now \<le> 0 then raise (ExecutionTimeout limit)
       else andthen (handler operation payload (deadline - now)) (\<lambda>value.
            andthen (px_now p) (\<lambda>later.
              if deadline - later \<le> 0 then raise (ExecutionTimeout limit) else ret value)))))"

definition value_reply :: "py \<Rightarrow> py \<Rightarrow> dict" where
  "value_reply request_id value =
     [(''type'', PStr (ipc_kind_value IpcHostResponse)), (''request_id'', request_id), (''value'', value)]"

definition error_frame :: "exn \<Rightarrow> exn + dict" where
  "error_frame e =
     ebind (error_record_to_dict (error_record_for_exception e ''executor_host'')) (\<lambda>record.
       Inr ((''record'', PDict record) #
         (case (if is_rlm_error e then exn_causal e else None) of
            None \<Rightarrow> [] | Some event_id \<Rightarrow> [(''causal_parent_event_id'', opt_str event_id)])))"

definition error_reply :: "py \<Rightarrow> dict \<Rightarrow> dict" where
  "error_reply request_id err =
     [(''type'', PStr (ipc_kind_value IpcHostResponse)), (''request_id'', request_id), (''error'', PDict err)]"

definition serve_request ::
  "'w process \<Rightarrow> 'w action_handler \<Rightarrow> rat \<Rightarrow> rat \<Rightarrow> dict \<Rightarrow> ('w, unit) host_act" where
  "serve_request p handler limit deadline message =
     (if set (keys message) \<noteq> {''type'', ''request_id'', ''operation'', ''payload''}
      then raise_after_forced_close p (HostProtocol ''host request frame has an invalid field set'')
      else let request_id = pget message ''request_id'' in
        andthen
          (catch (andthen (answer_request p handler limit deadline message) (\<lambda>value.
                    ret (value_reply request_id value)))
             (\<lambda>e. if is_timeout e then raise_after_forced_close p (ExecutionTimeout limit)
                  else if is_host_protocol e then raise_after_forced_close p e
                  else if is_exception e
                  then andthen (lift (error_frame e)) (\<lambda>err. ret (error_reply request_id err))
                  else raise e))
          (\<lambda>reply.
             except (\<lambda>e. is_os_error e \<or> exn_class e = ''TypeError'') (transmit p reply) (\<lambda>e.
               raise_after_forced_close p (rlm_error (''could not send IPython host response: '' @ exn_message e)
                 ''executor_protocol''))))"

text \<open>One message of the worker: \<open>None\<close> when the cell goes on.\<close>

definition await_message :: "'w process \<Rightarrow> rat \<Rightarrow> rat \<Rightarrow> ('w, dict) host_act" where
  "await_message p limit deadline =
     andthen (px_now p) (\<lambda>now.
     andthen (if deadline - now \<le> 0 then ret False else px (px_poll p (deadline - now))) (\<lambda>arrived.
       if \<not> arrived then raise_after_forced_close p (ExecutionTimeout limit)
       else except (\<lambda>e. is_eof_error e \<or> is_os_error e) (receive p) (\<lambda>_.
         andthen (px (px_exitcode p)) (\<lambda>exitcode.
           raise_after_forced_close p
             (rlm_error (''IPython exited unexpectedly with code '' @ repr_value exitcode) ''executor_exit'')))))"

definition handle_message ::
  "'w process \<Rightarrow> 'w action_handler \<Rightarrow> rat \<Rightarrow> rat \<Rightarrow> dict \<Rightarrow> ('w, raw_execution option) host_act" where
  "handle_message p handler limit deadline message =
     (case message_kind message of
        Inl e \<Rightarrow> raise_after_forced_close p e
      | Inr IpcHostRequest \<Rightarrow>
          andthen (serve_request p handler limit deadline message) (\<lambda>_. ret None)
      | Inr IpcExecutionResult \<Rightarrow>
          (case decode_result message of
             Inr r \<Rightarrow> ret (Some r)
           | Inl e \<Rightarrow> if is_host_protocol e then raise_after_forced_close p e else raise e)
      | Inr _ \<Rightarrow> raise_after_forced_close p
          (rlm_error (''unexpected IPython message: '' @ repr_value (PDict message)) ''executor_protocol''))"

fun serve_cell ::
  "nat \<Rightarrow> 'w process \<Rightarrow> 'w action_handler \<Rightarrow> rat \<Rightarrow> rat \<Rightarrow> ('w, raw_execution option) host_act" where
  "serve_cell 0 p handler limit deadline = ret None"
| "serve_cell (Suc fuel) p handler limit deadline =
     andthen (await_message p limit deadline) (\<lambda>message.
     andthen (handle_message p handler limit deadline message) (\<lambda>r.
       case r of None \<Rightarrow> serve_cell fuel p handler limit deadline | Some x \<Rightarrow> ret (Some x)))"

definition execute ::
  "nat \<Rightarrow> 'w process \<Rightarrow> 'w action_handler \<Rightarrow> rat \<Rightarrow> string \<Rightarrow> ('w, raw_execution option) host_act" where
  "execute fuel p handler limit cell =
     andthen (ensure_running p) (\<lambda>_.
     andthen (except (\<lambda>e. is_os_error e \<or> exn_class e = ''TypeError'')
        (transmit p [(''type'', PStr (ipc_kind_value IpcExecute)), (''code'', PStr cell)])
        (\<lambda>e. raise_after_forced_close p
           (rlm_error (''could not send IPython cell: '' @ exn_message e) ''executor_protocol''))) (\<lambda>_.
     andthen (px_now p) (\<lambda>now.
       serve_cell fuel p handler limit (now + limit))))"

text \<open>\<open>__exit__\<close>: the exception of the body is kept.\<close>

definition exit_executor :: "'w process \<Rightarrow> exn option \<Rightarrow> ('w, unit) host_act" where
  "exit_executor p body_error =
     catch (close_executor p False) (\<lambda>close_error.
       raise (case body_error of Some e \<Rightarrow> e | None \<Rightarrow> close_error))"

end
