(* ===== verification/Executor_Close.thy ===== *)
theory Executor_Close
  imports Executor
begin

text \<open>
  What closing the executor achieves, whatever the operations on the process do: it is for good, every stage
  is attempted, and a worker that can be killed does not survive.  A cell that goes wrong ends in such a close.
\<close>

section \<open>Orders on the executor\<close>

text \<open>What all operations on the process keep, every operation of the executor keeps.\<close>

locale executor_order = state_order R
  for R :: "'w executor_state \<Rightarrow> 'w executor_state \<Rightarrow> bool"
begin

lemma keeps_except: "keeps R m \<Longrightarrow> (\<And>e. keeps R (h e)) \<Longrightarrow> keeps R (except sel m h)"
  unfolding except_def by (intro keeps_intros) auto

lemma keeps_transmit: "(\<And>frame. keeps R (px (px_send p frame))) \<Longrightarrow> keeps R (transmit p m)"
  unfolding transmit_def by (intro keeps_intros)

lemma keeps_receive: "keeps R (px (px_recv p)) \<Longrightarrow> keeps R (receive p)"
  unfolding receive_def by (intro keeps_intros)

lemma keeps_shutdown:
  assumes "\<And>frame. keeps R (px (px_send p frame))" "keeps R (px (px_recv p))" "\<And>r. keeps R (px (px_poll p r))"
  shows "keeps R (shutdown p)"
  unfolding shutdown_def by (intro keeps_except keeps_intros keeps_transmit keeps_receive assms)

lemma keeps_signal:
  assumes "keeps R (known_process_group_id p)" "\<And>g. keeps R (px (px_killpg p g sig))"
  shows "keeps R (signal_process_group p sig)"
  unfolding signal_process_group_def by (intro keeps_except keeps_intros assms)

text \<open>A stage of \<open>close\<close> never raises, and keeps what its operation keeps.\<close>

definition stage :: "('w closing, 'a) act \<Rightarrow> bool" where
  "stage m \<longleftrightarrow> (\<forall>cl. is_ok (snd (m cl)) \<and> R (cl_executor cl) (cl_executor (fst (m cl))))"

lemma stage_attempt: "keeps R m \<Longrightarrow> stage (attempt name m fallback)"
  unfolding stage_def
proof (intro allI)
  fix cl :: "'w closing"
  assume "keeps R m"
  then have "R (cl_executor cl) (fst (m (cl_executor cl)))" by (simp add: keeps_def)
  then show "is_ok (snd (attempt name m fallback cl)) \<and> R (cl_executor cl) (cl_executor (fst (attempt name m fallback cl)))"
    by (auto simp: attempt_def split: prod.split sum.split)
qed

lemma stage_ret: "stage (ret x)"
  by (simp add: stage_def ret_def refl)

lemma stage_andthen: "stage m \<Longrightarrow> (\<And>x. stage (f x)) \<Longrightarrow> stage (andthen m f)"
  unfolding stage_def
proof (intro allI)
  fix cl :: "'w closing"
  assume m: "\<forall>cl. is_ok (snd (m cl)) \<and> R (cl_executor cl) (cl_executor (fst (m cl)))"
    and f: "\<And>x. \<forall>cl. is_ok (snd (f x cl)) \<and> R (cl_executor cl) (cl_executor (fst (f x cl)))"
  obtain dl x where dl: "m cl = (dl, Inr x)"
    using m [rule_format, of cl] by (cases "m cl") (auto simp: is_ok_iff)
  have "R (cl_executor cl) (cl_executor dl)" using m [rule_format, of cl] by (simp add: dl)
  then have "R (cl_executor cl) (cl_executor (fst (f x dl)))" using f [of x] trans by blast
  then show "is_ok (snd (andthen m f cl)) \<and> R (cl_executor cl) (cl_executor (fst (andthen m f cl)))"
    using f [of x] by (simp add: andthen_def dl)
qed

lemma stage_if: "stage m \<Longrightarrow> stage n \<Longrightarrow> stage (if b then m else n)"
  by simp

lemma stage_when: "stage m \<Longrightarrow> stage (when_then b m)"
  by (simp add: when_then_def stage_ret)

lemma stage_option: "stage m \<Longrightarrow> (\<And>x. stage (f x)) \<Longrightarrow> stage (case v of None \<Rightarrow> m | Some x \<Rightarrow> f x)"
  by (simp split: option.split)

lemmas stage_intros = stage_ret stage_andthen stage_if stage_when stage_option stage_attempt

end

text \<open>An executor that is closed stays closed, and a closed pipe end stays closed.\<close>

definition no_reopening :: "'w executor_state \<Rightarrow> 'w executor_state \<Rightarrow> bool" where
  "no_reopening s t \<longleftrightarrow> (xs_closed s \<longrightarrow> xs_closed t) \<and> (\<not> xs_child_open s \<longrightarrow> \<not> xs_child_open t)"

interpretation closing: executor_order no_reopening
  by unfold_locales (auto simp: no_reopening_def)

lemma keeps_px: "keeps no_reopening (px f)"
  by (simp add: keeps_def px_def no_reopening_def split: prod.split)

lemma keeps_known_group: "keeps no_reopening (known_process_group_id p)"
proof -
  have "keeps no_reopening (\<lambda>s. (s\<lparr>xs_process_group_id := Some g\<rparr>, Inr (Some g)))" for g
    by (simp add: keeps_def no_reopening_def)
  then have "keeps no_reopening (except sel
      (andthen (px (px_getpgid p pid)) (\<lambda>g.
         if g \<noteq> pid then ret None else (\<lambda>s. (s\<lparr>xs_process_group_id := Some g\<rparr>, Inr (Some g)))))
      (\<lambda>_. ret None))" for sel pid
    by (intro closing.keeps_except closing.keeps_intros keeps_px)
  then show ?thesis
    unfolding keeps_def known_process_group_id_def by (auto simp: closing.refl split: option.split)
qed

lemma keeps_child_endpoint: "keeps no_reopening (close_child_endpoint p)"
  by (auto simp: keeps_def close_child_endpoint_def px_def no_reopening_def split: prod.split)

lemma keeps_exit_stage: "keeps no_reopening (exit_stage p)"
  by (auto simp: keeps_def exit_stage_def px_def no_reopening_def split: prod.split sum.split)

lemmas closing_keeps =
  keeps_px keeps_known_group keeps_child_endpoint keeps_exit_stage
  closing.keeps_signal [OF keeps_known_group keeps_px] closing.keeps_shutdown [OF keeps_px keeps_px keeps_px]

lemmas stage_defs =
  graceful_stages_def terminate_stages_def sigkill_stages_def kill_stages_def process_is_alive_def process_group_exists_def

lemma stages_before_release:
  "closing.stage (graceful_stages p started force)" "closing.stage (terminate_stages p)" "closing.stage (kill_stages p)"
  unfolding stage_defs by (intro closing.stage_intros closing_keeps)+

lemma stages_release: "closing.stage (release_stages p started)"
  unfolding release_stages_def process_is_alive_def by (intro closing.stage_intros closing_keeps)

lemma stages_all: "closing.stage (close_stages p started force)"
  unfolding close_stages_def by (intro closing.stage_intros stages_before_release stages_release)

text \<open>\<open>close\<close> runs its stages once, on the executor marked closed.\<close>

lemma close_executor_open:
  assumes "\<not> xs_closed s"
  obtains cl where
    "close_stages p (xs_started s) force
       \<lparr>cl_executor = s\<lparr>xs_closed := True\<rparr>, cl_failures = [], cl_interruptions = []\<rparr> = (cl, Inr ())"
    "close_executor p force s = (cl_executor cl, close_result cl)"
proof -
  let ?cl = "\<lparr>cl_executor = s\<lparr>xs_closed := True\<rparr>, cl_failures = [], cl_interruptions = []\<rparr>"
  obtain cl r where run: "close_stages p (xs_started s) force ?cl = (cl, r)"
    by (cases "close_stages p (xs_started s) force ?cl")
  moreover have "is_ok r"
    using stages_all [of p "xs_started s" force] run unfolding closing.stage_def by (metis snd_conv)
  ultimately show thesis
    using that [of cl] assms by (auto simp: is_ok_iff close_executor_def)
qed

lemma close_executor_closes: "xs_closed (fst (close_executor p force s))"
proof (cases "xs_closed s")
  case False
  obtain cl where run: "close_stages p (xs_started s) force
       \<lparr>cl_executor = s\<lparr>xs_closed := True\<rparr>, cl_failures = [], cl_interruptions = []\<rparr> = (cl, Inr ())"
    and close: "close_executor p force s = (cl_executor cl, close_result cl)"
    using close_executor_open [OF False] by blast
  have "no_reopening (s\<lparr>xs_closed := True\<rparr>) (cl_executor cl)"
    using stages_all [of p "xs_started s" force] run unfolding closing.stage_def
    by (metis closing.select_convs(1) fst_conv)
  then show ?thesis by (simp add: close no_reopening_def)
qed (simp add: close_executor_def)

section \<open>A cell that goes wrong closes the executor\<close>

definition wrong :: "('w, 'a) host_act \<Rightarrow> bool" where
  "wrong m \<longleftrightarrow> (\<forall>s. wp m (\<lambda>_ _. True) (\<lambda>e t. is_rlm_error e \<longrightarrow> xs_closed t) s)"

text \<open>The operations on the process raise exceptions of Python, not of the program.\<close>

definition raises_plainly :: "('w \<Rightarrow> (exn + 'a) \<times> 'w) \<Rightarrow> bool" where
  "raises_plainly f \<longleftrightarrow> (\<forall>w e w'. f w = (Inl e, w') \<longrightarrow> \<not> is_rlm_error e)"

definition plain_process :: "'w process \<Rightarrow> bool" where
  "plain_process p \<longleftrightarrow> raises_plainly (px_is_alive p) \<and> raises_plainly (px_exitcode p)
     \<and> (\<forall>r. raises_plainly (px_poll p r)) \<and> (\<forall>frame. raises_plainly (px_send p frame))
     \<and> raises_plainly (px_recv p)"

definition plain :: "('w, 'a) host_act \<Rightarrow> bool" where
  "plain m \<longleftrightarrow> (\<forall>s. wp m (\<lambda>_ _. True) (\<lambda>e t. \<not> is_rlm_error e) s)"

lemma plain_ret: "plain (ret x)"
  by (simp add: plain_def wp_simps)

lemma plain_px: "raises_plainly f \<Longrightarrow> plain (px f)"
  by (auto simp: plain_def wp_def px_def raises_plainly_def split: prod.split sum.split)

lemma plain_px_now: "plain (px_now p)"
  unfolding px_now_def by (rule plain_px) (auto simp: raises_plainly_def split: prod.split_asm)

lemma plain_lift: "(\<And>e. r = Inl e \<Longrightarrow> \<not> is_rlm_error e) \<Longrightarrow> plain (lift r)"
  by (simp add: plain_def wp_simps split: sum.split)

lemma plain_andthen: "plain m \<Longrightarrow> (\<And>x. plain (f x)) \<Longrightarrow> plain (andthen m f)"
  unfolding plain_def wp_andthen by (blast intro: wp_mono)

lemma plain_if: "plain m \<Longrightarrow> plain n \<Longrightarrow> plain (if b then m else n)"
  by simp

lemma plain_transmit: "plain_process p \<Longrightarrow> plain (transmit p m)"
  unfolding transmit_def plain_process_def
  by (intro plain_andthen plain_lift plain_px)
     (auto simp: send_message_def dumps_def ebind_eq_Inl split: option.split_asm sum.split_asm if_split_asm)

lemma plain_receive: "plain_process p \<Longrightarrow> plain (receive p)"
  unfolding receive_def plain_process_def
  by (intro plain_andthen plain_lift plain_px)
     (auto simp: receive_message_def split: option.split_asm sum.split_asm if_split_asm)

lemma wrong_plain: "plain m \<Longrightarrow> wrong m"
  unfolding plain_def wrong_def by (blast intro: wp_mono)

lemma wrong_forced: "wrong (raise_after_forced_close p e)"
  by (simp add: wrong_def wp_def raise_after_forced_close_def close_executor_closes)

lemma wrong_raise: "\<not> is_rlm_error e \<Longrightarrow> wrong (raise e)"
  by (simp add: wrong_def wp_simps)

lemma wrong_andthen: "wrong m \<Longrightarrow> (\<And>x. wrong (f x)) \<Longrightarrow> wrong (andthen m f)"
  unfolding wrong_def wp_andthen by (blast intro: wp_mono)

lemma wrong_catch: "(\<And>e. wrong (h e)) \<Longrightarrow> wrong (catch m h)"
  unfolding wrong_def wp_catch by (rule allI, rule wpI) blast+

lemma wrong_except:
  assumes "plain m" "\<And>e. wrong (h e)"
  shows "wrong (except sel m h)"
  unfolding except_def wrong_def wp_catch
proof (intro allI)
  fix s
  have "wp m (\<lambda>_ _. True) (\<lambda>e t. \<not> is_rlm_error e) s" using assms(1) by (simp add: plain_def)
  then show "wp m (\<lambda>_ _. True) (\<lambda>e. wp (if sel e then h e else raise e) (\<lambda>_ _. True)
      (\<lambda>e t. is_rlm_error e \<longrightarrow> xs_closed t)) s"
    by (rule wp_mono) (use assms(2) in \<open>simp_all add: wp_simps wrong_def\<close>)
qed

lemma wrongD:
  "wrong m \<Longrightarrow> (\<And>e t. is_rlm_error e \<longrightarrow> xs_closed t \<Longrightarrow> E e t) \<Longrightarrow> wp m (\<lambda>_ _. True) E s"
  unfolding wrong_def by (blast intro: wp_mono)

lemma wrong_if: "wrong m \<Longrightarrow> wrong n \<Longrightarrow> wrong (if b then m else n)"
  by simp

lemmas wrong_intros = wrong_forced wrong_andthen wrong_except wrong_if wrong_plain plain_transmit plain_receive plain_px_now plain_ret

lemma plain_process_ops:
  assumes "plain_process p"
  shows "plain (px (px_is_alive p))" "plain (px (px_exitcode p))" "plain (px (px_poll p r))"
  using assms by (auto simp: plain_process_def intro: plain_px)

lemma wrong_await:
  assumes p: "plain_process p"
  shows "wrong (await_message p limit deadline)"
proof -
  have "wrong (andthen (px (px_exitcode p)) (\<lambda>exitcode. raise_after_forced_close p (f exitcode)))" for f
    by (intro wrong_andthen wrong_forced) (rule wrong_plain [OF plain_process_ops(2) [OF p]])
  then have "wrong (except sel (receive p) (\<lambda>_. andthen (px (px_exitcode p)) (\<lambda>exitcode. raise_after_forced_close p (f exitcode))))" for sel f
    by (intro wrong_except plain_receive p)
  then show ?thesis
    unfolding await_message_def
    by (intro wrong_andthen wrong_if wrong_forced wrong_plain [OF plain_px_now] wrong_plain [OF plain_ret]
        wrong_plain [OF plain_process_ops(3) [OF p]])
qed

lemma not_exception_plain: "\<not> is_exception e \<Longrightarrow> \<not> is_rlm_error e"
  by (cases e) simp_all

lemma error_frame_plain: "error_frame e = Inl e' \<Longrightarrow> \<not> is_rlm_error e'"
  by (auto simp: error_frame_def error_record_to_dict_def ebind_eq_Inl split: option.split_asm)

lemma wrong_serve_request:
  assumes p: "plain_process p"
  shows "wrong (serve_request p handler limit deadline message)"
proof -
  let ?h = "\<lambda>request_id e. if is_timeout e then raise_after_forced_close p (ExecutionTimeout limit)
      else if is_host_protocol e then raise_after_forced_close p e
      else if is_exception e then andthen (lift (error_frame e)) (\<lambda>err. ret (error_reply request_id err))
      else raise e"
  have "plain (lift (error_frame e))" for e
    by (rule plain_lift) (rule error_frame_plain)
  then have "wrong (?h request_id e)" for request_id e
    by (cases "is_exception e")
       (auto intro!: wrong_if wrong_forced wrong_plain [OF plain_andthen] plain_ret wrong_raise not_exception_plain)
  then have "wrong (catch m (?h request_id))" for m request_id
    by (rule wrong_catch)
  then show ?thesis
    unfolding serve_request_def Let_def
    by (intro wrong_if wrong_forced wrong_andthen wrong_except plain_transmit p)
qed

text \<open>The decoders of the host raise nothing but \<open>HostProtocolError\<close>.\<close>

definition refuses :: "exn + 'a \<Rightarrow> bool" where
  "refuses r \<longleftrightarrow> (\<forall>e. r = Inl e \<longrightarrow> is_host_protocol e)"

lemma refuses_results: "refuses (Inr x)" "refuses (Inl (HostProtocol m))"
  by (simp_all add: refuses_def)

lemma refuses_if: "refuses r \<Longrightarrow> refuses q \<Longrightarrow> refuses (if b then r else q)"
  by simp

lemma refuses_option: "refuses r \<Longrightarrow> (\<And>x. refuses (f x)) \<Longrightarrow> refuses (case v of None \<Rightarrow> r | Some x \<Rightarrow> f x)"
  by (simp split: option.split)

lemma refuses_sum: "(\<And>e. refuses (g e)) \<Longrightarrow> (\<And>x. refuses (f x)) \<Longrightarrow> refuses (case v of Inl e \<Rightarrow> g e | Inr x \<Rightarrow> f x)"
  by (simp split: sum.split)

lemma refuses_prod: "(\<And>x y. refuses (f x y)) \<Longrightarrow> refuses (case v of (x, y) \<Rightarrow> f x y)"
  by (simp split: prod.split)

lemma refuses_ebind: "refuses m \<Longrightarrow> (\<And>x. refuses (f x)) \<Longrightarrow> refuses (ebind m f)"
  by (cases m) (simp_all add: refuses_def)

lemma refuses_emap: "(\<And>x. refuses (f x)) \<Longrightarrow> refuses (emap f xs)"
  by (induction xs) (auto intro!: refuses_ebind refuses_results)

lemmas refuses_intros =
  refuses_results refuses_if refuses_option refuses_sum refuses_prod refuses_ebind refuses_emap

lemma decoders_refuse:
  "refuses (decode_exception v)" "refuses (decode_host_failure v)" "refuses (decode_submission v)"
  "refuses (decode_truncations v)"
  unfolding decode_exception_def decode_host_failure_def decode_submission_def decode_truncations_def
    decode_truncation_def
  by (intro refuses_intros)+

lemma decode_result_refuses: "refuses (decode_result message)"
  unfolding decode_result_def by (intro refuses_intros decoders_refuse)

lemma wrong_handle_message:
  assumes "plain_process p"
  shows "wrong (handle_message p handler limit deadline message)"
  unfolding handle_message_def
  by (auto intro!: wrong_forced wrong_andthen wrong_serve_request [OF assms] wrong_plain [OF plain_ret]
      simp: decode_result_refuses [unfolded refuses_def, rule_format] split: sum.split ipc_kind.split)

lemma wrong_serve_cell: "plain_process p \<Longrightarrow> wrong (serve_cell fuel p handler limit deadline)"
proof (induction fuel)
  case 0
  then show ?case by (simp add: wrong_plain [OF plain_ret])
next
  case (Suc fuel)
  then show ?case
    by (auto intro!: wrong_andthen wrong_await wrong_handle_message wrong_plain [OF plain_ret] split: option.split)
qed

definition not_running :: exn where
  "not_running = rlm_error ''IPython executor is not running'' ''executor_state''"

lemma execute_closed: "xs_closed s \<Longrightarrow> execute fuel p handler limit cell s = (s, Inl not_running)"
  by (simp add: execute_def ensure_running_def andthen_def not_running_def)

lemma execute_not_running:
  assumes p: "plain_process p"
  shows "wp (execute fuel p handler limit cell) (\<lambda>_ _. True)
    (\<lambda>e t. is_rlm_error e \<longrightarrow> xs_closed t \<or> e = not_running) s"
proof -
  have "wp (ensure_running p) (\<lambda>_ _. True) (\<lambda>e t. is_rlm_error e \<longrightarrow> xs_closed t \<or> e = not_running) s"
  proof (cases "xs_closed s")
    case True
    then show ?thesis by (simp add: wp_def ensure_running_def)
  next
    case False
    have "wp (px (px_is_alive p)) (\<lambda>_ _. True) (\<lambda>e t. \<not> is_rlm_error e) s"
      using plain_process_ops(1) [OF p] by (simp add: plain_def)
    then have "wp (andthen (px (px_is_alive p)) (\<lambda>alive. if alive then ret () else raise not_running))
        (\<lambda>_ _. True) (\<lambda>e t. is_rlm_error e \<longrightarrow> xs_closed t \<or> e = not_running) s"
      unfolding wp_andthen by (rule wp_mono) (simp_all add: wp_simps)
    then show ?thesis
      using False unfolding not_running_def by (simp add: wp_def ensure_running_def)
  qed
  moreover have rest: "wrong (andthen (except sel (transmit p m) (\<lambda>e. raise_after_forced_close p (f e)))
      (\<lambda>_. andthen (px_now p) (\<lambda>now. serve_cell fuel p handler limit (now + limit))))" for sel m f
    by (intro wrong_andthen wrong_except plain_transmit p wrong_forced wrong_serve_cell wrong_plain [OF plain_px_now])
  ultimately show ?thesis
    unfolding execute_def wp_andthen [where m = "ensure_running p"]
  proof (elim wp_mono)
    fix x t
    show "wp (andthen (except sel (transmit p m) (\<lambda>e. raise_after_forced_close p (f e)))
        (\<lambda>_. andthen (px_now p) (\<lambda>now. serve_cell fuel p handler limit (now + limit))))
      (\<lambda>_ _. True) (\<lambda>e t. is_rlm_error e \<longrightarrow> xs_closed t \<or> e = not_running) t" for sel m f
      by (rule wrongD) (use rest in blast)+
  qed
qed

text \<open>C12: a cell that goes wrong leaves no worker behind: whenever \<open>execute\<close> raises an error of the program
  (a time limit passed, a broken or malformed message, an unknown operation, a worker that died), the
  executor has been closed, unless it was not running to begin with; from then on every further cell is
  refused and closing again does nothing.\<close>

theorem execute_fails_closed:
  assumes "plain_process p" "execute fuel p handler limit cell s = (t, Inl e)" "is_rlm_error e" "e \<noteq> not_running"
  shows "xs_closed t
    \<and> execute fuel' p handler' limit' cell' t = (t, Inl not_running)
    \<and> close_executor p force t = (t, Inr ())"
proof -
  have "xs_closed t"
    using wp_result [OF assms(2) execute_not_running [OF assms(1)]] assms(3,4) by auto
  then show ?thesis by (simp add: execute_closed close_executor_def)
qed

section \<open>No worker survives\<close>

definition never_revives :: "('w \<Rightarrow> bool) \<Rightarrow> ('w \<Rightarrow> 'a \<times> 'w) \<Rightarrow> bool" where
  "never_revives alive f \<longleftrightarrow> (\<forall>w. alive (snd (f w)) \<longrightarrow> alive w)"

text \<open>
  What the operating system promises: liveness is reported as it is, no operation brings a process back, and a
  process that was sent \<open>SIGKILL\<close>, itself or as its group, is dead.
\<close>

definition killable :: "'w process \<Rightarrow> int \<Rightarrow> ('w \<Rightarrow> bool) \<Rightarrow> bool" where
  "killable p pid alive \<longleftrightarrow>
     (\<forall>w. px_is_alive p w = (Inr (alive w), w)) \<and> (\<forall>w. px_pid p w = Some pid)
     \<and> (\<forall>w. fst (px_kill p w) = Inr () \<and> \<not> alive (snd (px_kill p w)))
     \<and> (\<forall>w. fst (px_killpg p pid SIGKILL w) = Inr () \<longrightarrow> \<not> alive (snd (px_killpg p pid SIGKILL w)))
     \<and> never_revives alive (px_exitcode p) \<and> (\<forall>r. never_revives alive (px_join p r))
     \<and> never_revives alive (px_terminate p) \<and> never_revives alive (px_close p)
     \<and> (\<forall>g. never_revives alive (px_getpgid p g)) \<and> (\<forall>g sig. never_revives alive (px_killpg p g sig))
     \<and> (\<forall>r. never_revives alive (px_poll p r)) \<and> (\<forall>m. never_revives alive (px_send p m))
     \<and> never_revives alive (px_recv p) \<and> never_revives alive (px_child_close p)
     \<and> never_revives alive (px_parent_close p) \<and> (\<forall>f. px_cleanup p = Some f \<longrightarrow> never_revives alive f)"

definition own_group :: "int \<Rightarrow> 'w executor_state \<Rightarrow> bool" where
  "own_group pid s \<longleftrightarrow> xs_process_group_id s = None \<or> xs_process_group_id s = Some pid"

definition winding_down :: "int \<Rightarrow> ('w \<Rightarrow> bool) \<Rightarrow> 'w executor_state \<Rightarrow> 'w executor_state \<Rightarrow> bool" where
  "winding_down pid alive s t \<longleftrightarrow>
     (alive (xs_world t) \<longrightarrow> alive (xs_world s)) \<and> (own_group pid s \<longrightarrow> own_group pid t)"

interpretation winding: executor_order "winding_down pid alive"
  by unfold_locales (auto simp: winding_down_def)

lemma winding_px: "never_revives alive f \<Longrightarrow> keeps (winding_down pid alive) (px f)"
  by (simp add: keeps_def px_def winding_down_def own_group_def never_revives_def split: prod.split)

lemma winding_ops:
  assumes "killable p pid alive"
  shows "keeps (winding_down pid alive) (px (px_is_alive p))"
    "keeps (winding_down pid alive) (px (px_kill p))"
    "keeps (winding_down pid alive) (px (px_join p r))"
    "keeps (winding_down pid alive) (px (px_terminate p))"
    "keeps (winding_down pid alive) (px (px_close p))"
    "keeps (winding_down pid alive) (px (px_parent_close p))"
    "keeps (winding_down pid alive) (px (px_poll p r))"
    "keeps (winding_down pid alive) (px (px_send p m))"
    "keeps (winding_down pid alive) (px (px_recv p))"
    "keeps (winding_down pid alive) (px (px_killpg p g sig))"
    "keeps (winding_down pid alive) (px (px_getpgid p g))"
    "px_cleanup p = Some f \<Longrightarrow> keeps (winding_down pid alive) (px f)"
proof -
  have "\<forall>w. px_is_alive p w = (Inr (alive w), w)" "\<forall>w. \<not> alive (snd (px_kill p w))"
    using assms unfolding killable_def by blast+
  then have "never_revives alive (px_kill p)" "never_revives alive (px_is_alive p)"
    by (simp_all add: never_revives_def)
  moreover have "never_revives alive (px_join p r)" "never_revives alive (px_terminate p)"
    "never_revives alive (px_close p)" "never_revives alive (px_parent_close p)"
    "never_revives alive (px_poll p r)" "never_revives alive (px_send p m)" "never_revives alive (px_recv p)"
    "never_revives alive (px_killpg p g sig)" "never_revives alive (px_getpgid p g)"
    "px_cleanup p = Some f \<Longrightarrow> never_revives alive f"
    using assms unfolding killable_def by blast+
  ultimately show "keeps (winding_down pid alive) (px (px_is_alive p))"
    "keeps (winding_down pid alive) (px (px_kill p))"
    "keeps (winding_down pid alive) (px (px_join p r))"
    "keeps (winding_down pid alive) (px (px_terminate p))"
    "keeps (winding_down pid alive) (px (px_close p))"
    "keeps (winding_down pid alive) (px (px_parent_close p))"
    "keeps (winding_down pid alive) (px (px_poll p r))"
    "keeps (winding_down pid alive) (px (px_send p m))"
    "keeps (winding_down pid alive) (px (px_recv p))"
    "keeps (winding_down pid alive) (px (px_killpg p g sig))"
    "keeps (winding_down pid alive) (px (px_getpgid p g))"
    "px_cleanup p = Some f \<Longrightarrow> keeps (winding_down pid alive) (px f)"
    by (simp_all only: winding_px)
qed

lemma winding_group:
  assumes "killable p pid alive"
  shows "keeps (winding_down pid alive) (known_process_group_id p)"
proof -
  have "keeps (winding_down pid alive) (\<lambda>s. (s\<lparr>xs_process_group_id := Some pid\<rparr>, Inr (Some pid)))"
    by (simp add: keeps_def winding_down_def own_group_def)
  then have "keeps (winding_down pid alive) (if g \<noteq> pid then ret None
      else (\<lambda>s. (s\<lparr>xs_process_group_id := Some g\<rparr>, Inr (Some g))))" for g
    by (cases "g = pid") (simp_all add: winding.keeps_ret)
  then have "keeps (winding_down pid alive) (except sel (andthen (px (px_getpgid p pid)) (\<lambda>g.
      if g \<noteq> pid then ret None else (\<lambda>s. (s\<lparr>xs_process_group_id := Some g\<rparr>, Inr (Some g)))))
      (\<lambda>_. ret None))" for sel
    by (intro winding.keeps_except winding.keeps_andthen winding.keeps_ret winding_ops [OF assms])
  moreover have "px_pid p w = Some pid" for w using assms by (simp add: killable_def)
  ultimately show ?thesis
    unfolding keeps_def known_process_group_id_def by (auto simp: winding.refl split: option.split)
qed

lemma winding_child:
  assumes "never_revives alive (px_child_close p)"
  shows "keeps (winding_down pid alive) (close_child_endpoint p)"
  unfolding keeps_def
proof
  fix s :: "'a executor_state"
  obtain r w where f: "px_child_close p (xs_world s) = (r, w)" by (cases "px_child_close p (xs_world s)")
  then have "alive w \<longrightarrow> alive (xs_world s)"
    using assms unfolding never_revives_def by (metis snd_conv)
  then show "winding_down pid alive s (fst (close_child_endpoint p s))"
    by (simp add: close_child_endpoint_def px_def f winding_down_def own_group_def)
qed

lemma winding_exit_stage:
  assumes "never_revives alive (px_exitcode p)"
  shows "keeps (winding_down pid alive) (exit_stage p)"
  unfolding keeps_def
proof
  fix s :: "'a executor_state"
  obtain r w where f: "px_exitcode p (xs_world s) = (r, w)" by (cases "px_exitcode p (xs_world s)")
  then have "alive w \<longrightarrow> alive (xs_world s)"
    using assms unfolding never_revives_def by (metis snd_conv)
  then show "winding_down pid alive s (fst (exit_stage p s))"
    by (simp add: exit_stage_def px_def f winding_down_def own_group_def split: sum.split)
qed

lemma winding_stages:
  assumes k: "killable p pid alive"
  shows "winding.stage pid alive (process_is_alive p)"
    "winding.stage pid alive (graceful_stages p started force)"
    "winding.stage pid alive (terminate_stages p)"
    "winding.stage pid alive (release_stages p started)"
    "winding.stage pid alive (attempt ''process_group.sigkill'' (signal_process_group p SIGKILL) False)"
    "winding.stage pid alive (attempt ''process_group.exists'' (process_group_exists p) False)"
    "winding.stage pid alive (attempt name (px (px_join p r)) ())"
    "winding.stage pid alive (attempt ''process.kill'' (px (px_kill p)) ())"
    "winding.stage pid alive (attempt ''process.exitcode'' (exit_stage p) ())"
proof -
  note sig = winding.keeps_signal [OF winding_group [OF k] winding_ops(10) [OF k]]
  note down = winding.keeps_shutdown [OF winding_ops(8,9,7) [OF k]]
  have child: "keeps (winding_down pid alive) (close_child_endpoint p)"
    "keeps (winding_down pid alive) (exit_stage p)"
    using k unfolding killable_def by (blast intro: winding_child winding_exit_stage)+
  show alive: "winding.stage pid alive (process_is_alive p)"
    unfolding process_is_alive_def by (intro winding.stage_intros winding_ops [OF k])
  show "winding.stage pid alive (graceful_stages p started force)" "winding.stage pid alive (terminate_stages p)"
    "winding.stage pid alive (attempt ''process_group.sigkill'' (signal_process_group p SIGKILL) False)"
    "winding.stage pid alive (attempt ''process_group.exists'' (process_group_exists p) False)"
    "winding.stage pid alive (attempt name (px (px_join p r)) ())"
    "winding.stage pid alive (attempt ''process.kill'' (px (px_kill p)) ())"
    "winding.stage pid alive (attempt ''process.exitcode'' (exit_stage p) ())"
    unfolding graceful_stages_def terminate_stages_def process_group_exists_def
    by (intro winding.stage_intros alive sig down child winding_ops [OF k])+
  have cleanup: "winding.stage pid alive (case px_cleanup p of None \<Rightarrow> ret ()
      | Some cleanup \<Rightarrow> attempt ''temporary_directory.cleanup'' (px cleanup) ())"
    by (cases "px_cleanup p") (simp_all add: winding.stage_ret winding.stage_attempt winding_ops(12) [OF k])
  show "winding.stage pid alive (release_stages p started)"
    unfolding release_stages_def
    by (intro cleanup winding.stage_ret winding.stage_andthen winding.stage_if winding.stage_when
        winding.stage_attempt alive child winding_ops(1-11) [OF k])
qed

lemma wp_stage:
  assumes "winding.stage pid alive m"
    "\<And>x dl. winding_down pid alive (cl_executor cl) (cl_executor dl) \<Longrightarrow> Q x dl"
  shows "wp m Q E cl"
proof -
  obtain dl r where run: "m cl = (dl, r)" by (cases "m cl")
  have "is_ok r" "winding_down pid alive (cl_executor cl) (cl_executor dl)"
    using assms(1) run unfolding winding.stage_def by (metis fst_conv snd_conv)+
  then show ?thesis
    using assms(2) run by (auto simp: wp_def is_ok_iff)
qed

lemma wp_is_alive:
  assumes "killable p pid alive"
  shows "wp (process_is_alive p) Q E cl \<longleftrightarrow> Q (alive (xs_world (cl_executor cl))) cl"
proof -
  have "px_is_alive p w = (Inr (alive w), w)" for w using assms unfolding killable_def by blast
  then show ?thesis by (simp add: process_is_alive_def attempt_def px_def wp_def)
qed

text \<open>A group that was signalled is the worker's own, so \<open>SIGKILL\<close> ends the worker.\<close>

lemma known_group_own:
  assumes k: "killable p pid alive" and "own_group pid s" "known_process_group_id p s = (t, Inr (Some g))"
  shows "g = pid"
proof (cases "xs_process_group_id s")
  case None
  have "px_pid p w = Some pid" for w using k unfolding killable_def by blast
  then show ?thesis
    using assms(3) None
    by (auto simp: known_process_group_id_def except_def catch_def andthen_def ret_def raise_def
        split: prod.split_asm sum.split_asm if_split_asm)
qed (use assms(2,3) in \<open>simp add: known_process_group_id_def own_group_def\<close>)

lemma sigkill_kills:
  assumes k: "killable p pid alive" and own: "own_group pid s" and sig: "signal_process_group p SIGKILL s = (t, Inr True)"
  shows "\<not> alive (xs_world t)"
proof -
  obtain u r where group: "known_process_group_id p s = (u, r)" by (cases "known_process_group_id p s")
  then obtain g where r: "r = Inr (Some g)"
    using sig by (auto simp: signal_process_group_def andthen_def ret_def split: if_split_asm sum.split_asm option.split_asm)
  then have g: "g = pid" using known_group_own [OF k own] group by simp
  have dead: "fst (px_killpg p pid SIGKILL w) = Inr () \<longrightarrow> \<not> alive (snd (px_killpg p pid SIGKILL w))" for w
    using k unfolding killable_def by blast
  show ?thesis
    using sig dead [of "xs_world u"] unfolding signal_process_group_def
    by (auto simp: group r g andthen_def except_def catch_def px_def ret_def raise_def
        split: if_split_asm prod.split_asm sum.split_asm)
qed

lemma kill_kills:
  assumes "killable p pid alive"
  shows "wp (attempt ''process.kill'' (px (px_kill p)) ()) (\<lambda>_ dl. \<not> alive (xs_world (cl_executor dl))) E cl"
proof -
  have kill: "fst (px_kill p w) = Inr ()" "\<not> alive (snd (px_kill p w))" for w
    using assms unfolding killable_def by blast+
  obtain r w where f: "px_kill p (xs_world (cl_executor cl)) = (r, w)" by (cases "px_kill p (xs_world (cl_executor cl))")
  then have "r = Inr ()" "\<not> alive w"
    using kill [of "xs_world (cl_executor cl)"] by simp_all
  then show ?thesis by (simp add: wp_def attempt_def px_def f)
qed

definition dead :: "('w \<Rightarrow> bool) \<Rightarrow> 'w closing \<Rightarrow> bool" where
  "dead alive cl \<longleftrightarrow> \<not> alive (xs_world (cl_executor cl))"

lemma wp_dead:
  assumes "winding.stage pid alive m" "dead alive cl" "\<And>x dl. dead alive dl \<Longrightarrow> Q x dl"
  shows "wp m Q E cl"
  by (rule wp_stage [OF assms(1)]) (use assms(2,3) in \<open>auto simp: winding_down_def dead_def\<close>)

lemma wp_sigkill:
  assumes k: "killable p pid alive" and "own_group pid (cl_executor cl)"
    and "\<And>b dl. (b \<longrightarrow> dead alive dl) \<Longrightarrow> Q b dl"
  shows "wp (attempt ''process_group.sigkill'' (signal_process_group p SIGKILL) False) Q E cl"
proof -
  obtain t r where sig: "signal_process_group p SIGKILL (cl_executor cl) = (t, r)"
    by (cases "signal_process_group p SIGKILL (cl_executor cl)")
  have "r = Inr True \<longrightarrow> \<not> alive (xs_world t)"
    using sigkill_kills [OF k assms(2)] sig by blast
  then show ?thesis
    using assms(3) sig by (auto simp: wp_def attempt_def dead_def split: sum.split)
qed

lemma wp_winding:
  assumes "winding.stage pid alive m" "own_group pid (cl_executor cl)"
    "\<And>x dl. own_group pid (cl_executor dl) \<Longrightarrow> Q x dl"
  shows "wp m Q E cl"
  by (rule wp_stage [OF assms(1)]) (use assms(2,3) in \<open>auto simp: winding_down_def\<close>)

lemma sigkill_stages_kill:
  assumes k: "killable p pid alive" and own: "own_group pid (cl_executor cl)"
  shows "wp (sigkill_stages p) (\<lambda>_. dead alive) (\<lambda>_ _. False) cl"
proof -
  have kill: "wp (attempt ''process.kill'' (px (px_kill p)) ()) (\<lambda>_. dead alive) (\<lambda>_ _. False) dl" for dl
    using kill_kills [OF k] by (simp add: dead_def [abs_def])
  have last: "wp (attempt ''process.join.kill'' (px (px_join p 1)) ()) (\<lambda>_. dead alive) (\<lambda>_ _. False) dl"
    if "dead alive dl" for dl
    by (rule wp_dead [OF winding_stages(7) [OF k] that])
  have after: "wp (when_then (alive (xs_world (cl_executor dl)) \<and> \<not> b) (attempt ''process.kill'' (px (px_kill p)) ()))
      (\<lambda>_. wp (attempt ''process.join.kill'' (px (px_join p 1)) ()) (\<lambda>_. dead alive) (\<lambda>_ _. False)) (\<lambda>_ _. False) dl"
    if "b \<longrightarrow> dead alive dl" for b dl
  proof (cases "alive (xs_world (cl_executor dl)) \<and> \<not> b")
    case True
    then show ?thesis
      unfolding when_then_def if_P [OF True] by (intro wp_mono [OF kill] last)
  next
    case False
    then have "dead alive dl" using that by (auto simp: dead_def)
    then show ?thesis
      unfolding when_then_def if_not_P [OF False] wp_ret by (rule last)
  qed
  show ?thesis
  proof (cases "px_posix p")
    case True
    show ?thesis
      unfolding sigkill_stages_def wp_andthen wp_is_alive [OF k] if_P [OF True]
      by (rule wp_sigkill [OF k own]) (rule after)
  next
    case False
    show ?thesis
      unfolding sigkill_stages_def wp_andthen wp_is_alive [OF k] if_not_P [OF False] wp_ret
      by (rule after) simp
  qed
qed

lemma kill_stages_kill:
  assumes k: "killable p pid alive" and own: "own_group pid (cl_executor cl)"
  shows "wp (kill_stages p) (\<lambda>_. dead alive) (\<lambda>_ _. False) cl"
proof -
  have exitcode: "wp (attempt ''process.exitcode'' (exit_stage p) ()) (\<lambda>_. dead alive) (\<lambda>_ _. False) dl"
    if "dead alive dl" for dl
    by (rule wp_dead [OF winding_stages(9) [OF k] that])
  have rest: "wp (when_then b (sigkill_stages p))
      (\<lambda>_. wp (attempt ''process.exitcode'' (exit_stage p) ()) (\<lambda>_. dead alive) (\<lambda>_ _. False)) (\<lambda>_ _. False) dl"
    if "own_group pid (cl_executor dl)" "b \<or> dead alive dl" for b dl
    using that exitcode
    by (cases b) (auto simp: when_then_def wp_ret intro: wp_mono [OF sigkill_stages_kill [OF k that(1)]])
  have "wp (if alive (xs_world (cl_executor dl)) then ret True
        else attempt ''process_group.exists'' (process_group_exists p) False)
      (\<lambda>exists. wp (when_then exists (sigkill_stages p))
         (\<lambda>_. wp (attempt ''process.exitcode'' (exit_stage p) ()) (\<lambda>_. dead alive) (\<lambda>_ _. False)) (\<lambda>_ _. False))
      (\<lambda>_ _. False) dl"
    if own: "own_group pid (cl_executor dl)" for dl
  proof (cases "alive (xs_world (cl_executor dl))")
    case True
    show ?thesis unfolding if_P [OF True] wp_ret by (rule rest [OF own]) simp
  next
    case False
    show ?thesis
      unfolding if_not_P [OF False]
      by (rule wp_stage [OF winding_stages(6) [OF k]], rule rest)
         (use own False in \<open>auto simp: winding_down_def dead_def\<close>)
  qed
  then show ?thesis
    unfolding kill_stages_def wp_andthen wp_is_alive [OF k]
    by (intro wp_winding [OF winding_stages(7) [OF k] own])
qed

text \<open>The interruptions are never ordinary exceptions, so an ordinary failure is always an aggregate.\<close>

definition interrupted :: "'w closing \<Rightarrow> 'w closing \<Rightarrow> bool" where
  "interrupted cl dl \<longleftrightarrow>
     (list_all (\<lambda>e. \<not> is_exception e) (cl_interruptions cl) \<longrightarrow> list_all (\<lambda>e. \<not> is_exception e) (cl_interruptions dl))"

interpretation interrupts: state_order interrupted
  by unfold_locales (auto simp: interrupted_def)

lemma interrupts_attempt: "keeps interrupted (attempt name m fallback)"
  by (auto simp: keeps_def attempt_def interrupted_def split: prod.split sum.split)

lemma interrupts_when: "keeps interrupted m \<Longrightarrow> keeps interrupted (when_then b m)"
  by (simp add: when_then_def interrupts.keeps_ret)

lemma interrupts_stages: "keeps interrupted (close_stages p started force)"
  unfolding close_stages_def stage_defs release_stages_def
  by (intro interrupts.keeps_intros interrupts_when interrupts_attempt)

lemma close_result_aggregates:
  assumes "list_all (\<lambda>e. \<not> is_exception e) (cl_interruptions cl)"
  shows "case close_result cl of Inr u \<Rightarrow> True
    | Inl e \<Rightarrow> \<not> is_exception e \<or> (\<exists>failures. failures \<noteq> [] \<and> e = ExecutorClose failures)"
  using assms by (auto simp: close_result_def split: list.split)


text \<open>A worker that ignores \<open>SIGTERM\<close> and never answers.\<close>

definition stubborn :: "bool process" where
  "stubborn =
     \<lparr>px_posix = True, px_clock = (\<lambda>w. (0, w)), px_start = (\<lambda>w. (Inr (), True)),
      px_is_alive = (\<lambda>w. (Inr w, w)), px_pid = (\<lambda>w. Some 7), px_exitcode = (\<lambda>w. (Inr PNone, w)),
      px_join = (\<lambda>r w. (Inr (), w)), px_terminate = (\<lambda>w. (Inr (), w)), px_kill = (\<lambda>w. (Inr (), False)),
      px_close = (\<lambda>w. (Inr (), w)), px_getpgid = (\<lambda>g w. (Inr g, w)),
      px_killpg = (\<lambda>g sig w. (Inr (), w \<and> sig \<noteq> SIGKILL)), px_poll = (\<lambda>r w. (Inr False, w)),
      px_send = (\<lambda>m w. (Inr (), w)), px_recv = (\<lambda>w. (Inl (PyExc ''EOFError'' []), w)),
      px_child_close = (\<lambda>w. (Inr (), w)), px_parent_close = (\<lambda>w. (Inl (os_error ''broken''), w)),
      px_cleanup = None\<rparr>"

definition running_executor :: "bool executor_state" where
  "running_executor =
     \<lparr>xs_startup_timeout = 20, xs_started = True, xs_closed = False, xs_process_group_id = None,
      xs_child_open = False, xs_exitcode = PNone, xs_world = True\<rparr>"

lemma stubborn_killable: "killable stubborn 7 (\<lambda>w. w)"
  by (simp add: killable_def never_revives_def stubborn_def)

lemma stubborn_plain: "plain_process stubborn"
  by (simp add: plain_process_def raises_plainly_def stubborn_def)


lemma execute_frame_sendable: "sendable [(''type'', PStr ''execute''), (''code'', PStr ''x'')]"
  by (simp add: sendable_def compact_def MAX_IPC_BYTES_def json_string_def json_char_def newline_indent_def
      utf8_def utf8_char_def)

lemma stubborn_times_out:
  "snd (execute 1 stubborn handler 5 ''x'' running_executor) = Inl (ExecutionTimeout 5)"
  by (simp add: execute_def ensure_running_def andthen_def px_def stubborn_def running_executor_def ret_def
      except_def catch_def transmit_def lift_def send_sendable [OF execute_frame_sendable] px_now_def
      await_message_def raise_after_forced_close_def)

definition idle_handler :: "bool action_handler" where
  "idle_handler op payload r = ret PNone"

lemma execute_fails_closed_witness:
  "xs_closed (fst (execute 1 stubborn idle_handler 5 ''x'' running_executor))
   \<and> snd (execute 1 stubborn idle_handler 5 ''x'' running_executor) = Inl (ExecutionTimeout 5)"
  using execute_fails_closed [OF stubborn_plain, of 1 idle_handler 5 "''x''" running_executor
      "fst (execute 1 stubborn idle_handler 5 ''x'' running_executor)" "ExecutionTimeout 5"] stubborn_times_out [of idle_handler]
  by (metis prod.collapse is_rlm_error.simps(16) not_running_def rlm_error_def exn.distinct)

section \<open>A cell ends\<close>

text \<open>A clock each reading of which is at least \<open>step\<close> before the next, whatever happens in between.\<close>

definition ticking :: "'w process \<Rightarrow> ('w \<Rightarrow> rat) \<Rightarrow> rat \<Rightarrow> bool" where
  "ticking p now step \<longleftrightarrow> 0 < step
     \<and> (\<forall>w. fst (px_clock p w) = now w \<and> now w + step \<le> now (snd (px_clock p w)))
     \<and> (\<forall>w. now w \<le> now (snd (px_is_alive p w))) \<and> (\<forall>w. now w \<le> now (snd (px_exitcode p w)))
     \<and> (\<forall>w r. now w \<le> now (snd (px_poll p r w))) \<and> (\<forall>w m. now w \<le> now (snd (px_send p m w)))
     \<and> (\<forall>w. now w \<le> now (snd (px_recv p w)))"

definition forward :: "('w \<Rightarrow> rat) \<Rightarrow> 'w executor_state \<Rightarrow> 'w executor_state \<Rightarrow> bool" where
  "forward now s t \<longleftrightarrow> now (xs_world s) \<le> now (xs_world t)"

interpretation time: executor_order "forward now"
  by unfold_locales (auto simp: forward_def)

lemma forward_px: "(\<And>w. now w \<le> now (snd (f w))) \<Longrightarrow> keeps (forward now) (px f)"
  by (simp add: keeps_def px_def forward_def split: prod.split) (metis snd_conv)

lemma forward_ops:
  assumes "ticking p now step"
  shows "keeps (forward now) (px (px_is_alive p))" "keeps (forward now) (px (px_exitcode p))"
    "keeps (forward now) (px (px_poll p r))" "keeps (forward now) (px (px_send p m))"
    "keeps (forward now) (px (px_recv p))"
  using assms unfolding ticking_def by (blast intro: forward_px)+

lemma forward_now:
  assumes "ticking p now step"
  shows "keeps (forward now) (px_now p)"
    and "wp (px_now p) (\<lambda>t s'. t = now (xs_world s) \<and> now (xs_world s) + step \<le> now (xs_world s')) (\<lambda>_ _. False) s"
proof -
  have tick: "fst (px_clock p w) = now w" "now w + step \<le> now (snd (px_clock p w))" for w
    using assms unfolding ticking_def by blast+
  have "0 < step" using assms unfolding ticking_def by blast
  have "now w \<le> now (snd (case px_clock p w of (t, w') \<Rightarrow> (Inr t, w')))" for w
    using tick [of w] \<open>0 < step\<close> by (cases "px_clock p w") simp
  then show "keeps (forward now) (px_now p)"
    unfolding px_now_def by (rule forward_px)
  obtain t w' where c: "px_clock p (xs_world s) = (t, w')" by (cases "px_clock p (xs_world s)")
  then show "wp (px_now p) (\<lambda>t s'. t = now (xs_world s) \<and> now (xs_world s) + step \<le> now (xs_world s')) (\<lambda>_ _. False) s"
    using tick [of "xs_world s"] by (simp add: px_now_def px_def wp_def)
qed

definition goes_on :: "('w \<Rightarrow> rat) \<Rightarrow> ('w, 'a) host_act \<Rightarrow> bool" where
  "goes_on now m \<longleftrightarrow> (\<forall>s. wp m (\<lambda>_. forward now s) (\<lambda>_ _. True) s)"

lemma goes_on_keeps: "keeps (forward now) m \<Longrightarrow> goes_on now m"
  unfolding goes_on_def keeps_def by (intro allI wpI) (metis fst_conv, simp)

lemma goes_onD:
  "goes_on now m \<Longrightarrow> (\<And>x v. forward now u v \<Longrightarrow> Q x v) \<Longrightarrow> wp m Q (\<lambda>_ _. True) u"
  unfolding goes_on_def by (blast intro: wp_mono)

lemma goes_on_raise: "goes_on now (raise e)" "goes_on now (raise_after_forced_close p e)"
  by (simp_all add: goes_on_def wp_def raise_def raise_after_forced_close_def)

lemma goes_on_andthen:
  assumes "goes_on now m" "\<And>x. goes_on now (f x)"
  shows "goes_on now (andthen m f)"
  unfolding goes_on_def wp_andthen
proof (intro allI)
  fix s
  have "wp (f x) (\<lambda>_. forward now s) (\<lambda>_ _. True) t" if "forward now s t" for x t
    using assms(2) [of x] that unfolding goes_on_def by (blast intro: wp_mono time.trans)
  then show "wp m (\<lambda>x. wp (f x) (\<lambda>_. forward now s) (\<lambda>_ _. True)) (\<lambda>_ _. True) s"
    using assms(1) unfolding goes_on_def by (blast intro: wp_mono)
qed

lemma goes_on_catch:
  assumes "keeps (forward now) m" "\<And>e. goes_on now (h e)"
  shows "goes_on now (catch m h)"
  unfolding goes_on_def wp_catch
proof (intro allI)
  fix s
  have h: "wp (h e) (\<lambda>_. forward now s) (\<lambda>_ _. True) t" if "forward now s t" for e t
    using assms(2) [of e] that unfolding goes_on_def by (blast intro: wp_mono time.trans)
  have m: "forward now s (fst (m s))" using assms(1) by (simp add: keeps_def)
  show "wp m (\<lambda>_. forward now s) (\<lambda>e. wp (h e) (\<lambda>_. forward now s) (\<lambda>_ _. True)) s"
    by (rule wpI) (use m in simp, rule h, use m in simp)
qed

lemma goes_on_if: "goes_on now m \<Longrightarrow> goes_on now n \<Longrightarrow> goes_on now (if b then m else n)"
  by simp

lemma goes_on_except: "keeps (forward now) m \<Longrightarrow> (\<And>e. goes_on now (h e)) \<Longrightarrow> goes_on now (except sel m h)"
  unfolding except_def by (intro goes_on_catch goes_on_if goes_on_raise)

lemmas goes_on_intros =
  goes_on_raise goes_on_andthen goes_on_except goes_on_if goes_on_catch goes_on_keeps

lemma goes_on_await:
  assumes "ticking p now step"
  shows "goes_on now (andthen (if b then ret False else px (px_poll p r)) (\<lambda>arrived.
    if \<not> arrived then raise_after_forced_close p (ExecutionTimeout limit)
    else except sel (receive p) (\<lambda>_. andthen (px (px_exitcode p)) (\<lambda>exitcode. raise_after_forced_close p (f exitcode)))))"
  by (intro goes_on_raise goes_on_andthen goes_on_except goes_on_if goes_on_keeps time.keeps_receive time.keeps_ret
      forward_ops [OF assms])

lemma goes_on_serve:
  assumes k: "ticking p now step" and h: "\<And>op payload r. keeps (forward now) (handler op payload r)"
  shows "goes_on now (handle_message p handler limit deadline message)"
proof -
  have answer: "keeps (forward now) (answer_request p handler limit deadline message)"
    unfolding answer_request_def by (intro time.keeps_intros forward_now(1) [OF k] h)
  have send: "keeps (forward now) (transmit p m)" for m
    by (intro time.keeps_transmit forward_ops [OF k])
  have "goes_on now (serve_request p handler limit deadline message)"
    unfolding serve_request_def Let_def
    by (intro goes_on_if goes_on_raise goes_on_andthen goes_on_catch goes_on_except send answer
        time.keeps_andthen time.keeps_ret goes_on_keeps [OF time.keeps_lift] goes_on_keeps [OF time.keeps_ret])
  then show ?thesis
    unfolding handle_message_def
    by (auto intro!: goes_on_raise goes_on_andthen goes_on_keeps [OF time.keeps_ret] split: sum.split ipc_kind.split)
qed

text \<open>With the deadline at most \<open>n\<close> steps away, \<open>n + 1\<close> messages are more than the cell can send.\<close>

lemma serve_cell_ends:
  assumes k: "ticking p now step" and h: "\<And>op payload r. keeps (forward now) (handler op payload r)"
  shows "deadline \<le> now (xs_world s) + of_nat n * step \<Longrightarrow> n < fuel \<Longrightarrow>
    wp (serve_cell fuel p handler limit deadline) (\<lambda>r _. r \<noteq> None) (\<lambda>_ _. True) s"
proof (induction fuel arbitrary: s n)
  case 0
  then show ?case by simp
next
  case (Suc fuel)
  have after: "wp (case r of None \<Rightarrow> serve_cell fuel p handler limit deadline | Some x \<Rightarrow> ret (Some x))
      (\<lambda>r _. r \<noteq> None) (\<lambda>_ _. True) u"
    if step: "now (xs_world s) + step \<le> now (xs_world u)" and left: "\<not> deadline - now (xs_world s) \<le> 0" for r u
  proof (cases r)
    case None
    obtain m where n: "n = Suc m"
      using Suc.prems(1) left by (cases n) auto
    then have "deadline \<le> now (xs_world u) + of_nat m * step"
      using Suc.prems(1) step n by (simp add: algebra_simps)
    then show ?thesis
      using Suc.IH [of u m] Suc.prems(2) None n by simp
  qed (simp add: wp_ret)
  have "wp (await_message p limit deadline)
      (\<lambda>message u. now (xs_world s) + step \<le> now (xs_world u) \<and> \<not> deadline - now (xs_world s) \<le> 0) (\<lambda>_ _. True) s"
    unfolding await_message_def wp_andthen [where m = "px_now p"]
  proof (rule wp_mono [OF forward_now(2) [OF k]])
    fix t and u :: "'a executor_state"
    assume t: "t = now (xs_world s) \<and> now (xs_world s) + step \<le> now (xs_world u)"
    show "wp (andthen (if deadline - t \<le> 0 then ret False else px (px_poll p (deadline - t))) (\<lambda>arrived.
          if \<not> arrived then raise_after_forced_close p (ExecutionTimeout limit)
          else except (\<lambda>e. is_eof_error e \<or> is_os_error e) (receive p) (\<lambda>_.
            andthen (px (px_exitcode p)) (\<lambda>exitcode. raise_after_forced_close p
              (rlm_error (''IPython exited unexpectedly with code '' @ repr_value exitcode) ''executor_exit'')))))
        (\<lambda>message u. now (xs_world s) + step \<le> now (xs_world u) \<and> \<not> deadline - now (xs_world s) \<le> 0) (\<lambda>_ _. True) u"
    proof (cases "deadline - t \<le> 0")
      case True
      then show ?thesis
        by (simp add: wp_andthen wp_ret) (simp add: wp_def raise_after_forced_close_def)
    next
      case False
      show ?thesis
        by (rule goes_onD [OF goes_on_await [OF k]]) (use False t in \<open>auto simp: forward_def\<close>)
    qed
  qed simp
  moreover have "wp (handle_message p handler limit deadline message)
      (\<lambda>r. wp (case r of None \<Rightarrow> serve_cell fuel p handler limit deadline | Some x \<Rightarrow> ret (Some x))
         (\<lambda>r _. r \<noteq> None) (\<lambda>_ _. True)) (\<lambda>_ _. True) u"
    if "now (xs_world s) + step \<le> now (xs_world u) \<and> \<not> deadline - now (xs_world s) \<le> 0" for message u
    by (rule goes_onD [OF goes_on_serve [OF k h]], rule after) (use that in \<open>auto simp: forward_def\<close>)
  ultimately show ?case
    unfolding serve_cell.simps wp_andthen by (rule wp_mono) simp_all
qed

lemma serve_cell_more_fuel:
  "serve_cell fuel p handler limit deadline s = (t, r) \<Longrightarrow> r \<noteq> Inr None \<Longrightarrow> fuel \<le> fuel'
   \<Longrightarrow> serve_cell fuel' p handler limit deadline s = (t, r)"
proof (induction fuel arbitrary: s fuel')
  case 0
  then show ?case by (simp add: ret_def)
next
  case (Suc fuel)
  then obtain fuel'' where "fuel' = Suc fuel''" "fuel \<le> fuel''" by (cases fuel') auto
  then show ?case
    using Suc.IH [of _ fuel''] Suc.prems
    by (auto simp: andthen_def split: prod.split_asm sum.split_asm option.split_asm)
qed

lemma execute_more_fuel:
  assumes "execute fuel p handler limit cell s = (t, r)" "r \<noteq> Inr None" "fuel \<le> fuel'"
  shows "execute fuel' p handler limit cell s = (t, r)"
proof -
  have "serve_cell fuel' p handler limit d u = serve_cell fuel p handler limit d u"
    if "snd (serve_cell fuel p handler limit d u) \<noteq> Inr None" for d u
    using that serve_cell_more_fuel [OF _ _ assms(3)] by (metis prod.collapse)
  then show ?thesis
    using assms(1,2) unfolding execute_def andthen_def
    by (simp split: prod.split_asm sum.split_asm)
qed


text \<open>A worker that asks the host again and again.\<close>

definition insistent :: "rat process" where
  "insistent =
     \<lparr>px_posix = True, px_clock = (\<lambda>w. (w, w + 1)), px_start = (\<lambda>w. (Inr (), w)),
      px_is_alive = (\<lambda>w. (Inr True, w)), px_pid = (\<lambda>w. Some 7), px_exitcode = (\<lambda>w. (Inr PNone, w)),
      px_join = (\<lambda>r w. (Inr (), w)), px_terminate = (\<lambda>w. (Inr (), w)), px_kill = (\<lambda>w. (Inr (), w)),
      px_close = (\<lambda>w. (Inr (), w)), px_getpgid = (\<lambda>g w. (Inr g, w)), px_killpg = (\<lambda>g sig w. (Inr (), w)),
      px_poll = (\<lambda>r w. (Inr True, w)), px_send = (\<lambda>m w. (Inr (), w)),
      px_recv = (\<lambda>w. (Inr (encode compact 0 (PDict (host_request 0 ModelComplete [(''request'', PNone)]))), w)),
      px_child_close = (\<lambda>w. (Inr (), w)), px_parent_close = (\<lambda>w. (Inr (), w)), px_cleanup = None\<rparr>"

definition patient_handler :: "rat action_handler" where
  "patient_handler op payload r = ret PNone"

definition ticking_executor :: "rat executor_state" where
  "ticking_executor =
     \<lparr>xs_startup_timeout = 20, xs_started = True, xs_closed = False, xs_process_group_id = None,
      xs_child_open = False, xs_exitcode = PNone, xs_world = 0\<rparr>"


end
