(* ===== verification/Executor_Pipe.thy ===== *)
theory Executor_Pipe
  imports Executor_Close
begin

text \<open>
  The pipe is transparent: a cell executed by the host's loop and the worker's bridge, with every request, reply
  and result written as a JSON frame and read back, does what the same cell does when the bound functions call
  the handler directly.
\<close>

section \<open>Values the pipe carries\<close>

text \<open>Values Python can hold: dictionaries with distinct keys, and floats that are decimal numbers.\<close>

definition regular :: "py \<Rightarrow> bool" where
  "regular v \<longleftrightarrow> wf_py v \<and> decimal_floats v"

lemma regular_simps [simp]:
  "regular PNone" "regular (PBool b)" "regular (PInt i)" "regular (PStr s)"
  "regular (PList xs) \<longleftrightarrow> (\<forall>x\<in>set xs. regular x)"
  "regular (PDict d) \<longleftrightarrow> distinct (keys d) \<and> (\<forall>p\<in>set d. regular (snd p))"
  by (auto simp: regular_def list_all_iff)

lemma regular_opt [simp]:
  "regular (opt_str s)" "regular (opt_dict d) \<longleftrightarrow> (case d of None \<Rightarrow> True | Some e \<Rightarrow> regular (PDict e))"
  by (cases s; simp) (cases d; simp add: opt_dict_def)

lemma regular_pget: "regular (PDict d) \<Longrightarrow> regular (pget d k)"
  by (auto simp: pget_def dest: map_of_SomeD split: option.split)

lemma json_text_regular: "json_text_value v \<Longrightarrow> regular v"
  by (simp add: json_text_value_def regular_def wf_json_def)

lemma regular_json: "regular v \<Longrightarrow> json_data v \<Longrightarrow> json_text_value v"
  by (simp add: json_text_value_def regular_def wf_json_def)

definition frame_text :: "dict \<Rightarrow> string" where
  "frame_text d = encode compact 0 (PDict d)"

lemma receive_frame: "sendable d \<Longrightarrow> receive_message (frame_text d) = Inr d"
  unfolding frame_text_def by (rule receive_sendable)

lemma send_frame: "sendable d \<Longrightarrow> send_message d = Inr (frame_text d)"
  unfolding frame_text_def by (rule send_sendable)

lemma send_Inr:
  assumes "send_message d = Inr frame" "regular (PDict d)"
  shows "sendable d" "frame = frame_text d"
proof -
  have j: "json_data (PDict d)" and f: "dumps compact (PDict d) = Inr frame" "length (utf8 frame) \<le> MAX_IPC_BYTES"
    using assms(1) json_compatibility_error_iff [of "PDict d"]
    by (auto simp: send_message_def ebind_eq_Inr not_less simp del: json_compatibility_error_iff json_data.simps
        split: option.split_asm if_split_asm)
  show frame: "frame = frame_text d"
    using f(1) dumps_ok [OF j, of compact] by (simp add: compact_def frame_text_def del: encode.simps)
  show "sendable d"
    using f(2) regular_json [OF assms(2) j] unfolding frame by (simp add: sendable_def frame_text_def del: encode.simps json_text_value_simps)
qed

section \<open>Calling the handler directly\<close>

type_synonym question = "int \<times> host_operation \<times> host_payload"
type_synonym answer = "dict + py"

definition settle :: "answer \<Rightarrow> worker_state \<Rightarrow> worker_state \<times> (worker_error + py)" where
  "settle answer ws = (case answer of Inr value \<Rightarrow> (ws, Inr value) | Inl err \<Rightarrow> latch_error (PDict err) ws)"

definition direct_call :: "(question, answer) bridge" where
  "direct_call on_thread operation payload ws =
     (if \<not> on_thread then Over (ws, Inl (Raised (not_cell_thread (operation_value operation))))
      else if ws_host_failure ws \<noteq> None
      then Over (ws, Inl (Raised (runtime_error ''fatal host failure is already latched'')))
      else let request_id = ws_next_id ws; ws' = ws\<lparr>ws_next_id := request_id + 1\<rparr>
        in case send_message (host_request request_id operation payload) of
             Inl e \<Rightarrow> Over (ws', Inl (Raised e))
           | Inr frame \<Rightarrow>
               (case decode_payload operation (PDict payload) of
                  Inl e \<Rightarrow> Over (ws', Inl (Raised e))
                | Inr p \<Rightarrow> Sends (request_id, operation, p) (\<lambda>answer. Over (settle answer ws'))))"

type_synonym 'h direct_handler = "host_operation \<Rightarrow> host_payload \<Rightarrow> rat \<Rightarrow> ('h, py) act"

text \<open>What the cell is answered, or the exception that ends it.\<close>

definition send_failure :: "exn \<Rightarrow> exn" where
  "send_failure e = rlm_error (''could not send IPython host response: '' @ exn_message e) ''executor_protocol''"

definition host_answer :: "rat \<Rightarrow> int \<Rightarrow> exn + py \<Rightarrow> exn + answer" where
  "host_answer limit request_id outcome =
     (case outcome of
        Inr value \<Rightarrow>
          (case send_message (value_reply (PInt request_id) value) of
             Inl e \<Rightarrow> Inl (send_failure e) | Inr frame \<Rightarrow> Inr (Inr value))
      | Inl e \<Rightarrow>
          if is_timeout e then Inl (ExecutionTimeout limit)
          else if is_host_protocol e \<or> \<not> is_exception e then Inl e
          else ebind (error_frame e) (\<lambda>err.
            case send_message (error_reply (PInt request_id) err) of
              Inl e' \<Rightarrow> Inl (send_failure e') | Inr frame \<Rightarrow> Inr (Inl err)))"

primrec run_direct_tree :: "'h direct_handler \<Rightarrow> rat \<Rightarrow> (question, answer, 'r) tree \<Rightarrow> ('h, 'r) act" where
  "run_direct_tree h limit (Over x) = ret x"
| "run_direct_tree h limit (Sends q k) = (\<lambda>s.
     case q of (request_id, operation, payload) \<Rightarrow>
       (case h operation payload limit s of
          (t, outcome) \<Rightarrow>
            (case host_answer limit request_id outcome of
               Inl e \<Rightarrow> (t, Inl e)
             | Inr answer \<Rightarrow> run_direct_tree h limit (k answer) t)))"

section \<open>The worker on the pipe mirrors the direct worker\<close>

inductive mirrors :: "('r \<Rightarrow> bool) \<Rightarrow> 'r wire \<Rightarrow> (question, answer, 'r) tree \<Rightarrow> bool" for P where
  mirrors_Over: "P x \<Longrightarrow> mirrors P (Over x) (Over x)"
| mirrors_Sends:
    "sendable (host_request i operation payload) \<Longrightarrow> decode_payload operation (PDict payload) = Inr p \<Longrightarrow>
     (\<And>v. sendable (value_reply (PInt i) v) \<Longrightarrow>
        mirrors P (k (Some (frame_text (value_reply (PInt i) v)))) (k' (Inr v))) \<Longrightarrow>
     (\<And>err. sendable (error_reply (PInt i) err) \<Longrightarrow>
        mirrors P (k (Some (frame_text (error_reply (PInt i) err)))) (k' (Inl err))) \<Longrightarrow>
     mirrors P (Sends (frame_text (host_request i operation payload)) k)
       (Sends (i, operation, p) k')"

lemma mirrors_bind:
  "mirrors P T T' \<Longrightarrow> (\<And>x. P x \<Longrightarrow> mirrors Q (f x) (g x)) \<Longrightarrow> mirrors Q (tree_bind T f) (tree_bind T' g)"
  by (induction rule: mirrors.induct) (auto intro: mirrors.intros)

lemma mirrors_mono: "mirrors P T T' \<Longrightarrow> (\<And>x. P x \<Longrightarrow> Q x) \<Longrightarrow> mirrors Q T T'"
  by (induction rule: mirrors.induct) (auto intro: mirrors.intros)

definition regular_state :: "worker_state \<Rightarrow> bool" where
  "regular_state ws \<longleftrightarrow> regular (PDict (ws_public_request ws))
     \<and> (case ws_submission ws of None \<Rightarrow> True | Some d \<Rightarrow> regular (PDict d))
     \<and> (case ws_host_failure ws of None \<Rightarrow> True | Some d \<Rightarrow> regular (PDict d))"

fun regular_error :: "worker_error \<Rightarrow> bool" where
  "regular_error (Raised e) = True"
| "regular_error (ModelOutputError m d) = regular (PDict d)"
| "regular_error (FinalSubmissionError m d) = regular (PDict d)"
| "regular_error (CellError cls m c d) = (regular c \<and> regular (opt_dict d))"

definition outcome_ok :: "('a \<Rightarrow> bool) \<Rightarrow> worker_state \<times> (worker_error + 'a) \<Rightarrow> bool" where
  "outcome_ok P x \<longleftrightarrow> regular_state (fst x)
     \<and> (case snd x of Inl e \<Rightarrow> regular_error e | Inr v \<Rightarrow> P v)"

definition agree :: "('a \<Rightarrow> bool) \<Rightarrow> (string, string option, 'a) work \<Rightarrow> (question, answer, 'a) work \<Rightarrow> bool" where
  "agree P m m' \<longleftrightarrow> (\<forall>ws. regular_state ws \<longrightarrow> mirrors (outcome_ok P) (m ws) (m' ws))"

lemma agree_work: "(\<And>e. r = Inl e \<Longrightarrow> regular_error e) \<Longrightarrow> (\<And>x. r = Inr x \<Longrightarrow> P x) \<Longrightarrow> agree P (work r) (work r)"
  by (cases r) (auto simp: agree_def work_def outcome_ok_def intro!: mirrors_Over)

lemma agree_bind:
  assumes "agree P m m'" "\<And>x. P x \<Longrightarrow> agree Q (f x) (f' x)"
  shows "agree Q (work_bind m f) (work_bind m' f')"
  unfolding agree_def work_bind_def
proof (intro allI impI)
  fix ws
  assume "regular_state ws"
  then have "mirrors (outcome_ok P) (m ws) (m' ws)" using assms(1) by (simp add: agree_def)
  then show "mirrors (outcome_ok Q)
      (tree_bind (m ws) (\<lambda>(ws', r). case r of Inl e \<Rightarrow> Over (ws', Inl e) | Inr x \<Rightarrow> f x ws'))
      (tree_bind (m' ws) (\<lambda>(ws', r). case r of Inl e \<Rightarrow> Over (ws', Inl e) | Inr x \<Rightarrow> f' x ws'))"
    by (rule mirrors_bind)
       (use assms(2) in \<open>auto simp: outcome_ok_def agree_def intro!: mirrors_Over split: sum.split\<close>)
qed

lemma regular_request: "regular (PDict payload) \<Longrightarrow> regular (PDict (host_request i op payload))"
  by (simp add: host_request_def)

text \<open>The frames of the bridge, read back.\<close>

lemma host_reply_value:
  assumes "sendable (value_reply (PInt i) v)"
  shows "host_reply i (Some (frame_text (value_reply (PInt i) v))) ws = (ws, Inr v)"
proof -
  have "message_kind (value_reply (PInt i) v) = Inr IpcHostResponse"
    unfolding value_reply_def by (rule message_kind_value)
  then show ?thesis
    by (simp only: host_reply_def option.case receive_frame [OF assms] sum.case) (simp add: value_reply_def)
qed

lemma host_reply_error:
  assumes "sendable (error_reply (PInt i) err)"
  shows "host_reply i (Some (frame_text (error_reply (PInt i) err))) ws = latch_error (PDict err) ws"
proof -
  have "message_kind (error_reply (PInt i) err) = Inr IpcHostResponse"
    unfolding error_reply_def by (rule message_kind_value)
  then show ?thesis
    by (simp only: host_reply_def option.case receive_frame [OF assms] sum.case) (simp add: error_reply_def)
qed

lemma latch_error_ok:
  assumes "regular (PDict err)" "regular_state ws"
  shows "outcome_ok P (latch_error (PDict err) ws)"
  using assms by (cases "ws_host_failure ws")
    (simp_all add: latch_error_def outcome_ok_def regular_state_def split: sum.split)

lemma agree_host_call:
  assumes payload: "regular (PDict payload)" and p: "json_data (PDict payload) \<Longrightarrow> decode_payload op (PDict payload) = Inr p"
  shows "agree regular (host_call th op payload) (direct_call th op payload)"
  unfolding agree_def
proof (intro allI impI)
  fix ws
  assume ws: "regular_state ws"
  let ?i = "ws_next_id ws" and ?ws = "ws\<lparr>ws_next_id := ws_next_id ws + 1\<rparr>"
  have ws': "regular_state ?ws" using ws by (simp add: regular_state_def)
  have stop: "mirrors (outcome_ok regular) (Over (u, Inl (Raised e))) (Over (u, Inl (Raised e)))" if "regular_state u" for u e
    using that by (intro mirrors_Over) (simp add: outcome_ok_def)
  show "mirrors (outcome_ok regular) (host_call th op payload ws) (direct_call th op payload ws)"
  proof (cases "\<not> th \<or> ws_host_failure ws \<noteq> None")
    case True
    then show ?thesis using stop [OF ws] by (auto simp: host_call_def direct_call_def)
  next
    case False
    show ?thesis
    proof (cases "send_message (host_request ?i op payload)")
      case (Inl e)
      then show ?thesis using False stop [OF ws'] by (simp add: host_call_def direct_call_def Let_def)
    next
      case (Inr frame)
      note frame = send_Inr [OF Inr regular_request [OF payload]]
      have "json_data (PDict (host_request ?i op payload))"
        using frame(1) unfolding sendable_def by (blast intro: json_text_value_data)
      then have "json_data (PDict payload)" by (simp add: host_request_def)
      then have decoded: "decode_payload op (PDict payload) = Inr p" by (rule p)
      have "mirrors (outcome_ok regular)
          (Sends (frame_text (host_request ?i op payload)) (\<lambda>incoming. Over (host_reply ?i incoming ?ws)))
          (Sends (?i, op, p) (\<lambda>answer. Over (settle answer ?ws)))"
      proof (rule mirrors_Sends [OF frame(1) decoded])
        fix v
        assume v: "sendable (value_reply (PInt ?i) v)"
        then have "json_text_value (PDict (value_reply (PInt ?i) v))" by (simp add: sendable_def)
        then have "regular v" by (auto simp: value_reply_def dest: json_text_regular)
        then show "mirrors (outcome_ok regular)
            (Over (host_reply ?i (Some (frame_text (value_reply (PInt ?i) v))) ?ws)) (Over (settle (Inr v) ?ws))"
          unfolding host_reply_value [OF v] settle_def sum.case
          using ws' by (intro mirrors_Over) (simp add: outcome_ok_def)
      next
        fix err
        assume err: "sendable (error_reply (PInt ?i) err)"
        then have "json_text_value (PDict (error_reply (PInt ?i) err))" by (simp add: sendable_def)
        then have "regular (PDict err)" by (auto simp: error_reply_def dest: json_text_regular)
        then show "mirrors (outcome_ok regular)
            (Over (host_reply ?i (Some (frame_text (error_reply (PInt ?i) err))) ?ws)) (Over (settle (Inl err) ?ws))"
          unfolding host_reply_error [OF err] settle_def sum.case
          by (intro mirrors_Over latch_error_ok ws')
      qed
      then show ?thesis
        using False Inr frame(2) by (simp add: host_call_def direct_call_def Let_def decoded)
    qed
  qed
qed

section \<open>The bound functions\<close>

lemma set_update_subset: "q \<in> set (AList.update k v d) \<Longrightarrow> q = (k, v) \<or> q \<in> set d"
  by (induction d) (auto split: if_split_asm)

lemma regular_update: "regular (PDict d) \<Longrightarrow> regular v \<Longrightarrow> regular (PDict (AList.update k v d))"
  by (auto simp: distinct_update dest: set_update_subset)

lemma text_request_regular:
  assumes "text_request req prompt system m options = Inr body" "regular (PDict req)" "regular (opt_dict options)"
  shows "regular (PDict body)"
proof -
  define chosen where "chosen = (if m = None \<or> m = Some [] then pget req ''model'' else opt_str m)"
  define start where "start = AList.update ''model'' chosen (case options of None \<Rightarrow> [] | Some d \<Rightarrow> d)"
  have "regular chosen" using regular_pget [OF assms(2)] by (simp add: chosen_def)
  then have "regular (PDict start)"
    unfolding start_def using assms(3) by (intro regular_update) (auto split: option.split_asm)
  then have "regular (PDict (AList.update ''input'' (PStr prompt)
      (case system of None \<Rightarrow> start | Some s \<Rightarrow> AList.update ''instructions'' (PStr s) start)))"
    by (intro regular_update) (auto simp del: regular_simps(6) intro: regular_update split: option.split)
  moreover have "text_request req prompt system m options =
      (if \<not> truthy chosen then Inl (Raised (value_error ''ask requires a model''))
       else Inr (AList.update ''input'' (PStr prompt)
              (case system of None \<Rightarrow> start | Some s \<Rightarrow> AList.update ''instructions'' (PStr s) start)))"
    by (simp only: text_request_def Let_def chosen_def start_def)
  ultimately show ?thesis
    using assms(1) by (simp del: regular_simps(6) split: if_split_asm)
qed

lemma text_request_error: "text_request req prompt system m options = Inl e \<Longrightarrow> regular_error e"
  by (auto simp: text_request_def Let_def split: if_split_asm)

lemma agree_request:
  assumes "op = ModelComplete \<or> op = RlmComplete" "regular (opt_dict r)"
  shows "agree regular (host_call th op [(''request'', opt_dict r)]) (direct_call th op [(''request'', opt_dict r)])"
  by (rule agree_host_call [where p = "RequestPayload r"])
     (use assms decode_payload_value [of op "RequestPayload r"] in \<open>auto simp: payload_fits_def is_batch_def\<close>)

lemma agree_requests:
  assumes "op = ModelCompleteBatch \<or> op = RlmCompleteBatch" "\<forall>d\<in>set ds. regular (PDict d)"
  shows "agree regular (host_call th op [(''requests'', PList (map PDict ds))])
    (direct_call th op [(''requests'', PList (map PDict ds))])"
  by (rule agree_host_call [where p = "BatchPayload ds"])
     (use assms decode_payload_value [of op "BatchPayload ds"] in \<open>auto simp: payload_fits_def is_batch_def\<close>)

abbreviation regular_dict :: "dict \<Rightarrow> bool" where
  "regular_dict d \<equiv> regular (PDict d)"

abbreviation regular_dicts :: "dict list \<Rightarrow> bool" where
  "regular_dicts ds \<equiv> \<forall>d\<in>set ds. regular (PDict d)"

lemma agree_model_complete:
  "regular (opt_dict r) \<Longrightarrow> agree regular_dict (model_complete host_call th r) (model_complete direct_call th r)"
  unfolding model_complete_def
  by (rule agree_bind [OF agree_request], simp_all del: regular_simps(6) regular_opt)
     (rule agree_work, auto simp del: regular_simps(6) split: option.split_asm)

lemma agree_rlm_complete:
  assumes "regular (opt_dict r)"
  shows "agree regular_dict (rlm_complete host_call rec th r) (rlm_complete direct_call rec th r)"
proof (cases rec)
  case True
  then show ?thesis
    unfolding rlm_complete_def
    by (simp del: regular_simps(6))
       (rule agree_bind [OF agree_request [OF _ assms]], simp,
        rule agree_work, auto simp del: regular_simps(6) split: option.split_asm)
qed (auto simp: rlm_complete_def intro!: agree_work)

lemma batch_bodies_Inr: "batch_bodies i vs = Inr bodies \<Longrightarrow> \<exists>ds. vs = map PDict ds \<and> bodies = map PDict ds"
proof (induction vs arbitrary: i bodies)
  case (Cons v vs)
  then obtain d rest where v: "v = PDict d" "batch_bodies (i + 1) vs = Inr rest" "bodies = PDict d # rest"
    by (auto simp: ebind_eq_Inr split: option.split_asm)
  then obtain ds where "vs = map PDict ds" "rest = map PDict ds" using Cons.IH by blast
  then show ?case using v by (intro exI [of _ "d # ds"]) simp
qed simp

lemma batch_bodies_Inl: "batch_bodies i vs = Inl e \<Longrightarrow> regular_error e"
  by (induction vs arbitrary: i) (auto simp: ebind_eq_Inl split: option.split_asm)

lemma object_list_Inr: "object_list name value = Inr ds \<Longrightarrow> value = PList (map PDict ds)"
proof -
  have "xs = map PDict (map (\<lambda>v. the (as_dict v)) xs)" if "list_all is_dict xs" for xs
    using that by (induction xs) (auto simp: is_dict_iff)
  then show "object_list name value = Inr ds \<Longrightarrow> value = PList (map PDict ds)"
    by (cases "value") (auto simp: object_list_def simp del: map_map split: if_split_asm)
qed

lemma object_list_Inl: "object_list name value = Inl e \<Longrightarrow> regular_error e"
  by (cases "value") (auto simp: object_list_def split: if_split_asm)

lemma agree_object_list: "regular value \<Longrightarrow> agree regular_dicts (work (object_list name value)) (work (object_list name value))"
  by (rule agree_work) (auto dest!: object_list_Inr dest: object_list_Inl simp del: regular_simps(6))

lemma agree_model_complete_batch:
  assumes "\<forall>v\<in>set rs. regular v"
  shows "agree regular_dicts (model_complete_batch host_call th rs) (model_complete_batch direct_call th rs)"
  unfolding model_complete_batch_def
proof (rule agree_bind)
  show "agree (\<lambda>bodies. \<exists>ds. regular_dicts ds \<and> bodies = map PDict ds) (work (batch_bodies 0 rs)) (work (batch_bodies 0 rs))"
  proof (rule agree_work)
    fix bodies
    assume "batch_bodies 0 rs = Inr bodies"
    then obtain ds where "rs = map PDict ds" "bodies = map PDict ds" using batch_bodies_Inr by blast
    then show "\<exists>ds. regular_dicts ds \<and> bodies = map PDict ds" using assms by (intro exI [of _ ds]) simp
  qed (rule batch_bodies_Inl)
next
  fix bodies
  assume "\<exists>ds. regular_dicts ds \<and> bodies = map PDict ds"
  then obtain ds where "regular_dicts ds" "bodies = map PDict ds" by blast
  then show "agree regular_dicts
      (work_bind (host_call th ModelCompleteBatch [(''requests'', PList bodies)]) (\<lambda>value. work (object_list ''model_complete_batch'' value)))
      (work_bind (direct_call th ModelCompleteBatch [(''requests'', PList bodies)]) (\<lambda>value. work (object_list ''model_complete_batch'' value)))"
    by (auto intro!: agree_bind [OF agree_requests] agree_object_list simp del: regular_simps(6))
qed

lemma agree_rlm_complete_batch:
  assumes "regular_dicts ds"
  shows "agree regular_dicts (rlm_complete_batch host_call rec th ds) (rlm_complete_batch direct_call rec th ds)"
proof (cases rec)
  case True
  then show ?thesis
    unfolding rlm_complete_batch_def
    using assms by (auto intro!: agree_bind [OF agree_requests] agree_object_list simp del: regular_simps(6))
qed (auto simp: rlm_complete_batch_def intro!: agree_work)

lemma failure_summary_regular: "regular_dict r \<Longrightarrow> regular_dict (failure_summary (worker_text_failure i r))"
  using regular_pget [of r] by (simp add: failure_summary_def worker_text_failure_def del: regular_simps(6))
    (simp add: regular_pget)

lemma agree_ask:
  assumes "regular (opt_dict options)"
  shows "agree (\<lambda>_. True) (ask host_call th prompt system m options) (ask direct_call th prompt system m options)"
  unfolding agree_def
proof (intro allI impI)
  fix ws
  assume ws: "regular_state ws"
  then have request: "regular_dict (ws_public_request ws)" by (simp add: regular_state_def)
  let ?rest = "\<lambda>hc body. work_bind (model_complete hc th (Some body)) (\<lambda>response.
       work (if usable_text response then Inr (response_output_text response)
             else Inl (ModelOutputError ''ask returned no usable text''
                    [(''failures'', PList [PDict (failure_summary (worker_text_failure 0 response))])])))"
  have "agree (\<lambda>_. True) (?rest host_call body) (?rest direct_call body)" if "regular_dict body" for body
  proof (rule agree_bind [OF agree_model_complete])
    show "agree (\<lambda>_. True) (work (if usable_text response then Inr (response_output_text response)
             else Inl (ModelOutputError ''ask returned no usable text''
                    [(''failures'', PList [PDict (failure_summary (worker_text_failure 0 response))])])))
        (work (if usable_text response then Inr (response_output_text response)
             else Inl (ModelOutputError ''ask returned no usable text''
                    [(''failures'', PList [PDict (failure_summary (worker_text_failure 0 response))])])))"
      if "regular_dict response" for response
      using failure_summary_regular [OF that] by (intro agree_work) (auto split: if_split_asm)
  qed (use that in simp)
  then have "agree (\<lambda>_. True)
      (work_bind (work (text_request (ws_public_request ws) prompt system m options)) (?rest host_call))
      (work_bind (work (text_request (ws_public_request ws) prompt system m options)) (?rest direct_call))"
    by (rule agree_bind [where P = regular_dict, rotated])
       (assumption, rule agree_work, erule text_request_error, erule text_request_regular [OF _ request assms])
  then show "mirrors (outcome_ok (\<lambda>_. True)) (ask host_call th prompt system m options ws) (ask direct_call th prompt system m options ws)"
    using ws unfolding ask_def agree_def by blast
qed

lemma batch_failures_regular:
  "regular_dicts responses \<Longrightarrow> f \<in> set (batch_failures i responses) \<Longrightarrow> regular_dict (failure_summary f)"
  by (induction responses arbitrary: i)
     (auto simp del: regular_simps(6) intro: failure_summary_regular split: if_split_asm)

lemma agree_ask_batch:
  assumes "regular (opt_dict options)"
  shows "agree (\<lambda>b. regular_dicts (ab_responses b))
    (ask_batch host_call th prompts system m options) (ask_batch direct_call th prompts system m options)"
  unfolding agree_def
proof (intro allI impI)
  fix ws
  assume ws: "regular_state ws"
  then have request: "regular_dict (ws_public_request ws)" by (simp add: regular_state_def)
  let ?P = "\<lambda>b. regular_dicts (ab_responses b)"
  let ?make = "\<lambda>requests responses. if length responses \<noteq> length (requests :: dict list)
       then work (Inl (Raised (runtime_error ''model_complete_batch returned the wrong number of responses'')))
       else work (case mk_ask_batch_result
               \<lparr>ab_texts = batch_texts responses, ab_responses = responses,
                ab_failures = batch_failures 0 responses\<rparr> of
             Inl e \<Rightarrow> Inl (Raised e) | Inr b \<Rightarrow> Inr b)"
  let ?rest = "\<lambda>hc requests. work_bind (model_complete_batch hc th (map PDict requests)) (?make requests)"
  have make: "agree ?P (?make requests responses) (?make requests responses)" if "regular_dicts responses" for requests responses
    using that
    by (cases "length responses \<noteq> length requests")
       (auto intro!: agree_work simp: mk_ask_batch_iff simp del: regular_simps(6) split: sum.split_asm)
  have "agree ?P (?rest host_call requests) (?rest direct_call requests)" if "regular_dicts requests" for requests
    by (rule agree_bind [OF agree_model_complete_batch]) (use that make in \<open>auto simp del: regular_simps(6)\<close>)
  then have "agree ?P
      (work_bind (work (emap (\<lambda>p. text_request (ws_public_request ws) p system m options) prompts)) (?rest host_call))
      (work_bind (work (emap (\<lambda>p. text_request (ws_public_request ws) p system m options) prompts)) (?rest direct_call))"
  proof (rule agree_bind [where P = regular_dicts, rotated])
    show "agree regular_dicts
        (work (emap (\<lambda>p. text_request (ws_public_request ws) p system m options) prompts))
        (work (emap (\<lambda>p. text_request (ws_public_request ws) p system m options) prompts))"
    proof (rule agree_work)
      fix e
      assume "emap (\<lambda>p. text_request (ws_public_request ws) p system m options) prompts = Inl e"
      then show "regular_error e"
        by (induction prompts) (auto simp: ebind_eq_Inl dest: text_request_error)
    next
      fix requests
      assume "emap (\<lambda>p. text_request (ws_public_request ws) p system m options) prompts = Inr requests"
      then show "regular_dicts requests"
        using text_request_regular [OF _ request assms] by (auto dest: emap_set simp del: regular_simps(6))
    qed
  qed
  then show "mirrors (outcome_ok ?P) (ask_batch host_call th prompts system m options ws) (ask_batch direct_call th prompts system m options ws)"
    using ws unfolding ask_batch_def agree_def by blast
qed

lemma agree_submit:
  assumes "\<And>e. r = Inl e \<Longrightarrow> regular_error e" "\<And>d. r = Inr d \<Longrightarrow> regular_dict d"
  shows "agree (\<lambda>_. True) (submit name th r) (submit name th r)"
  unfolding agree_def
proof (intro allI impI)
  fix ws
  assume "regular_state ws"
  then show "mirrors (outcome_ok (\<lambda>_. True)) (submit name th r ws) (submit name th r ws)"
    using assms by (cases r)
      (auto simp: submit_def outcome_ok_def regular_state_def simp del: regular_simps(6) intro!: mirrors_Over,
       auto)
qed

fun regular_call :: "api_call \<Rightarrow> bool" where
  "regular_call (CallModelComplete r) = regular (opt_dict r)"
| "regular_call (CallModelCompleteBatch rs) = (\<forall>v\<in>set rs. regular v)"
| "regular_call (CallAsk p s m options) = regular (opt_dict options)"
| "regular_call (CallAskBatch ps s m options) = regular (opt_dict options)"
| "regular_call (CallRlmComplete r) = regular (opt_dict r)"
| "regular_call (CallRlmCompleteBatch ds) = regular_dicts ds"
| "regular_call (CallFinalResponse v) = regular v"
| "regular_call (CallFinalText v) = regular v"

fun regular_value :: "api_value \<Rightarrow> bool" where
  "regular_value (ApiValue v) = regular v"
| "regular_value (ApiBatch b) = regular_dicts (ab_responses b)"

lemma agree_map:
  "agree P m m' \<Longrightarrow> (\<And>x. P x \<Longrightarrow> Q (f x)) \<Longrightarrow> agree Q (work_map f m) (work_map f m')"
  unfolding work_map_def by (rule agree_bind, assumption) (auto intro!: agree_work)

lemma agree_api: "regular_call call \<Longrightarrow> agree regular_value (api host_call rec th call) (api direct_call rec th call)"
proof (cases call)
  case (CallFinalResponse v)
  assume "regular_call call"
  then show ?thesis
    unfolding CallFinalResponse api.simps FINAL_RESPONSE_def
    by (intro agree_map [OF agree_submit]) (auto split: option.split_asm)
next
  case (CallFinalText v)
  assume "regular_call call"
  then show ?thesis
    unfolding CallFinalText api.simps FINAL_TEXT_def
    by (intro agree_map [OF agree_submit]) (auto split: option.split_asm)
qed (auto simp: objects_def simp del: regular_simps(6) regular_opt
     intro!: agree_map [OF agree_model_complete] agree_map [OF agree_model_complete_batch] agree_map [OF agree_ask]
       agree_map [OF agree_ask_batch] agree_map [OF agree_rlm_complete] agree_map [OF agree_rlm_complete_batch])

section \<open>Cells\<close>

primrec regular_code :: "cell_code \<Rightarrow> bool" where
  "regular_code (CellEnd err ns) =
     ((case err of None \<Rightarrow> True | Some (e, tb) \<Rightarrow> regular_error e) \<and> distinct (map fst ns))"
| "regular_code (CellWrite ch s p) = regular_code p"
| "regular_code (CellDisplay shown p) = regular_code p"
| "regular_code (CellUse th call k) =
     (regular_call call
      \<and> (\<forall>r. (case r of Inl e \<Rightarrow> regular_error e | Inr v \<Rightarrow> regular_value v) \<longrightarrow> regular_code (k r)))"

definition regular_outcome :: "cell_outcome \<Rightarrow> bool" where
  "regular_outcome co \<longleftrightarrow> regular_state (co_state co) \<and> distinct (map fst (co_namespace co))
     \<and> (case co_error co of None \<Rightarrow> True | Some (e, tb) \<Rightarrow> regular_error e)"

lemma run_code_mirrors:
  "regular_code p \<Longrightarrow> regular_state ws \<Longrightarrow>
   mirrors regular_outcome (run_code host_call rec p c ws) (run_code direct_call rec p c ws)"
proof (induction p arbitrary: c ws)
  case (CellEnd err ns)
  then show ?case by (auto simp: regular_outcome_def intro!: mirrors_Over)
next
  case (CellUse th call k)
  have "mirrors (outcome_ok regular_value) (api host_call rec th call ws) (api direct_call rec th call ws)"
    using agree_api CellUse.prems by (simp add: agree_def)
  then show ?case
    unfolding run_code.simps
    by (rule mirrors_bind) (use CellUse in \<open>auto simp: outcome_ok_def\<close>)
qed simp_all

lemma execution_frame_regular:
  assumes "regular_outcome co" "decimal_float duration"
  shows "regular_dict (execution_frame ignored duration co)"
proof -
  have "map fst (SHOW_VARS ignored ns) = map fst (filter (\<lambda>p. \<not> startswith (fst p) ''_'' \<and> fst p \<notin> set ignored) (sort_key fst ns))"
    for ns by (simp add: SHOW_VARS_def)
  moreover have "distinct (map fst (sort_key fst ns))" if "distinct (map fst ns)" for ns :: "(string \<times> variable) list"
    using that by (simp add: distinct_map)
  ultimately have ns: "distinct (keys (SHOW_VARS ignored (co_namespace co)))"
    using assms(1) by (simp add: regular_outcome_def distinct_map_filter)
  have "regular (exception_frame co)"
  proof (cases "co_error co")
    case (Some x)
    then obtain e tb where x: "co_error co = Some (e, tb)" "regular_error e"
      using assms(1) by (cases x) (auto simp: regular_outcome_def)
    then show ?thesis by (cases e) (auto simp: exception_frame_def)
  qed (simp add: exception_frame_def)
  moreover have "\<forall>p\<in>set (SHOW_VARS ignored ns). regular (snd p)" for ns
    by (auto simp: SHOW_VARS_def)
  moreover have "regular (PFloat (Fin duration))" using assms(2) by (simp add: regular_def)
  ultimately show ?thesis
    using assms(1) ns
    by (auto simp: execution_frame_def frame_submission_def regular_outcome_def regular_state_def truncation_to_dict_def
        split: option.split)
qed

text \<open>
  An exception of the cell's own whose \<open>code\<close> is an integer, such as \<open>SystemExit\<close> or an HTTP error, is framed
  with that code, which the host then refuses as a breach of the protocol: the cell's fault ends the run.
\<close>

lemma foreign_code_fatal:
  assumes "co_error co = Some (CellError cls m (PInt i) d, tb)"
  shows "decode_result (execution_frame ignored duration co) =
    Inl (HostProtocol ''execution exception code must be text or null'')"
proof -
  have "exception_frame co = PDict [(''type'', PStr cls), (''message'', PStr m),
      (''fault_kind'', PStr (execution_fault_kind_value (execution_fault_kind (CellError cls m (PInt i) d)))),
      (''code'', PInt i), (''traceback'', PStr (captured ChTraceback (capture_traceback co))), (''details'', opt_dict d)]"
    by (simp add: exception_frame_def assms)
  moreover have "\<exists>k. enum_of ''ExecutionFaultKind'' fault_kinds
      (PStr (execution_fault_kind_value (execution_fault_kind (CellError cls m (PInt i) d)))) = Inr k"
    by (cases "execution_fault_kind (CellError cls m (PInt i) d)") (auto simp: enum_of_def fault_kinds_def)
  ultimately show ?thesis
    by (auto simp: decode_result_def execution_frame_def result_fields_def decode_exception_def exception_fields_def
        text_or_none_def)
qed

section \<open>The two ends joined\<close>

text \<open>
  A process that is the modelled worker: what is received is the frame the worker sends next, and what is sent
  is the frame it goes on with.  Time stands still, so only the handler decides about time limits.
\<close>

record 'h pipe =
  pp_worker :: "worker_outcome wire"
  pp_next :: "string option \<Rightarrow> worker_outcome wire"
  pp_now :: rat
  pp_host :: 'h

definition pipe_recv :: "worker \<Rightarrow> (string \<Rightarrow> cell_code) \<Rightarrow> rat \<Rightarrow> 'h pipe \<Rightarrow> (exn + string) \<times> 'h pipe" where
  "pipe_recv wk ipython duration w =
     (case pp_worker w of
        Sends frame k \<Rightarrow> (Inr frame, w\<lparr>pp_next := k\<rparr>)
      | Over (Waits ws frame) \<Rightarrow> (Inr frame, w\<lparr>pp_next := worker_command wk ipython duration ws\<rparr>)
      | Over (Exits (Some frame)) \<Rightarrow> (Inr frame, w\<lparr>pp_worker := Over (Exits None)\<rparr>)
      | Over _ \<Rightarrow> (Inl (PyExc ''EOFError'' []), w))"

definition linked :: "worker \<Rightarrow> (string \<Rightarrow> cell_code) \<Rightarrow> rat \<Rightarrow> 'h pipe process" where
  "linked wk ipython duration =
     \<lparr>px_posix = True, px_clock = (\<lambda>w. (pp_now w, w)), px_start = (\<lambda>w. (Inr (), w)),
      px_is_alive = (\<lambda>w. (Inr True, w)), px_pid = (\<lambda>w. Some 7), px_exitcode = (\<lambda>w. (Inr PNone, w)),
      px_join = (\<lambda>r w. (Inr (), w)), px_terminate = (\<lambda>w. (Inr (), w)), px_kill = (\<lambda>w. (Inr (), w)),
      px_close = (\<lambda>w. (Inr (), w)), px_getpgid = (\<lambda>g w. (Inr g, w)), px_killpg = (\<lambda>g sig w. (Inr (), w)),
      px_poll = (\<lambda>r w. (Inr True, w)), px_send = (\<lambda>m w. (Inr (), w\<lparr>pp_worker := pp_next w (Some m)\<rparr>)),
      px_recv = pipe_recv wk ipython duration,
      px_child_close = (\<lambda>w. (Inr (), w)), px_parent_close = (\<lambda>w. (Inr (), w)), px_cleanup = None\<rparr>"

definition on_host :: "'h direct_handler \<Rightarrow> 'h pipe action_handler" where
  "on_host h operation payload remaining s =
     (case h operation payload remaining (pp_host (xs_world s)) of
        (x, outcome) \<Rightarrow> (s\<lparr>xs_world := (xs_world s)\<lparr>pp_host := x\<rparr>\<rparr>, outcome))"

text \<open>What the host makes of the end of the cell.\<close>

definition host_result :: "string list \<Rightarrow> rat \<Rightarrow> exn + cell_outcome \<Rightarrow> exn + raw_execution" where
  "host_result ignored duration r =
     (case r of
        Inl e \<Rightarrow> Inl e
      | Inr co \<Rightarrow>
          (case send_message (execution_frame ignored duration co) of
             Inl e \<Rightarrow> Inl (rlm_error ''IPython exited unexpectedly with code None'' ''executor_exit'')
           | Inr frame \<Rightarrow> decode_result (execution_frame ignored duration co)))"

definition regular_reply :: "exn + py \<Rightarrow> bool" where
  "regular_reply r \<longleftrightarrow> (case r of Inr v \<Rightarrow> regular v
     | Inl e \<Rightarrow> (case error_frame e of Inr err \<Rightarrow> regular_dict err | Inl e' \<Rightarrow> True))"

definition reply_frame :: "int \<Rightarrow> answer \<Rightarrow> dict" where
  "reply_frame i answer = (case answer of Inr v \<Rightarrow> value_reply (PInt i) v | Inl err \<Rightarrow> error_reply (PInt i) err)"

lemma host_answer_sendable:
  assumes "host_answer limit i r = Inr answer" "regular_reply r"
  shows "sendable (reply_frame i answer)"
proof (cases r)
  case (Inr v)
  then have "regular_dict (value_reply (PInt i) v)" using assms(2) by (simp add: regular_reply_def value_reply_def)
  then show ?thesis
    using assms(1) Inr by (auto simp: host_answer_def reply_frame_def split: sum.split_asm dest: send_Inr(1))
next
  case (Inl e)
  then obtain err where err: "error_frame e = Inr err"
    using assms(1) by (auto simp: host_answer_def ebind_eq_Inr split: if_split_asm)
  then have answer: "answer = Inl err" "is_ok (send_message (error_reply (PInt i) err))"
    using assms(1) Inl
    by (cases "send_message (error_reply (PInt i) err)"; auto simp: host_answer_def split: if_split_asm)+
  have "regular_dict (error_reply (PInt i) err)"
    using assms(2) Inl err by (simp add: regular_reply_def error_reply_def)
  then show ?thesis using answer by (auto simp: reply_frame_def is_ok_iff dest: send_Inr(1))
qed

lemma send_message_Inl: "send_message d = Inl e \<Longrightarrow> is_os_error e \<or> exn_class e = ''TypeError''"
  by (auto simp: send_message_def dumps_def strict_json_dumps_def ebind_eq_Inl is_os_error_def
      split: option.split_asm sum.split_asm if_split_asm)

text \<open>One message of the worker, and one request served.\<close>

lemma await_linked:
  assumes "pp_now w < deadline" "sendable d" "pipe_recv wk ipython duration w = (Inr (frame_text d), w')"
  shows "await_message (linked wk ipython duration) limit deadline (s\<lparr>xs_world := w\<rparr>) = (s\<lparr>xs_world := w'\<rparr>, Inr d)"
  using assms(1,3)
  by (simp add: await_message_def px_now_def px_def andthen_def linked_def except_def catch_def receive_def
      lift_def receive_frame [OF assms(2)])

lemma transmit_linked:
  "transmit (linked wk ipython duration) d (s\<lparr>xs_world := w\<rparr>) =
     (case send_message d of Inl e \<Rightarrow> (s\<lparr>xs_world := w\<rparr>, Inl e)
      | Inr frame \<Rightarrow> (s\<lparr>xs_world := w\<lparr>pp_worker := pp_next w (Some frame)\<rparr>\<rparr>, Inr ()))"
  by (simp add: transmit_def andthen_def lift_def px_def linked_def split: sum.split)

lemma answer_linked:
  assumes "decode_payload op (PDict payload) = Inr p" "0 < limit" "deadline = pp_now w + limit"
    and h: "h op p limit (pp_host w) = (x, outcome)"
  shows "answer_request (linked wk ipython duration) (on_host h) limit deadline (host_request i op payload)
      (s\<lparr>xs_world := w\<rparr>) = (s\<lparr>xs_world := w\<lparr>pp_host := x\<rparr>\<rparr>, outcome)"
  using assms
  by (cases outcome)
     (simp_all add: answer_request_def host_request_def andthen_def lift_def px_now_def px_def linked_def on_host_def ret_def)

lemma serve_linked:
  assumes "decode_payload op (PDict payload) = Inr p" "0 < limit" "deadline = pp_now w + limit"
    and h: "h op p limit (pp_host w) = (x, outcome)" and reg: "regular_reply outcome"
  shows "case host_answer limit i outcome of
      Inl e \<Rightarrow> snd (serve_request (linked wk ipython duration) (on_host h) limit deadline (host_request i op payload)
                 (s\<lparr>xs_world := w\<rparr>)) = Inl e
    | Inr answer \<Rightarrow> serve_request (linked wk ipython duration) (on_host h) limit deadline (host_request i op payload)
        (s\<lparr>xs_world := w\<rparr>) =
          (s\<lparr>xs_world := w\<lparr>pp_host := x, pp_worker := pp_next w (Some (frame_text (reply_frame i answer)))\<rparr>\<rparr>, Inr ())"
proof -
  let ?q = "host_request i op payload"
  have keys: "fst ` set ?q = {''type'', ''request_id'', ''operation'', ''payload''}" "pget ?q ''request_id'' = PInt i"
    by (simp_all add: host_request_def)
  note answer = answer_linked [where wk = wk and ipython = ipython and duration = duration and h = h and i = i and s = s, OF assms(1-4)]
  note run = serve_request_def keys Let_def andthen_def catch_def answer ret_def raise_def lift_def except_def
    transmit_linked host_answer_def raise_after_forced_close_def
  show ?thesis
  proof (cases outcome)
    case (Inr v)
    show ?thesis
    proof (cases "send_message (value_reply (PInt i) v)")
      case (Inl e)
      then show ?thesis using send_message_Inl [OF Inl] by (simp add: run Inr send_failure_def)
    next
      case sent: (Inr frame)
      have "sendable (reply_frame i (Inr v))"
        using host_answer_sendable [of limit i outcome "Inr v", OF _ reg] by (simp add: host_answer_def Inr sent)
      then show ?thesis
        using sent send_frame [of "value_reply (PInt i) v"] by (simp add: run Inr reply_frame_def)
    qed
  next
    case (Inl e)
    show ?thesis
    proof (cases "is_timeout e \<or> is_host_protocol e \<or> \<not> is_exception e")
      case True
      then show ?thesis by (auto simp: run Inl)
    next
      case ordinary: False
      show ?thesis
      proof (cases "error_frame e")
        case failed: (Inl e')
        then show ?thesis using ordinary by (simp add: run Inl)
      next
        case err: (Inr err)
        show ?thesis
        proof (cases "send_message (error_reply (PInt i) err)")
          case unsent: (Inl e')
          then show ?thesis using ordinary err send_message_Inl [OF unsent] by (simp add: run Inl send_failure_def)
        next
          case sent: (Inr frame)
          have "sendable (reply_frame i (Inl err))"
            using host_answer_sendable [of limit i outcome "Inl err", OF _ reg] ordinary
            by (simp add: host_answer_def Inl err sent)
          then show ?thesis
            using ordinary err sent send_frame [of "error_reply (PInt i) err"] by (simp add: run Inl reply_frame_def)
        qed
      qed
    qed
  qed
qed

section \<open>The whole cell\<close>

text \<open>The worker of a cell: what it sends after the code has run.\<close>

definition finish_cell :: "worker \<Rightarrow> rat \<Rightarrow> cell_outcome \<Rightarrow> worker_outcome wire" where
  "finish_cell wk duration co =
     Over (worker_sends (co_state co) (execution_frame (wk_ignored wk) duration co))"

text \<open>The host's loop ends in \<open>r\<close>, with the handler's state \<open>x\<close> when it returns.\<close>

definition serves :: "nat \<Rightarrow> 'h pipe process \<Rightarrow> 'h pipe action_handler \<Rightarrow> rat \<Rightarrow> rat \<Rightarrow> 'h pipe executor_state
    \<Rightarrow> 'h \<Rightarrow> exn + raw_execution \<Rightarrow> bool" where
  "serves fuel p handler limit deadline s x r \<longleftrightarrow>
     (case serve_cell fuel p handler limit deadline s of
        (t, out) \<Rightarrow> out = map_sum id Some r \<and> (is_ok r \<longrightarrow> pp_host (xs_world t) = x))"

lemma handle_request_linked:
  "handle_message p handler limit deadline (host_request i op payload) s =
     andthen (serve_request p handler limit deadline (host_request i op payload)) (\<lambda>_. ret None) s"
proof -
  have "message_kind (host_request i op payload) = Inr IpcHostRequest"
    unfolding host_request_def by (rule message_kind_value)
  then show ?thesis by (simp add: handle_message_def)
qed

lemma serves_result:
  assumes frame: "send_message (execution_frame (wk_ignored wk) duration co) = Inr frame"
    and co: "regular_outcome co" "decimal_float duration" and time: "pp_now w < deadline"
    and w: "pp_worker w = finish_cell wk duration co" "pp_host w = x"
  shows "serves (Suc fuel) (linked wk ipython duration) handler limit deadline (s\<lparr>xs_world := w\<rparr>) x
    (decode_result (execution_frame (wk_ignored wk) duration co))"
proof -
  let ?L = "linked wk ipython duration" and ?d = "execution_frame (wk_ignored wk) duration co"
  note frame' = send_Inr [OF frame execution_frame_regular [OF co]]
  let ?w = "w\<lparr>pp_next := worker_command wk ipython duration (co_state co)\<rparr>"
  have "pipe_recv wk ipython duration w = (Inr (frame_text ?d), ?w)"
    using frame frame'(2) by (simp add: pipe_recv_def w finish_cell_def worker_sends_def)
  note await = await_linked [OF time frame'(1) this, of limit s]
  have kind: "message_kind ?d = Inr IpcExecutionResult"
    unfolding execution_frame_def by (rule message_kind_value)
  show ?thesis
  proof (cases "decode_result ?d")
    case (Inl e)
    then have "is_host_protocol e" using decode_result_refuses unfolding refuses_def by blast
    then show ?thesis
      by (simp add: serves_def andthen_def await handle_message_def kind Inl raise_after_forced_close_def)
  next
    case (Inr raw)
    show ?thesis
      by (simp add: serves_def andthen_def await handle_message_def kind Inr ret_def w)
  qed
qed

lemma serves_death:
  assumes "send_message (execution_frame (wk_ignored wk) duration co) = Inl e" and time: "pp_now w < deadline"
    and w: "pp_worker w = finish_cell wk duration co"
  shows "serves (Suc fuel) (linked wk ipython duration) handler limit deadline (s\<lparr>xs_world := w\<rparr>) x
    (Inl (rlm_error ''IPython exited unexpectedly with code None'' ''executor_exit''))"
proof -
  have "pipe_recv wk ipython duration w = (Inl (PyExc ''EOFError'' []), w)"
    using assms(1) by (simp add: pipe_recv_def w finish_cell_def worker_sends_def)
  then show ?thesis
    using time by (simp add: serves_def andthen_def await_message_def px_now_def px_def linked_def except_def catch_def
        receive_def is_eof_error_def ret_def raise_after_forced_close_def)
qed

lemma serves_step:
  assumes q: "sendable (host_request i op payload)" and p: "decode_payload op (PDict payload) = Inr p"
    and time: "0 < limit" "deadline = pp_now w + limit"
    and w: "pp_worker w = Sends (frame_text (host_request i op payload)) k"
    and h: "h op p limit (pp_host w) = (y, outcome)" and reg: "regular_reply outcome"
  shows "case host_answer limit i outcome of
      Inl e \<Rightarrow> serves (Suc fuel) (linked wk ipython duration) (on_host h) limit deadline (s\<lparr>xs_world := w\<rparr>) x (Inl e)
    | Inr answer \<Rightarrow> serves fuel (linked wk ipython duration) (on_host h) limit deadline
        (s\<lparr>xs_world := w\<lparr>pp_next := k, pp_host := y, pp_worker := k (Some (frame_text (reply_frame i answer)))\<rparr>\<rparr>) x r
        \<longrightarrow> serves (Suc fuel) (linked wk ipython duration) (on_host h) limit deadline (s\<lparr>xs_world := w\<rparr>) x r"
proof -
  let ?L = "linked wk ipython duration" and ?w = "w\<lparr>pp_next := k\<rparr>"
  have "pipe_recv wk ipython duration w = (Inr (frame_text (host_request i op payload)), ?w)"
    by (simp add: pipe_recv_def w)
  moreover have "pp_now w < deadline" using time by simp
  ultimately have await: "await_message ?L limit deadline (s\<lparr>xs_world := w\<rparr>) = (s\<lparr>xs_world := ?w\<rparr>, Inr (host_request i op payload))"
    using await_linked q by blast
  have "deadline = pp_now ?w + limit" "h op p limit (pp_host ?w) = (y, outcome)" using time h by simp_all
  note serve = serve_linked [where i = i and h = h and w = ?w and s = s and wk = wk and ipython = ipython and duration = duration,
      OF p time(1) this reg]
  obtain t r' where run: "serve_request ?L (on_host h) limit deadline (host_request i op payload) (s\<lparr>xs_world := ?w\<rparr>) = (t, r')"
    by (cases "serve_request ?L (on_host h) limit deadline (host_request i op payload) (s\<lparr>xs_world := ?w\<rparr>)")
  show ?thesis
    using serve
    by (auto simp: serves_def andthen_def await handle_request_linked run ret_def split: sum.split sum.split_asm)
qed

lemma serves_mirrors:
  assumes "mirrors regular_outcome T T'" and handler: "\<And>op p r x. regular_reply (snd (h op p r x))"
    and "0 < limit" "decimal_float duration"
  shows "pp_worker w = tree_bind T (finish_cell wk duration) \<Longrightarrow> deadline = pp_now w + limit \<Longrightarrow>
    run_direct_tree h limit T' (pp_host w) = (x, r) \<Longrightarrow>
    \<exists>n. \<forall>fuel\<ge>n. serves fuel (linked wk ipython duration) (on_host h) limit deadline (s\<lparr>xs_world := w\<rparr>) x
      (host_result (wk_ignored wk) duration r)"
  using assms(1)
proof (induction arbitrary: w rule: mirrors.induct)
  case (mirrors_Over co)
  then have r: "r = Inr co" "x = pp_host w" and w: "pp_worker w = finish_cell wk duration co" and time: "pp_now w < deadline"
    using assms(3) by (simp_all add: ret_def)
  show ?case
  proof (intro exI [of _ 1] allI impI)
    fix fuel :: nat
    assume "1 \<le> fuel"
    then obtain m where m: "fuel = Suc m" by (cases fuel) auto
    show "serves fuel (linked wk ipython duration) (on_host h) limit deadline (s\<lparr>xs_world := w\<rparr>) x
      (host_result (wk_ignored wk) duration r)"
    proof (cases "send_message (execution_frame (wk_ignored wk) duration co)")
      case (Inl e)
      then show ?thesis using serves_death [OF Inl time w] by (simp add: m host_result_def r)
    next
      case (Inr frame)
      then show ?thesis
        using serves_result [OF Inr mirrors_Over.hyps assms(4) time w refl] by (simp add: m host_result_def r)
    qed
  qed
next
  case (mirrors_Sends i op payload p k k')
  obtain y outcome where h: "h op p limit (pp_host w) = (y, outcome)" by (cases "h op p limit (pp_host w)")
  then have reg: "regular_reply outcome" using handler [of op p limit "pp_host w"] by simp
  have w: "pp_worker w = Sends (frame_text (host_request i op payload)) (\<lambda>incoming. tree_bind (k incoming) (finish_cell wk duration))"
    using mirrors_Sends.prems(1) by simp
  note step = serves_step [where s = s and x = x and wk = wk and ipython = ipython and duration = duration and h = h
      and k = "\<lambda>incoming. tree_bind (k incoming) (finish_cell wk duration)" and i = i and op = op and payload = payload
      and p = p and w = w and limit = limit and deadline = deadline and y = y and outcome = outcome,
      OF mirrors_Sends.hyps(1,2) assms(3) mirrors_Sends.prems(2) w h reg]
  show ?case
  proof (cases "host_answer limit i outcome")
    case (Inl e)
    then have r: "r = Inl e" using mirrors_Sends.prems(3) h by simp
    show ?thesis
    proof (intro exI [of _ 1] allI impI)
      fix fuel :: nat
      assume "1 \<le> fuel"
      then obtain m where m: "fuel = Suc m" by (cases fuel) auto
      show "serves fuel (linked wk ipython duration) (on_host h) limit deadline (s\<lparr>xs_world := w\<rparr>) x
        (host_result (wk_ignored wk) duration r)"
        using step [where fuel = m] by (simp add: Inl r m host_result_def)
    qed
  next
    case (Inr answer)
    then have run: "run_direct_tree h limit (k' answer) y = (x, r)" using mirrors_Sends.prems(3) h by simp
    let ?w = "w\<lparr>pp_next := (\<lambda>incoming. tree_bind (k incoming) (finish_cell wk duration)), pp_host := y,
        pp_worker := tree_bind (k (Some (frame_text (reply_frame i answer)))) (finish_cell wk duration)\<rparr>"
    note sent = host_answer_sendable [OF Inr reg]
    have "\<exists>n. \<forall>fuel\<ge>n. serves fuel (linked wk ipython duration) (on_host h) limit deadline (s\<lparr>xs_world := ?w\<rparr>) x
      (host_result (wk_ignored wk) duration r)"
    proof (cases answer)
      case (Inl err)
      show ?thesis
        by (rule mirrors_Sends.IH(2) [of err]) (use sent mirrors_Sends.prems run in \<open>auto simp: reply_frame_def Inl\<close>)
    next
      case (Inr v)
      show ?thesis
        by (rule mirrors_Sends.IH(1) [of v]) (use sent mirrors_Sends.prems run in \<open>auto simp: reply_frame_def Inr\<close>)
    qed
    then obtain n where n: "\<And>fuel. n \<le> fuel \<Longrightarrow>
        serves fuel (linked wk ipython duration) (on_host h) limit deadline (s\<lparr>xs_world := ?w\<rparr>) x
          (host_result (wk_ignored wk) duration r)" by blast
    show ?thesis
    proof (intro exI [of _ "Suc n"] allI impI)
      fix fuel
      assume "Suc n \<le> fuel"
      then obtain m where m: "fuel = Suc m" "n \<le> m" by (cases fuel) auto
      show "serves fuel (linked wk ipython duration) (on_host h) limit deadline (s\<lparr>xs_world := w\<rparr>) x
        (host_result (wk_ignored wk) duration r)"
        using step [where fuel = m] n [OF m(2)] by (simp add: Inr m(1))
    qed
  qed
qed

text \<open>A worker that waits for the next command and is sent a cell.\<close>

definition execute_command :: "string \<Rightarrow> dict" where
  "execute_command cell = [(''type'', PStr (ipc_kind_value IpcExecute)), (''code'', PStr cell)]"

lemma worker_command_execute:
  assumes "sendable (execute_command cell)"
  shows "worker_command wk ipython duration ws (Some (frame_text (execute_command cell))) =
     execute_cell wk ipython duration cell (ws\<lparr>ws_submission := None, ws_host_failure := None\<rparr>)"
proof -
  have "message_kind (execute_command cell) = Inr IpcExecute"
    unfolding execute_command_def by (rule message_kind_value)
  then show ?thesis
    by (simp add: worker_command_def receive_frame [OF assms] Let_def) (simp add: execute_command_def)
qed

lemma execute_linked:
  assumes "xs_closed s = False" and cell: "sendable (execute_command cell)"
  shows "execute fuel (linked wk ipython duration) handler limit cell s =
    serve_cell fuel (linked wk ipython duration) handler limit (pp_now (xs_world s) + limit)
      (s\<lparr>xs_world := (xs_world s)\<lparr>pp_worker := pp_next (xs_world s) (Some (frame_text (execute_command cell)))\<rparr>\<rparr>)"
proof -
  let ?L = "linked wk ipython duration"
  have "ensure_running ?L s = (s, Inr ())"
    using assms(1) by (simp add: ensure_running_def andthen_def px_def linked_def ret_def)
  moreover have "transmit ?L (execute_command cell) s =
      (s\<lparr>xs_world := (xs_world s)\<lparr>pp_worker := pp_next (xs_world s) (Some (frame_text (execute_command cell)))\<rparr>\<rparr>, Inr ())"
    using transmit_linked [where wk = wk and ipython = ipython and duration = duration and d = "execute_command cell"
        and s = s and w = "xs_world s"] send_frame [OF cell] by simp
  moreover have "px_now ?L t = (t, Inr (pp_now (xs_world t)))" for t :: "'a pipe executor_state"
    by (simp add: px_now_def px_def linked_def)
  ultimately show ?thesis
    unfolding execute_def execute_command_def [symmetric] by (simp add: andthen_def except_def catch_def)
qed

text \<open>C3: the pipe is transparent: a worker that waits for a command and a host that runs a cell, joined by frames
  of JSON text, end as the same cell does when its bound functions call the handler directly: the handler sees
  the same calls in the same order and ends in the same state, and the host returns the frame of the cell's
  outcome, or the same exception.
\<close>

theorem pipe_transparent:
  assumes idle: "xs_closed s = False" "pp_next (xs_world s) = worker_command wk ipython duration ws"
    and cell: "sendable (execute_command cell)" "regular_code (ipython cell)" "regular_state ws"
    and handler: "\<And>op p r x. regular_reply (snd (h op p r x))" and "0 < limit" "decimal_float duration"
    and direct: "run_direct_tree h limit
        (run_code direct_call (wk_allow_recursion wk) (ipython cell) (new_capture (wk_max_output_chars wk))
          (ws\<lparr>ws_submission := None, ws_host_failure := None\<rparr>)) (pp_host (xs_world s)) = (x, r)"
  shows "\<exists>n. \<forall>fuel\<ge>n. \<exists>t.
    execute fuel (linked wk ipython duration) (on_host h) limit cell s =
      (t, map_sum id Some (host_result (wk_ignored wk) duration r))
    \<and> (is_ok (host_result (wk_ignored wk) duration r) \<longrightarrow> pp_host (xs_world t) = x)"
proof -
  let ?ws = "ws\<lparr>ws_submission := None, ws_host_failure := None\<rparr>"
  let ?w = "(xs_world s)\<lparr>pp_worker := pp_next (xs_world s) (Some (frame_text (execute_command cell)))\<rparr>"
  let ?T = "run_code host_call (wk_allow_recursion wk) (ipython cell) (new_capture (wk_max_output_chars wk)) ?ws"
  have "regular_state ?ws" using cell(3) by (simp add: regular_state_def)
  note same = run_code_mirrors [OF cell(2) this, of "wk_allow_recursion wk" "new_capture (wk_max_output_chars wk)"]
  have "pp_worker ?w = tree_bind ?T (finish_cell wk duration)"
    by (simp add: idle(2) worker_command_execute [OF cell(1)] execute_cell_def finish_cell_def [abs_def])
  from serves_mirrors [where x = x and r = r and s = s and h = h, OF same handler assms(7,8) this refl] direct
  obtain n where n: "\<And>fuel. n \<le> fuel \<Longrightarrow>
      serves fuel (linked wk ipython duration) (on_host h) limit (pp_now (xs_world s) + limit) (s\<lparr>xs_world := ?w\<rparr>) x
        (host_result (wk_ignored wk) duration r)" by auto
  show ?thesis
  proof (intro exI [of _ n] allI impI)
    fix fuel assume "n \<le> fuel"
    from n [OF this] show "\<exists>t. execute fuel (linked wk ipython duration) (on_host h) limit cell s =
          (t, map_sum id Some (host_result (wk_ignored wk) duration r))
        \<and> (is_ok (host_result (wk_ignored wk) duration r) \<longrightarrow> pp_host (xs_world t) = x)"
      unfolding execute_linked [OF idle(1) cell(1)] serves_def by (auto split: prod.split_asm)
  qed
qed

text \<open>A cell that asks for a completion, binds nothing, and submits a text; the handler counts its calls.\<close>

definition sample_cell :: "string \<Rightarrow> cell_code" where
  "sample_cell cell =
     CellUse True (CallModelComplete None) (\<lambda>r.
       CellUse True (CallFinalText (PStr ''hi'')) (\<lambda>_. CellEnd None []))"

definition counting_handler :: "nat direct_handler" where
  "counting_handler operation payload remaining n = (n + 1, Inr (PDict []))"

definition idle_worker :: worker_state where
  "idle_worker = \<lparr>ws_public_request = [], ws_submission = None, ws_host_failure = None, ws_next_id = 1\<rparr>"

definition sample_worker :: worker where
  "sample_worker = \<lparr>wk_allow_recursion = False, wk_max_output_chars = 10, wk_ignored = []\<rparr>"

definition idle_executor :: "nat pipe executor_state" where
  "idle_executor = \<lparr>xs_startup_timeout = 1, xs_started = True, xs_closed = False, xs_process_group_id = None,
     xs_child_open = False, xs_exitcode = PNone,
     xs_world = \<lparr>pp_worker = Over (Exits None), pp_next = worker_command sample_worker sample_cell 0 idle_worker,
       pp_now = 0, pp_host = 0\<rparr>\<rparr>"

definition sample_outcome :: cell_outcome where
  "sample_outcome = \<lparr>co_error = None, co_namespace = [], co_capture = new_capture 10,
     co_state = \<lparr>ws_public_request = [], ws_submission = Some [(''text'', PStr ''hi'')], ws_host_failure = None, ws_next_id = 2\<rparr>\<rparr>"

lemmas sample_sendable = sendable_def compact_def MAX_IPC_BYTES_def json_string_def json_char_def newline_indent_def
  utf8_def utf8_char_def show_int_def

lemma show_one [simp]: "show_pos 1 = ''1''"
  by code_simp

lemma decimal_zero [simp]: "decimal_float 0"
  by (simp add: decimal_float_def)

lemma sample_request: "sendable (host_request 1 ModelComplete [(''request'', PNone)])"
  by (simp add: host_request_def sample_sendable)

lemma sample_reply: "sendable (value_reply (PInt 1) (PDict []))"
  by (simp add: value_reply_def sample_sendable)

lemma sample_direct:
  "run_direct_tree counting_handler 5
     (run_code direct_call False (sample_cell ''x'') (new_capture 10) idle_worker) 0 = (1, Inr sample_outcome)"
  by (simp add: sample_cell_def counting_handler_def idle_worker_def model_complete_def direct_call_def work_map_def
      work_bind_def work_def send_frame [OF sample_request] send_frame [OF sample_reply] decode_payload_def Let_def
      settle_def host_answer_def FINAL_TEXT_def submit_def sample_outcome_def ret_def)

definition sample_frame :: dict where
  "sample_frame = [(''type'', PStr ''execution_result''), (''stdout'', PStr []), (''stderr'', PStr []), (''display'', PStr []),
     (''duration_seconds'', PFloat (Fin 0)), (''exception'', PNone), (''host_failure'', PNone),
     (''submission'', PDict [(''text'', PStr ''hi'')]), (''namespace'', PDict []), (''truncations'', PList [])]"

lemma sample_execution_frame: "execution_frame [] 0 sample_outcome = sample_frame"
  by (simp add: execution_frame_def sample_frame_def sample_outcome_def exception_frame_def frame_submission_def
     SHOW_VARS_def truncations_of_def capture_traceback_def captured_def new_capture_def new_io_def rstrip_newlines_def io_truncation_def)

lemma sample_frame_sendable: "sendable sample_frame"
  by (simp add: sample_frame_def sample_sendable float_repr_def json_text_value_def)

lemma sample_result:
  "\<exists>raw. host_result [] 0 (Inr sample_outcome) = Inr raw \<and> rx_submission raw = Some (TextSubmission ''hi'')"
  unfolding host_result_def sample_execution_frame sum.case send_frame [OF sample_frame_sendable]
  by (simp add: sample_frame_def decode_result_def result_fields_def decode_exception_def decode_host_failure_def
      decode_submission_def decode_truncations_def)

lemma pipe_transparent_witness:
  "\<exists>n t raw. execute n (linked sample_worker sample_cell 0) (on_host counting_handler) 5 ''x'' idle_executor =
      (t, Inr (Some raw)) \<and> rx_submission raw = Some (TextSubmission ''hi'') \<and> pp_host (xs_world t) = 1"
proof -
  have handler: "regular_reply (snd (counting_handler op p r x))" for op p r x
    by (simp add: counting_handler_def regular_reply_def)
  have cell: "sendable (execute_command ''x'')" "regular_code (sample_cell ''x'')" "regular_state idle_worker"
    by (simp_all add: execute_command_def execute_frame_sendable sample_cell_def idle_worker_def regular_state_def)
  have idle: "idle_worker\<lparr>ws_submission := None, ws_host_failure := None\<rparr> = idle_worker"
    "xs_closed idle_executor = False" "pp_host (xs_world idle_executor) = 0"
    "pp_next (xs_world idle_executor) = worker_command sample_worker sample_cell 0 idle_worker"
    "wk_allow_recursion sample_worker = False" "wk_max_output_chars sample_worker = 10" "wk_ignored sample_worker = []"
    by (simp_all add: idle_worker_def idle_executor_def sample_worker_def)
  note run = pipe_transparent [OF idle(2,4) cell handler, of 5, unfolded idle, OF _ decimal_zero sample_direct]
  obtain raw where raw: "host_result [] 0 (Inr sample_outcome) = Inr raw" "rx_submission raw = Some (TextSubmission ''hi'')"
    using sample_result by blast
  from run obtain n where "\<forall>fuel\<ge>n. \<exists>t. execute fuel (linked sample_worker sample_cell 0) (on_host counting_handler) 5 ''x''
      idle_executor = (t, Inr (Some raw)) \<and> pp_host (xs_world t) = 1"
    unfolding raw(1) by auto
  then show ?thesis using raw(2) by blast
qed

end
