(* ===== verification/Attestation.thy ===== *)
theory Attestation
  imports Json_Roundtrip Types
begin

text \<open>
  \<open>rlm/attestation.py\<close>: the identity a successful run carries, and its form as \<open>X-RLM-*\<close> headers.
  A header mapping is its list of items, \<open>None\<close> an argument that is no mapping at all.
\<close>

section \<open>Numbers in text\<close>

text \<open>CPython converts integers to and from text of at most 4300 digits.\<close>

definition int_max_str_digits :: nat where
  "int_max_str_digits = 4300"

definition py_int_text :: "int \<Rightarrow> exn + string" where
  "py_int_text n =
     (if int_max_str_digits < length (show_pos (abs n))
      then Inl (value_error ''Exceeds the limit (4300 digits) for integer string conversion'')
      else Inr (show_int n))"

text \<open>
  \<open>float\<close> of a string: white space around it, underscores between digits, a sign, and digits with a point
  and an exponent, or a name of infinity or of no number.
\<close>

definition float_space :: "char \<Rightarrow> bool" where
  "float_space c \<longleftrightarrow> (9 \<le> code c \<and> code c \<le> 13) \<or> code c = 32 \<or> code c = 133 \<or> code c = 160"

fun underscores_ok :: "bool \<Rightarrow> string \<Rightarrow> bool" where
  "underscores_ok after_digit [] = True"
| "underscores_ok after_digit (c # cs) =
     (if c = CHR ''_'' then after_digit \<and> cs \<noteq> [] \<and> is_digit (hd cs) \<and> underscores_ok False cs
      else underscores_ok (is_digit c) cs)"

definition unsigned_float :: "bool \<Rightarrow> string \<Rightarrow> fl option" where
  "unsigned_float neg v =
     (let ip = takeWhile is_digit v; rest = dropWhile is_digit v; fp = frac_part rest;
          after = (if take 1 rest = ''.'' then drop (Suc (length fp)) rest else rest)
      in if ip = [] \<and> fp = [] then None
         else if after = [] then Some (to_float (dec_value neg ip fp False []))
         else case exp_part after of
             Some (eneg, ep, []) \<Rightarrow> Some (to_float (dec_value neg ip fp eneg ep))
           | _ \<Rightarrow> None)"

definition py_float :: "string \<Rightarrow> fl option" where
  "py_float s =
     (let t = rev (dropWhile float_space (rev (dropWhile float_space s)))
      in if \<not> underscores_ok False t then None
         else case exp_sign (filter (\<lambda>c. c \<noteq> CHR ''_'') t) of
             (neg, v) \<Rightarrow>
               if lower v = ''inf'' \<or> lower v = ''infinity'' then Some (if neg then NegInf else PosInf)
               else if lower v = ''nan'' then Some NaN
               else unsigned_float neg v)"

section \<open>The attestation\<close>

record run_attestation =
  at_run_id :: string
  at_stop_reason :: string
  at_turns :: int
  at_duration :: rat
  at_usage :: token_usage
  at_identity :: controller_run_identity
  at_harness_fingerprint :: string

definition require_run_text :: "string \<Rightarrow> string \<Rightarrow> exn + unit" where
  "require_run_text value_text name =
     (if value_text = [] then Inl (value_error (name @ '' must be a non-empty string'')) else Inr ())"

definition require_run_count :: "int \<Rightarrow> string \<Rightarrow> exn + unit" where
  "require_run_count n name =
     (if n < 0 then Inl (value_error (name @ '' must be a nonnegative integer'')) else Inr ())"

definition require_run_sha256 :: "string \<Rightarrow> string \<Rightarrow> exn + unit" where
  "require_run_sha256 s name =
     (if \<not> is_sha256_text s then Inl (value_error (name @ '' must be a SHA-256 digest'')) else Inr ())"

text \<open>The constructor, on a duration as it is given; the fields have their types.\<close>

definition mk_attestation :: "run_attestation \<Rightarrow> py \<Rightarrow> exn + run_attestation" where
  "mk_attestation a duration_seconds =
     ebind (require_run_text (at_run_id a) ''run_id'') (\<lambda>_.
     ebind (require_run_text (at_stop_reason a) ''stop_reason'') (\<lambda>_.
     ebind (require_run_count (at_turns a) ''turns'') (\<lambda>_.
     ebind (canonical_duration_seconds duration_seconds) (\<lambda>duration.
     ebind (require_run_count (input_tokens (at_usage a)) ''input_tokens'') (\<lambda>_.
     ebind (require_run_count (output_tokens (at_usage a)) ''output_tokens'') (\<lambda>_.
     ebind (require_run_count (unreported_calls (at_usage a)) ''unreported_calls'') (\<lambda>_.
     ebind (require_run_count (calls (at_usage a)) ''calls'') (\<lambda>_.
       if calls (at_usage a) = 0 then Inl (value_error ''calls must be positive'')
       else ebind (require_run_sha256 (at_harness_fingerprint a) ''harness_fingerprint'') (\<lambda>_.
         Inr (a\<lparr>at_duration := duration\<rparr>))))))))))"

definition from_result :: "run_result \<Rightarrow> exn + run_attestation" where
  "from_result r =
     mk_attestation
       \<lparr>at_run_id = rr_run_id r, at_stop_reason = rr_stop_reason r, at_turns = int (rr_turns r), at_duration = 0,
        at_usage = rr_usage r, at_identity = rr_identity r, at_harness_fingerprint = rr_harness_fingerprint r\<rparr>
       (PFloat (Fin (rr_duration r)))"

section \<open>Headers\<close>

definition header_names :: "(string \<times> string) list" where
  "header_names =
     [(''run_id'', ''X-RLM-Run-ID''),
      (''stop_reason'', ''X-RLM-Stop-Reason''),
      (''turns'', ''X-RLM-Turns''),
      (''duration_seconds'', ''X-RLM-Duration-Seconds''),
      (''calls'', ''X-RLM-Model-Calls''),
      (''input_tokens'', ''X-RLM-Input-Tokens''),
      (''output_tokens'', ''X-RLM-Output-Tokens''),
      (''unreported_calls'', ''X-RLM-Usage-Unreported-Calls''),
      (''controller_model'', ''X-RLM-Controller-Model''),
      (''controller_options_sha256'', ''X-RLM-Controller-Options-SHA256''),
      (''harness_fingerprint'', ''X-RLM-Harness-Fingerprint'')]"

definition to_headers :: "run_attestation \<Rightarrow> exn + (string \<times> string) list" where
  "to_headers a =
     ebind (py_int_text (at_turns a)) (\<lambda>turns.
     ebind (py_int_text (calls (at_usage a))) (\<lambda>model_calls.
     ebind (py_int_text (input_tokens (at_usage a))) (\<lambda>inputs.
     ebind (py_int_text (output_tokens (at_usage a))) (\<lambda>outputs.
     ebind (py_int_text (unreported_calls (at_usage a))) (\<lambda>unreported.
       Inr (map2 (\<lambda>p v. (snd p, v)) header_names
         [at_run_id a, at_stop_reason a, turns, fmt_fixed 6 (at_duration a), model_calls, inputs, outputs,
          unreported, ci_model (at_identity a), ci_options_sha256 (at_identity a), at_harness_fingerprint a]))))))"

text \<open>Header names are compared without regard to case.\<close>

fun normalize_headers :: "(string \<times> string) list \<Rightarrow> (py \<times> py) list \<Rightarrow> exn + (string \<times> string) list" where
  "normalize_headers normalized [] = Inr normalized"
| "normalize_headers normalized ((name, v) # items) =
     (case (as_str name, as_str v) of
        (Some n, Some s) \<Rightarrow>
          if lower n \<in> set (map fst normalized)
          then Inl (value_error (''duplicate case-insensitive header '' @ py_repr n))
          else normalize_headers (normalized @ [(lower n, s)]) items
      | _ \<Rightarrow> Inl (value_error ''header names and values must be strings''))"

definition missing_headers :: "(string \<times> string) list \<Rightarrow> string list" where
  "missing_headers normalized =
     map snd (filter (\<lambda>p. lower (snd p) \<notin> set (map fst normalized)) header_names)"

definition parse_nonnegative_integer :: "string \<Rightarrow> string \<Rightarrow> exn + int" where
  "parse_nonnegative_integer s name =
     (if s = [] \<or> \<not> list_all is_digit s
      then Inl (value_error (name @ '' header must be a nonnegative integer''))
      else if int_max_str_digits < length s
      then Inl (value_error ''Exceeds the limit (4300 digits) for integer string conversion'')
      else Inr (read_pos s))"

definition parse_duration :: "string \<Rightarrow> exn + rat" where
  "parse_duration s =
     (case py_float s of
        None \<Rightarrow> Inl (value_error ''duration header must be a finite nonnegative number'')
      | Some duration \<Rightarrow> canonical_duration_seconds (PFloat duration))"

definition from_headers :: "(py \<times> py) list option \<Rightarrow> exn + run_attestation" where
  "from_headers headers =
     (case headers of
        None \<Rightarrow> Inl (type_error ''headers must be a mapping'')
      | Some items \<Rightarrow>
     ebind (normalize_headers [] items) (\<lambda>normalized.
       if missing_headers normalized \<noteq> []
       then Inl (value_error (''missing required RLM headers: '' @ join_str '', '' (missing_headers normalized)))
       else
         let field = (\<lambda>name. the (map_of normalized (lower (the (map_of header_names name)))))
         in
         ebind (parse_duration (field ''duration_seconds'')) (\<lambda>duration.
         ebind (parse_nonnegative_integer (field ''turns'') ''turns'') (\<lambda>turns.
         ebind (parse_nonnegative_integer (field ''input_tokens'') ''input_tokens'') (\<lambda>inputs.
         ebind (parse_nonnegative_integer (field ''output_tokens'') ''output_tokens'') (\<lambda>outputs.
         ebind (parse_nonnegative_integer (field ''calls'') ''calls'') (\<lambda>model_calls.
         ebind (parse_nonnegative_integer (field ''unreported_calls'') ''unreported_calls'') (\<lambda>unreported.
         ebind (mk_controller_run_identity (field ''controller_model'') (field ''controller_options_sha256'')) (\<lambda>identity.
           mk_attestation
             \<lparr>at_run_id = field ''run_id'', at_stop_reason = field ''stop_reason'', at_turns = turns, at_duration = 0,
              at_usage = \<lparr>input_tokens = inputs, output_tokens = outputs, calls = model_calls, unreported_calls = unreported\<rparr>,
              at_identity = identity, at_harness_fingerprint = field ''harness_fingerprint''\<rparr>
             (PFloat (Fin duration)))))))))))"


section \<open>A duration is read back from its text\<close>

lemma underscores_free: "\<forall>c\<in>set s. c \<noteq> CHR ''_'' \<Longrightarrow> underscores_ok b s"
  by (induction s arbitrary: b) auto

lemma digit_plain:
  assumes "is_digit c"
  shows "c \<noteq> CHR ''_''" "c \<noteq> CHR ''.''" "c \<noteq> CHR ''-''" "c \<noteq> CHR ''+''" "\<not> float_space c" "lower_char c = c"
    "c \<noteq> CHR ''i''" "c \<noteq> CHR ''n''"
proof -
  have r: "48 \<le> code c \<and> code c \<le> 57"
    using assms by (simp add: is_digit_def) (metis of_nat_le_iff of_nat_numeral of_nat_of_char)
  show "\<not> float_space c" "lower_char c = c" using r by (auto simp: float_space_def lower_char_def)
  show "c \<noteq> CHR ''_''" "c \<noteq> CHR ''.''" "c \<noteq> CHR ''-''" "c \<noteq> CHR ''+''" "c \<noteq> CHR ''i''" "c \<noteq> CHR ''n''" using r by auto
qed

lemma py_float_point:
  assumes a: "list_all is_digit a" "a \<noteq> []" and b: "list_all is_digit b" "b \<noteq> []"
  shows "py_float (a @ CHR ''.'' # b) = Some (to_float (of_int (read_pos (a @ b)) / 10 ^ length b))"
proof -
  let ?t = "a @ CHR ''.'' # b"
  obtain c cs where ac: "a = c # cs" "is_digit c" using a by (cases a) auto
  obtain d ds where bd: "b = ds @ [d]" "is_digit d" using b by (cases b rule: rev_cases) auto
  have strip: "rev (dropWhile float_space (rev (dropWhile float_space ?t))) = ?t"
    using digit_plain [OF ac(2)] digit_plain [OF bd(2)] by (simp add: ac bd)
  have plain: "\<forall>c\<in>set ?t. c \<noteq> CHR ''_''"
    using a(1) b(1) digit_plain(1) by (auto simp: list_all_iff)
  have "exp_sign ?t = (False, ?t)" using digit_plain [OF ac(2)] by (simp add: exp_sign_def ac)
  moreover have "filter (\<lambda>c. c \<noteq> CHR ''_'') ?t = ?t" using plain by (simp only: filter_id_conv)
  moreover have "lower ?t \<noteq> ''inf''" "lower ?t \<noteq> ''infinity''" "lower ?t \<noteq> ''nan''"
    using digit_plain [OF ac(2)] by (simp_all add: lower_def ac)
  moreover have "takeWhile is_digit ?t = a" "dropWhile is_digit ?t = CHR ''.'' # b"
    using a(1) by (simp_all add: takeWhile_append2 dropWhile_append2 list_all_iff is_digit_def)
  moreover have "frac_part (CHR ''.'' # b) = b"
    using b(1) by (simp add: frac_part_def list_all_iff)
  ultimately show ?thesis
    using strip plain a(2) b(2)
    by (simp add: py_float_def Let_def underscores_free unsigned_float_def dec_value_def)
qed

lemma length_show_pos: "0 \<le> n \<Longrightarrow> n < 10 ^ Suc k \<Longrightarrow> length (show_pos n) \<le> Suc k"
proof (induction k arbitrary: n)
  case 0
  then show ?case by (simp add: show_pos_def int_digits.simps [of n])
next
  case (Suc k)
  then have "n div 10 < 10 ^ Suc k" by simp
  then show ?case
    using Suc.IH [of "n div 10"] Suc.prems by (simp add: show_pos_def int_digits.simps [of n])
qed

lemma py_float_fixed:
  assumes "0 \<le> d" "round_dec 6 d = d" "d < 2 ^ 1024 - 2 ^ 970"
  shows "py_float (fmt_fixed 6 d) = Some (Fin d)"
proof -
  define n where "n = round_half_even (d * 10 ^ 6)"
  have n: "0 \<le> n" "d = of_int n / 10 ^ 6"
    using assms(1,2) by (simp_all add: n_def round_half_even_nonneg round_dec_def)
  let ?a = "show_pos (n div 10 ^ 6)" and ?b = "pad_left 6 CHR ''0'' (show_pos (n mod 10 ^ 6))"
  have fixed: "fmt_fixed 6 d = ?a @ CHR ''.'' # ?b"
    using assms(1) by (simp add: fmt_fixed_def n_def Let_def)
  have "length (show_pos (n mod 10 ^ 6)) \<le> 6" using length_show_pos [of "n mod 10 ^ 6" 5] by simp
  then have "length ?b = 6" by (rule length_pad_left)
  then have "of_int (read_pos (?a @ ?b)) / 10 ^ length ?b = d"
    using n by (simp add: read_pos_append mult.commute [of _ "1000000"])
  moreover have "list_all is_digit ?a" "list_all is_digit ?b" "?b \<noteq> []"
    using n(1) by (simp_all add: digits_show_pos digits_pad pad_nonempty)
  ultimately show ?thesis
    unfolding fixed using py_float_point [of ?a ?b] assms(1,3) by (simp add: to_float_def)
qed

section \<open>The attestation is read back from its headers\<close>

text \<open>What HTTP may do to headers: reorder them, change the case of their names and add others.\<close>

definition carries :: "(string \<times> string) list \<Rightarrow> (string \<times> string) list \<Rightarrow> bool" where
  "carries hs sent \<longleftrightarrow> distinct (map (\<lambda>p. lower (fst p)) hs)
     \<and> (\<forall>p\<in>set sent. \<exists>q\<in>set hs. lower (fst q) = lower (fst p) \<and> snd q = snd p)"

definition header_items :: "(string \<times> string) list \<Rightarrow> (py \<times> py) list" where
  "header_items hs = map (\<lambda>p. (PStr (fst p), PStr (snd p))) hs"

lemma normalize_items:
  "distinct (map fst acc @ map (\<lambda>p. lower (fst p)) hs) \<Longrightarrow>
   normalize_headers acc (header_items hs) = Inr (acc @ map (\<lambda>p. (lower (fst p), snd p)) hs)"
  by (induction hs arbitrary: acc) (auto simp: header_items_def)

lemma normalize_distinct:
  "normalize_headers acc items = Inr n \<Longrightarrow> distinct (map fst acc) \<Longrightarrow> distinct (map fst n)"
  by (induction acc items rule: normalize_headers.induct) (auto split: option.split_asm if_split_asm)

lemma mk_attestation_ok:
  "mk_attestation a v = Inr b \<longleftrightarrow>
     at_run_id a \<noteq> [] \<and> at_stop_reason a \<noteq> [] \<and> 0 \<le> at_turns a \<and> 0 \<le> input_tokens (at_usage a)
     \<and> 0 \<le> output_tokens (at_usage a) \<and> 0 \<le> unreported_calls (at_usage a) \<and> 0 < calls (at_usage a)
     \<and> is_sha256_text (at_harness_fingerprint a)
     \<and> (\<exists>d. canonical_duration_seconds v = Inr d \<and> b = a\<lparr>at_duration := d\<rparr>)"
  by (cases "canonical_duration_seconds v")
     (auto simp: mk_attestation_def ebind_eq_Inr require_run_text_def require_run_count_def
       require_run_sha256_def)

lemma valid_duration:
  assumes "mk_attestation a v = Inr a"
  shows "0 \<le> at_duration a \<and> round_dec 6 (at_duration a) = at_duration a"
proof -
  obtain d where d: "canonical_duration_seconds v = Inr d" "a = a\<lparr>at_duration := d\<rparr>"
    using assms unfolding mk_attestation_ok by blast
  have "at_duration a = d" using d(2) by (cases a) simp
  then show ?thesis using canonical_duration_idem [OF d(1)] by (simp add: canonical_duration_ok)
qed

lemma py_int_text_ok: "py_int_text n = Inr s \<longleftrightarrow> length (show_pos \<bar>n\<bar>) \<le> int_max_str_digits \<and> s = show_int n"
  by (auto simp: py_int_text_def)

lemma parse_count_text:
  "py_int_text n = Inr s \<Longrightarrow> 0 \<le> n \<Longrightarrow> parse_nonnegative_integer s name = Inr n"
  by (auto simp: py_int_text_ok parse_nonnegative_integer_def show_int_def digits_show_pos)

lemma parse_duration_text:
  assumes "0 \<le> d" "round_dec 6 d = d" "d < 2 ^ 1024 - 2 ^ 970"
  shows "parse_duration (fmt_fixed 6 d) = Inr d"
  using assms by (simp add: parse_duration_def py_float_fixed canonical_duration_ok)

lemma header_name:
  "map_of header_names ''run_id'' = Some ''X-RLM-Run-ID''"
  "map_of header_names ''stop_reason'' = Some ''X-RLM-Stop-Reason''"
  "map_of header_names ''turns'' = Some ''X-RLM-Turns''"
  "map_of header_names ''duration_seconds'' = Some ''X-RLM-Duration-Seconds''"
  "map_of header_names ''calls'' = Some ''X-RLM-Model-Calls''"
  "map_of header_names ''input_tokens'' = Some ''X-RLM-Input-Tokens''"
  "map_of header_names ''output_tokens'' = Some ''X-RLM-Output-Tokens''"
  "map_of header_names ''unreported_calls'' = Some ''X-RLM-Usage-Unreported-Calls''"
  "map_of header_names ''controller_model'' = Some ''X-RLM-Controller-Model''"
  "map_of header_names ''controller_options_sha256'' = Some ''X-RLM-Controller-Options-SHA256''"
  "map_of header_names ''harness_fingerprint'' = Some ''X-RLM-Harness-Fingerprint''"
  by (simp_all add: header_names_def)

lemma headers_read_back:
  assumes valid: "mk_attestation a v = Inr a" and identity: "mk_controller_run_identity (ci_model (at_identity a))
        (ci_options_sha256 (at_identity a)) = Inr (at_identity a)"
    and float: "at_duration a < 2 ^ 1024 - 2 ^ 970" and sent: "to_headers a = Inr sent" and "carries hs sent"
  shows "from_headers (Some (header_items hs)) = Inr a"
proof -
  let ?N = "map (\<lambda>p. (lower (fst p), snd p)) hs"
  have dist: "distinct (map fst ?N)" using assms(5) by (simp add: carries_def comp_def)
  have norm: "normalize_headers [] (header_items hs) = Inr ?N"
    using normalize_items [of "[]" hs] assms(5) by (simp add: carries_def)
  have found: "map_of ?N (lower (fst p)) = Some (snd p)" if p: "p \<in> set sent" for p
  proof (rule map_of_is_SomeI [OF dist])
    obtain q where "q \<in> set hs" "lower (fst q) = lower (fst p)" "snd q = snd p"
      using p assms(5) by (auto simp: carries_def)
    then show "(lower (fst p), snd p) \<in> set ?N" by (metis (no_types, lifting) image_eqI list.set_map)
  qed
  obtain turns model_calls inputs outputs unreported where
    ints: "py_int_text (at_turns a) = Inr turns" "py_int_text (calls (at_usage a)) = Inr model_calls"
      "py_int_text (input_tokens (at_usage a)) = Inr inputs" "py_int_text (output_tokens (at_usage a)) = Inr outputs"
      "py_int_text (unreported_calls (at_usage a)) = Inr unreported"
    and h: "sent = map2 (\<lambda>p v. (snd p, v)) header_names
         [at_run_id a, at_stop_reason a, turns, fmt_fixed 6 (at_duration a), model_calls, inputs, outputs,
          unreported, ci_model (at_identity a), ci_options_sha256 (at_identity a), at_harness_fingerprint a]"
    using sent by (auto simp: to_headers_def ebind_eq_Inr)
  have sends:
    "(''X-RLM-Run-ID'', at_run_id a) \<in> set sent"
    "(''X-RLM-Stop-Reason'', at_stop_reason a) \<in> set sent"
    "(''X-RLM-Turns'', turns) \<in> set sent"
    "(''X-RLM-Duration-Seconds'', fmt_fixed 6 (at_duration a)) \<in> set sent"
    "(''X-RLM-Model-Calls'', model_calls) \<in> set sent"
    "(''X-RLM-Input-Tokens'', inputs) \<in> set sent"
    "(''X-RLM-Output-Tokens'', outputs) \<in> set sent"
    "(''X-RLM-Usage-Unreported-Calls'', unreported) \<in> set sent"
    "(''X-RLM-Controller-Model'', ci_model (at_identity a)) \<in> set sent"
    "(''X-RLM-Controller-Options-SHA256'', ci_options_sha256 (at_identity a)) \<in> set sent"
    "(''X-RLM-Harness-Fingerprint'', at_harness_fingerprint a) \<in> set sent"
    unfolding h header_names_def by simp_all
  have fields:
    "the (map_of ?N (lower (the (map_of header_names ''run_id'')))) = at_run_id a"
    "the (map_of ?N (lower (the (map_of header_names ''stop_reason'')))) = at_stop_reason a"
    "the (map_of ?N (lower (the (map_of header_names ''turns'')))) = turns"
    "the (map_of ?N (lower (the (map_of header_names ''duration_seconds'')))) = fmt_fixed 6 (at_duration a)"
    "the (map_of ?N (lower (the (map_of header_names ''calls'')))) = model_calls"
    "the (map_of ?N (lower (the (map_of header_names ''input_tokens'')))) = inputs"
    "the (map_of ?N (lower (the (map_of header_names ''output_tokens'')))) = outputs"
    "the (map_of ?N (lower (the (map_of header_names ''unreported_calls'')))) = unreported"
    "the (map_of ?N (lower (the (map_of header_names ''controller_model'')))) = ci_model (at_identity a)"
    "the (map_of ?N (lower (the (map_of header_names ''controller_options_sha256'')))) = ci_options_sha256 (at_identity a)"
    "the (map_of ?N (lower (the (map_of header_names ''harness_fingerprint'')))) = at_harness_fingerprint a"
    by (simp_all only: header_name option.sel sends [THEN found, unfolded fst_conv snd_conv])
  have none: "missing_headers ?N = []"
  proof -
    have "lower (snd p) \<in> set (map fst ?N)" if p: "p \<in> set header_names" for p
    proof -
      have "snd p \<in> set (map fst sent)" using p by (auto simp: h header_names_def)
      then show ?thesis using found by (fastforce dest: map_of_SomeD)
    qed
    then show ?thesis by (simp add: missing_headers_def filter_empty_conv)
  qed
  have ranges: "0 \<le> at_duration a" "round_dec 6 (at_duration a) = at_duration a"
    using valid_duration [OF valid] by simp_all
  then have a: "mk_attestation (a\<lparr>at_duration := 0\<rparr>) (PFloat (Fin (at_duration a))) = Inr a"
    using valid by (auto simp: mk_attestation_ok canonical_duration_ok)
  have same: "\<lparr>at_run_id = at_run_id a, at_stop_reason = at_stop_reason a, at_turns = at_turns a, at_duration = 0,
      at_usage = \<lparr>input_tokens = input_tokens (at_usage a), output_tokens = output_tokens (at_usage a),
        calls = calls (at_usage a), unreported_calls = unreported_calls (at_usage a)\<rparr>,
      at_identity = at_identity a, at_harness_fingerprint = at_harness_fingerprint a\<rparr> = a\<lparr>at_duration := 0\<rparr>"
    by (cases a, cases "at_usage a") simp
  have signs: "0 \<le> at_turns a" "0 \<le> calls (at_usage a)" "0 \<le> input_tokens (at_usage a)"
    "0 \<le> output_tokens (at_usage a)" "0 \<le> unreported_calls (at_usage a)"
    using valid by (simp_all add: mk_attestation_ok)
  show ?thesis
    unfolding from_headers_def option.case norm ebind_Inr none fields Let_def
    by (simp add: parse_duration_text [OF ranges float] parse_count_text [OF ints(1) signs(1)]
        parse_count_text [OF ints(2) signs(2)] parse_count_text [OF ints(3) signs(3)] parse_count_text [OF ints(4) signs(4)]
        parse_count_text [OF ints(5) signs(5)] identity same a)
qed

text \<open>C15: an attestation survives its headers: whatever the order and the case in which HTTP delivers them and
  whatever other headers come with them, \<open>from_headers\<close> gives back the attestation \<open>to_headers\<close> was given.\<close>

theorem attestation_headers_roundtrip:
  assumes valid: "mk_attestation a v = Inr a" and identity: "mk_controller_run_identity (ci_model (at_identity a))
        (ci_options_sha256 (at_identity a)) = Inr (at_identity a)"
    and float: "at_duration a < 2 ^ 1024 - 2 ^ 970" and sent: "to_headers a = Inr sent" and "carries hs sent"
  shows "from_headers (Some (header_items hs)) = Inr a"
  using assms by (rule headers_read_back)

text \<open>The headers of a run, delivered in lower case and behind another header.\<close>

definition sample_attestation :: run_attestation where
  "sample_attestation =
     \<lparr>at_run_id = ''r1'', at_stop_reason = ''final_text'', at_turns = 2, at_duration = 3 / 2,
      at_usage = \<lparr>input_tokens = 10, output_tokens = 0, calls = 3, unreported_calls = 1\<rparr>,
      at_identity = \<lparr>ci_model = ''m'', ci_options_sha256 = replicate 64 CHR ''a''\<rparr>,
      at_harness_fingerprint = replicate 64 CHR ''0''\<rparr>"

definition sample_headers :: "(string \<times> string) list" where
  "sample_headers =
     (case to_headers sample_attestation of
        Inl e \<Rightarrow> []
      | Inr sent \<Rightarrow> (''Date'', ''today'') # map (\<lambda>p. (lower (fst p), snd p)) sent)"

lemma sample_duration: "canonical_duration_seconds (PFloat (Fin (3 / 2))) = Inr (3 / 2)" "fmt_fixed 6 (3 / 2) = ''1.500000''"
proof -
  have "round_half_even (1500000 :: rat) = 1500000" using round_half_even_of_int [of 1500000] by simp
  moreover have "show_pos 500000 = ''500000''" "show_pos 1 = ''1''" by code_simp+
  ultimately show "canonical_duration_seconds (PFloat (Fin (3 / 2))) = Inr (3 / 2)" "fmt_fixed 6 (3 / 2) = ''1.500000''"
    by (simp_all add: canonical_duration_ok round_dec_def fmt_fixed_def pad_left_def)
qed

lemma sample_sent:
  "to_headers sample_attestation = Inr (map2 (\<lambda>p v. (snd p, v)) header_names
     [''r1'', ''final_text'', ''2'', ''1.500000'', ''3'', ''10'', ''0'', ''1'', ''m'', replicate 64 CHR ''a'', replicate 64 CHR ''0''])"
proof -
  have "show_pos 2 = ''2''" "show_pos 3 = ''3''" "show_pos 10 = ''10''" "show_pos 0 = ''0''" "show_pos 1 = ''1''" by code_simp+
  then show ?thesis
    by (simp add: to_headers_def sample_attestation_def py_int_text_def show_int_def int_max_str_digits_def sample_duration)
qed

lemma lower_idem [simp]: "lower (lower s) = lower s"
proof -
  have "lower_char (lower_char c) = lower_char c" for c
    by (auto simp: lower_char_def)
  then show ?thesis by (simp add: lower_def)
qed

lemma carries_lower:
  assumes "distinct (map lower (n # map fst sent))"
  shows "carries ((n, v) # map (\<lambda>p. (lower (fst p), snd p)) sent) sent"
  using assms by (auto simp: carries_def comp_def)

lemma lower_header_names:
  "map lower (map snd header_names) =
     [''x-rlm-run-id'',
      ''x-rlm-stop-reason'',
      ''x-rlm-turns'',
      ''x-rlm-duration-seconds'',
      ''x-rlm-model-calls'',
      ''x-rlm-input-tokens'',
      ''x-rlm-output-tokens'',
      ''x-rlm-usage-unreported-calls'',
      ''x-rlm-controller-model'',
      ''x-rlm-controller-options-sha256'',
      ''x-rlm-harness-fingerprint'']"
  by code_simp

lemma sample_names: "distinct (map lower (''Date'' # map snd header_names))"
  unfolding list.map lower_header_names by (simp add: lower_def lower_char_def char_of_def bit_0)

lemma attestation_headers_roundtrip_witness:
  "from_headers (Some (header_items sample_headers)) = Inr sample_attestation
   \<and> map_of sample_headers ''x-rlm-duration-seconds'' = Some ''1.500000''"
proof -
  have sha: "is_sha256_text (replicate 64 CHR ''0'')" "is_sha256_text (replicate 64 CHR ''a'')"
    by (simp_all add: is_sha256_text_def list_all_iff is_hex_lower_def)
  have valid: "mk_attestation sample_attestation (PFloat (Fin (3 / 2))) = Inr sample_attestation"
    unfolding mk_attestation_ok by (intro conjI exI [of _ "3 / 2"]) (simp_all add: sample_attestation_def sha sample_duration)
  have identity: "mk_controller_run_identity (ci_model (at_identity sample_attestation))
      (ci_options_sha256 (at_identity sample_attestation)) = Inr (at_identity sample_attestation)"
    by (simp add: mk_controller_run_identity_def sample_attestation_def sha)
  have "keys sent = map snd header_names" if "to_headers sample_attestation = Inr sent" for sent
    using that unfolding sample_sent by (auto simp: header_names_def)
  then have delivered: "carries sample_headers sent" if "to_headers sample_attestation = Inr sent" for sent
    using carries_lower [of "''Date''" sent "''today''"] sample_names that by (simp add: sample_headers_def)
  have "map_of sample_headers ''x-rlm-duration-seconds'' = Some ''1.500000''"
    by (simp add: sample_headers_def sample_sent header_names_def lower_def lower_char_def char_of_def bit_0)
  moreover have "at_duration sample_attestation < 2 ^ 1024 - 2 ^ 970" by (simp add: sample_attestation_def)
  ultimately show ?thesis
    using attestation_headers_roundtrip [OF valid identity _ sample_sent delivered [OF sample_sent]] by blast
qed

end
