(* ===== verification/Run_Artifacts.thy ===== *)
theory Run_Artifacts
  imports Trace_Reader Attestation
begin

text \<open>
  \<open>rlm/run_artifacts.py\<close>: the agreement of a response, the attestation of its run and the trace of the run.
  The files are those of every directory, by name.
\<close>

section \<open>Agreement\<close>

text \<open>A subscript \<open>v["k"]\<close> of decoded JSON.\<close>

definition subscript :: "py \<Rightarrow> string \<Rightarrow> exn + py" where
  "subscript v k =
     (case as_dict v of
        None \<Rightarrow> Inl (type_error (type_name v @ '' object is not subscriptable by text''))
      | Some d \<Rightarrow> (case dget d k of None \<Rightarrow> Inl (PyExc ''KeyError'' (py_repr k)) | Some x \<Rightarrow> Inr x))"

definition first_event :: "dict list \<Rightarrow> exn + dict" where
  "first_event events =
     (case events of [] \<Rightarrow> Inl (PyExc ''IndexError'' ''tuple index out of range'') | e # es \<Rightarrow> Inr e)"

text \<open>\<open>effective_controller["model"] or events[0]["payload"]["request"]["model"]\<close>\<close>

definition effective_model :: "py \<Rightarrow> dict list \<Rightarrow> exn + py" where
  "effective_model controller events =
     ebind (subscript controller ''model'') (\<lambda>m.
       if truthy m then Inr m
       else ebind (first_event events) (\<lambda>e.
            ebind (subscript (PDict e) ''payload'') (\<lambda>payload.
            ebind (subscript payload ''request'') (\<lambda>request. subscript request ''model''))))"

definition check_manifest :: "dict \<Rightarrow> dict list \<Rightarrow> run_attestation \<Rightarrow> exn + unit" where
  "check_manifest m events a =
     ebind (subscript (PDict m) ''status'') (\<lambda>status.
     ebind (require (py_eq status (PStr ''completed'')) ''successful attestation requires a completed trace'') (\<lambda>_.
     ebind (subscript (PDict m) ''run_id'') (\<lambda>run_id.
     ebind (require (py_eq run_id (PStr (at_run_id a))) ''attestation run ID disagrees with trace'') (\<lambda>_.
     ebind (subscript (PDict m) ''harness_fingerprint'') (\<lambda>f.
     ebind (require (py_eq f (PStr (at_harness_fingerprint a))) ''attestation harness fingerprint disagrees with trace'') (\<lambda>_.
     ebind (subscript (PDict m) ''stop_reason'') (\<lambda>reason.
     ebind (require (py_eq reason (PStr (at_stop_reason a))) ''attestation stop reason disagrees with trace'') (\<lambda>_.
     ebind (subscript (PDict m) ''turns'') (\<lambda>turns.
     ebind (require (py_eq turns (PInt (at_turns a))) ''attestation turns disagree with trace'') (\<lambda>_.
     ebind (subscript (PDict m) ''duration_seconds'') (\<lambda>duration.
     ebind (if \<not> py_eq duration (PFloat (Fin (at_duration a))) then Inr False
            else ebind (canonical_duration_seconds duration) (\<lambda>c. Inr (py_eq duration (PFloat (Fin c))))) (\<lambda>same.
     ebind (require same ''attestation duration disagrees with canonical trace duration'') (\<lambda>_.
     ebind (subscript (PDict m) ''usage'') (\<lambda>stats.
     ebind (subscript stats ''usage'') (\<lambda>usage.
     ebind (require (py_eq usage (PDict (usage_to_dict (at_usage a)))) ''attestation usage disagrees with complete trace usage'') (\<lambda>_.
     ebind (subscript (PDict m) ''effective_config'') (\<lambda>config.
     ebind (subscript config ''controller'') (\<lambda>controller.
     ebind (effective_model controller events) (\<lambda>model.
     ebind (require (py_eq model (PStr (ci_model (at_identity a)))) ''attestation controller model disagrees with trace'') (\<lambda>_.
     ebind (subscript controller ''options'') (\<lambda>options.
     ebind (sha_value options) (\<lambda>sha.
       require (ci_options_sha256 (at_identity a) = sha) ''attestation controller options disagree with trace''))))))))))))))))))))))"

definition check_terminal :: "dict list \<Rightarrow> py \<Rightarrow> exn + unit" where
  "check_terminal events response =
     (if events = [] then Inl (PyExc ''IndexError'' ''tuple index out of range'')
      else ebind (subscript (PDict (last events)) ''type'') (\<lambda>kind.
           ebind (if \<not> py_eq kind (PStr ''run.completed'') then Inr False
                  else ebind (subscript (PDict (last events)) ''payload'') (\<lambda>payload.
                       ebind (subscript payload ''response'') (\<lambda>r. Inr (py_eq r response)))) (\<lambda>same.
             require same ''trace terminal response disagrees with successful response'')))"

definition same_artifact :: "trace_artifact \<Rightarrow> trace_artifact \<Rightarrow> bool" where
  "same_artifact loaded trace \<longleftrightarrow>
     py_eq (PDict (ta_manifest loaded)) (PDict (ta_manifest trace))
     \<and> list_all2 (\<lambda>e f. py_eq (PDict e) (PDict f)) (ta_events loaded) (ta_events trace)
     \<and> ta_manifest_sha256 loaded = ta_manifest_sha256 trace \<and> ta_jsonl_sha256 loaded = ta_jsonl_sha256 trace"

definition validate_run_artifacts ::
  "(string \<Rightarrow> string \<Rightarrow> exn + string) \<Rightarrow> py \<Rightarrow> run_attestation \<Rightarrow> trace_artifact \<Rightarrow> exn + unit" where
  "validate_run_artifacts files response a trace =
     (case validate_terminal_response response of
        Some e \<Rightarrow> Inl (TraceErr (''terminal response is invalid: '' @ e))
      | None \<Rightarrow>
          ebind (load_trace (files (ta_directory trace)) (ta_directory trace) (Some (at_run_id a))) (\<lambda>loaded.
          ebind (require (same_artifact loaded trace) ''trace artifact snapshot disagrees with its exact directory bytes'') (\<lambda>_.
          ebind (check_manifest (ta_manifest loaded) (ta_events loaded) a) (\<lambda>_.
            check_terminal (ta_events loaded) response))))"

section \<open>A trace supports one attestation\<close>

lemma py_eq_PStr [simp]: "py_eq v (PStr s) \<longleftrightarrow> v = PStr s"
  by (cases v) auto

lemma py_eq_int: "py_eq v (PInt m) \<Longrightarrow> py_eq v (PInt n) \<Longrightarrow> m = n"
  by (cases v) auto

lemma py_eq_fin: "py_eq v (PFloat (Fin q)) \<Longrightarrow> py_eq v (PFloat (Fin r)) \<Longrightarrow> q = r"
  by (cases v) auto

lemma subscript_Inr: "subscript v k = Inr x \<longleftrightarrow> (\<exists>d. v = PDict d \<and> dget d k = Some x)"
  by (cases v) (auto simp: subscript_def split: option.split)

text \<open>A dictionary with distinct keys that equals another has the other's keys.\<close>

lemma py_eq_dict_get:
  assumes eq: "py_eq (PDict d) (PDict e)" and "distinct (keys d)" "distinct (keys e)" "dget e k = Some w"
  shows "\<exists>v. dget d k = Some v \<and> py_eq v w"
proof -
  have p: "\<exists>w. dget e (fst p) = Some w \<and> py_eq (snd p) w" if "p \<in> set d" for p
    using eq that by (auto simp: list_all_iff split: option.split_asm)
  then have "set (keys d) \<subseteq> set (keys e)" by (force dest: map_of_SomeD)
  moreover have "card (set (keys d)) = card (set (keys e))"
    using eq assms(2,3) by (simp add: distinct_card del: set_map)
  ultimately have "set (keys d) = set (keys e)" by (simp add: card_subset_eq)
  moreover have "k \<in> set (keys e)" using assms(4) by (force dest: map_of_SomeD)
  ultimately have "k \<in> set (keys d)" by simp
  then obtain v where v: "(k, v) \<in> set d" by auto
  then have "dget d k = Some v" using assms(2) by simp
  then show ?thesis using p [OF v] assms(4) by simp
qed

lemma py_eq_usage:
  assumes "py_eq v (PDict (usage_to_dict a))" "py_eq v (PDict (usage_to_dict b))" "wf_py v"
  shows "a = b"
proof -
  obtain d where v: "v = PDict d" "distinct (keys d)" using assms(1,3) by (cases v) auto
  have get: "\<exists>x. dget d k = Some x \<and> py_eq x (PInt n) \<and> py_eq x (PInt m)"
    if "dget (usage_to_dict a) k = Some (PInt n)" "dget (usage_to_dict b) k = Some (PInt m)" for k m n
  proof -
    have dist: "distinct (keys (usage_to_dict u))" for u by (simp add: usage_to_dict_def)
    show ?thesis
      using py_eq_dict_get [OF assms(1) [unfolded v(1)] v(2) dist that(1)]
        py_eq_dict_get [OF assms(2) [unfolded v(1)] v(2) dist that(2)] by auto
  qed
  have "input_tokens a = input_tokens b" using get [of "''input_tokens''"] py_eq_int by (fastforce simp: usage_to_dict_def)
  moreover have "output_tokens a = output_tokens b" using get [of "''output_tokens''"] py_eq_int by (fastforce simp: usage_to_dict_def)
  moreover have "calls a = calls b" using get [of "''calls''"] py_eq_int by (fastforce simp: usage_to_dict_def)
  moreover have "unreported_calls a = unreported_calls b"
    using get [of "''unreported_calls''"] py_eq_int by (fastforce simp: usage_to_dict_def)
  ultimately show ?thesis by (cases a, cases b) simp
qed

lemma check_manifest_Inr:
  assumes "check_manifest m evs a = Inr ()"
  obtains turns duration st usage cf ct opts where
    "dget m ''run_id'' = Some (PStr (at_run_id a))"
    "dget m ''harness_fingerprint'' = Some (PStr (at_harness_fingerprint a))"
    "dget m ''stop_reason'' = Some (PStr (at_stop_reason a))"
    "dget m ''turns'' = Some turns" "py_eq turns (PInt (at_turns a))"
    "dget m ''duration_seconds'' = Some duration" "py_eq duration (PFloat (Fin (at_duration a)))"
    "dget m ''usage'' = Some (PDict st)" "dget st ''usage'' = Some usage" "py_eq usage (PDict (usage_to_dict (at_usage a)))"
    "dget m ''effective_config'' = Some (PDict cf)" "dget cf ''controller'' = Some (PDict ct)"
    "effective_model (PDict ct) evs = Inr (PStr (ci_model (at_identity a)))"
    "dget ct ''options'' = Some opts" "sha_value opts = Inr (ci_options_sha256 (at_identity a))"
  using assms
  by (auto simp: check_manifest_def ebind_eq_Inr subscript_Inr split: if_split_asm)

lemma check_manifest_unique:
  assumes a: "check_manifest m evs a = Inr ()" and b: "check_manifest m evs b = Inr ()" and wf: "wf_py (PDict m)"
  shows "a = b"
proof -
  have wf_get: "wf_py v" if "dget d k = Some v" "wf_py (PDict d)" for d k v
    using that by (auto simp: list_all_iff dest!: map_of_SomeD)
  from a show ?thesis
  proof (rule check_manifest_Inr)
    fix turns duration st usage cf ct opts
    assume A: "dget m ''run_id'' = Some (PStr (at_run_id a))"
      "dget m ''harness_fingerprint'' = Some (PStr (at_harness_fingerprint a))"
      "dget m ''stop_reason'' = Some (PStr (at_stop_reason a))"
      "dget m ''turns'' = Some turns" "py_eq turns (PInt (at_turns a))"
      "dget m ''duration_seconds'' = Some duration" "py_eq duration (PFloat (Fin (at_duration a)))"
      "dget m ''usage'' = Some (PDict st)" "dget st ''usage'' = Some usage" "py_eq usage (PDict (usage_to_dict (at_usage a)))"
      "dget m ''effective_config'' = Some (PDict cf)" "dget cf ''controller'' = Some (PDict ct)"
      "effective_model (PDict ct) evs = Inr (PStr (ci_model (at_identity a)))"
      "dget ct ''options'' = Some opts" "sha_value opts = Inr (ci_options_sha256 (at_identity a))"
    have u: "wf_py usage" using wf_get [OF A(9) wf_get [OF A(8) wf]] .
    from b show ?thesis
    proof (rule check_manifest_Inr)
      fix turns' duration' st' usage' cf' ct' opts'
      assume B: "dget m ''run_id'' = Some (PStr (at_run_id b))"
        "dget m ''harness_fingerprint'' = Some (PStr (at_harness_fingerprint b))"
        "dget m ''stop_reason'' = Some (PStr (at_stop_reason b))"
        "dget m ''turns'' = Some turns'" "py_eq turns' (PInt (at_turns b))"
        "dget m ''duration_seconds'' = Some duration'" "py_eq duration' (PFloat (Fin (at_duration b)))"
        "dget m ''usage'' = Some (PDict st')" "dget st' ''usage'' = Some usage'" "py_eq usage' (PDict (usage_to_dict (at_usage b)))"
        "dget m ''effective_config'' = Some (PDict cf')" "dget cf' ''controller'' = Some (PDict ct')"
        "effective_model (PDict ct') evs = Inr (PStr (ci_model (at_identity b)))"
        "dget ct' ''options'' = Some opts'" "sha_value opts' = Inr (ci_options_sha256 (at_identity b))"
      have "at_turns a = at_turns b" using A(4,5) B(4,5) py_eq_int by simp
      moreover have "at_duration a = at_duration b" using A(6,7) B(6,7) py_eq_fin by simp
      moreover have "at_usage a = at_usage b" using A(8-10) B(8-10) py_eq_usage [OF _ _ u] by simp
      moreover have "at_identity a = at_identity b"
        using A(11-15) B(11-15) by (cases "at_identity a", cases "at_identity b") simp
      ultimately show ?thesis using A(1-3) B(1-3) by (cases a, cases b) simp
    qed
  qed
qed

lemma load_trace_determined:
  assumes "load_trace files directory x = Inr l" "load_trace files directory y = Inr l'"
  shows "l = l'" "wf_py (PDict (ta_manifest l))"
proof -
  show "l = l'"
    using assms by (auto simp: load_trace_def ebind_eq_Inr split: if_split_asm sum.split_asm)
  have returned: "r = Inr ()" if "\<forall>e. r \<noteq> Inl e" for r :: "exn + unit"
    using that by (cases r) auto
  obtain tx where "decode_manifest tx = Inr (ta_manifest l)"
    using assms(1) returned by (auto simp: load_trace_def ebind_eq_Inr split: if_split_asm sum.split_asm)
  then obtain v where "loads tx = Inr v" "as_dict v = Some (ta_manifest l)"
    by (auto simp: decode_manifest_def split: sum.split_asm option.split_asm)
  then have "strict_json_loads tx = Inr (PDict (ta_manifest l))"
    by (cases v) (auto simp: loads_def split: sum.split_asm)
  from strict_json_loads_wf [OF this] show "wf_py (PDict (ta_manifest l))" unfolding wf_json_def by (rule conjunct1)
qed

text \<open>C1: a trace supports one attestation and one response: of all attestations and responses a caller may present with
  the same trace, \<open>validate_run_artifacts\<close> accepts at most one attestation, and only responses equal to the one the
  trace recorded.\<close>

theorem artifacts_bind_attestation:
  "\<exists>b v. {(response, a). validate_run_artifacts files response a trace = Inr ()} \<subseteq> {response. py_eq v response} \<times> {b}"
proof (cases "\<exists>response a. validate_run_artifacts files response a trace = Inr ()")
  case True
  have accepted: "\<exists>l. load_trace (files (ta_directory trace)) (ta_directory trace) (Some (at_run_id a)) = Inr l
      \<and> check_manifest (ta_manifest l) (ta_events l) a = Inr () \<and> check_terminal (ta_events l) response = Inr ()"
    if ok: "validate_run_artifacts files response a trace = Inr ()" for response a
    using ok by (auto simp: validate_run_artifacts_def ebind_eq_Inr split: option.split_asm)
  obtain r b where rb: "validate_run_artifacts files r b trace = Inr ()" using True by blast
  obtain l where l: "load_trace (files (ta_directory trace)) (ta_directory trace) (Some (at_run_id b)) = Inr l"
    "check_manifest (ta_manifest l) (ta_events l) b = Inr ()" "check_terminal (ta_events l) r = Inr ()"
    using accepted [OF rb] by blast
  have terminal: "\<exists>v. \<forall>r. check_terminal evs r = Inr () \<longrightarrow> py_eq v r" for evs
  proof -
    have "py_eq (the (dget (case pget (last evs) ''payload'' of PDict p \<Rightarrow> p | _ \<Rightarrow> []) ''response'')) r"
      if "check_terminal evs r = Inr ()" for r
      using that by (auto simp: check_terminal_def ebind_eq_Inr subscript_Inr pget_def split: if_split_asm)
    then show ?thesis by blast
  qed
  obtain v where v: "\<And>r. check_terminal (ta_events l) r = Inr () \<Longrightarrow> py_eq v r" using terminal by blast
  have "a = b \<and> py_eq v response" if ok: "validate_run_artifacts files response a trace = Inr ()" for response a
  proof -
    obtain l' where l': "load_trace (files (ta_directory trace)) (ta_directory trace) (Some (at_run_id a)) = Inr l'"
      "check_manifest (ta_manifest l') (ta_events l') a = Inr ()" "check_terminal (ta_events l') response = Inr ()"
      using accepted [OF ok] by blast
    have "l' = l" by (rule load_trace_determined(1) [OF l'(1) l(1)])
    then show ?thesis
      using check_manifest_unique [OF l'(2) _ load_trace_determined(2) [OF l'(1) l(1)]] l(2) v [OF l'(3) [unfolded \<open>l' = l\<close>]]
      by blast
  qed
  then show ?thesis by (intro exI [of _ b] exI [of _ v]) auto
qed auto

end
