(* ===== verification/Run_Attested.thy ===== *)
theory Run_Attested
  imports Run_Artifacts Engine_Trace Engine_Results
begin

text \<open>
  The engine's result and its trace agree: what a returned run attests is what its manifest and its events say,
  as \<open>validate_run_artifacts\<close> compares them.
\<close>

section \<open>What the operations of the engine keep\<close>

text \<open>
  An order on run states that looks only at the sink and at the variables of \<open>run\<close>, and that recording an event
  keeps; and one that also lets the turn be noted.
\<close>

locale run_order = state_order R for R :: "'w run_state \<Rightarrow> 'w run_state \<Rightarrow> bool" +
  fixes env :: "'w environment"
  assumes quiet: "st_sink t = st_sink s \<Longrightarrow> st_error t = st_error s \<Longrightarrow> st_completed t = st_completed s
      \<Longrightarrow> st_turns t = st_turns s \<Longrightarrow> st_stop_reason t = st_stop_reason s \<Longrightarrow> R s t"
    and emits: "keeps R (emit env p b d q)"
begin

lemma keeps_outside: "keeps R (outside f)"
  unfolding keeps_def by (auto simp: outside_def split: prod.split intro: quiet)

lemma keeps_outside_call: "keeps R (outside_call f)"
  unfolding keeps_def by (auto simp: outside_call_def split: prod.split intro: quiet)

lemma keeps_on_ledger: "keeps R (on_ledger f)"
  unfolding keeps_def by (auto simp: on_ledger_def split: prod.split intro: quiet)

lemma keeps_ledger_op: "keeps R (ledger_op env f)"
  unfolding ledger_op_def by (intro keeps_intros keeps_outside keeps_on_ledger)

lemmas keeps_basic = keeps_intros keeps_outside keeps_outside_call keeps_on_ledger keeps_ledger_op emits

lemma keeps_check: "keeps R (ledger_check env)"
  unfolding ledger_check_def by (rule keeps_ledger_op)

lemma keeps_timeout: "keeps R (ledger_timeout env cap)"
  unfolding ledger_timeout_def by (rule keeps_ledger_op)

lemma keeps_remaining: "keeps R (remaining_action_timeout env d)"
  unfolding remaining_action_timeout_def by (intro keeps_basic)

lemma keeps_cap: "keeps R (action_timeout_cap env cap d)"
  unfolding action_timeout_cap_def by (intro keeps_basic keeps_remaining)

lemma keeps_check_action: "keeps R (check_action_deadline env d)"
  unfolding check_action_deadline_def by (intro keeps_basic keeps_remaining)

lemma keeps_model_slot: "keeps R body \<Longrightarrow> keeps R (model_slot env body)"
  unfolding model_slot_def by (intro keeps_basic keeps_check)

lemmas keeps_operations = keeps_basic keeps_check keeps_timeout keeps_remaining keeps_cap keeps_check_action keeps_model_slot

lemma keeps_model_failed: "keeps R (model_failed env context b depth started parent e)"
  unfolding model_failed_def by (intro keeps_operations)

lemma keeps_obtain: "keeps R (obtain_response env backend q context b depth re started d)"
  unfolding obtain_response_def by (intro keeps_operations)

lemma keeps_settle: "keeps R (settle_response env response d)"
  unfolding settle_response_def by (intro keeps_operations)

lemma keeps_call_model: "keeps R (call_model env backend q run_id b depth parent role d)"
  unfolding call_model_def Let_def
  by (auto intro!: keeps_operations keeps_obtain keeps_settle keeps_model_failed split: prod.split)

end

locale branch_order = run_order R env for R :: "'w run_state \<Rightarrow> 'w run_state \<Rightarrow> bool" and env :: "'w environment" +
  assumes noted: "keeps R (note_turn depth turn)"
begin

lemma keeps_repair: "keeps R (repair env config fault x turn cv causal b depth)"
  unfolding repair_def by (auto intro!: keeps_operations split: recovery_decision.split)

lemma keeps_recover: "keeps R (recover env config fault x turn cv causal b depth)"
  unfolding recover_def by (auto intro!: keeps_operations keeps_repair split: prod.split)

lemma keeps_submitted: "keeps R (submitted_final env q x b depth parent turn)"
  unfolding submitted_final_def
  by (auto intro!: keeps_operations split: prod.split option.split submission.split)

lemma keeps_after: "keeps R (after_execution env config q x turn cv ev b depth)"
  unfolding after_execution_def
  by (auto intro!: keeps_operations keeps_recover keeps_submitted split: prod.split option.split sum.split exn.split)

lemma keeps_settle_children: "(\<And>v. keeps R (f v)) \<Longrightarrow> keeps R (settle_children f vs)"
proof (induction vs)
  case Nil
  then show ?case by (simp add: keeps_ret)
next
  case (Cons v vs)
  have rest: "keeps R (andthen (settle_children f vs) (\<lambda>rs. ret (r # rs)))" for r
    by (intro keeps_intros Cons)
  show ?case
    unfolding keeps_def
  proof
    fix s
    obtain t r where t: "f v s = (t, r)" by (cases "f v s")
    have "R s t" using keepsD [OF Cons.prems t] .
    moreover have "R t (fst (andthen (settle_children f vs) (\<lambda>rs. ret (q # rs)) t))" for q
      using rest by (simp add: keeps_def)
    ultimately show "R s (fst (settle_children f (v # vs) s))"
      using t trans by (auto split: sum.split)
  qed
qed

lemma keeps_run_cell: "(\<And>op p t. keeps R (h op p t)) \<Longrightarrow> keeps R (run_cell h c)"
proof (induction c)
  case (CellDone r)
  then show ?case by (simp add: keeps_lift)
next
  case (CellCall op p t k)
  show ?case
    unfolding keeps_def
  proof
    fix s
    obtain u r where u: "h op p t s = (u, r)" by (cases "h op p t s")
    have "R s u" using keepsD [OF CellCall.prems u] .
    moreover have "R u (fst (run_cell h (k r) u))"
      using CellCall.IH [of "k r"] CellCall.prems by (auto simp: keeps_def)
    ultimately show "R s (fst (run_cell h (CellCall op p t k) s))"
      using u trans by auto
  qed
qed

definition careful :: "'w branch_runner \<Rightarrow> bool" where
  "careful child \<longleftrightarrow> (\<forall>q n b p d. keeps R (child q n b p d))"

lemma keeps_handle:
  assumes "careful child"
  shows "keeps R (handle_action env rx child q depth b p d op payload)"
proof -
  have one: "keeps R (complete_one env rx depth b p d role body)" for role body
    unfolding complete_one_def by (auto intro!: keeps_operations keeps_call_model split: prod.split)
  have rec: "keeps R (run_child env child depth p d body)" for body
    unfolding run_child_def by (intro keeps_operations assms [unfolded careful_def, rule_format])
  have batch: "keeps R (parallel_map f vs)" if "\<And>v. keeps R (f v)" for f :: "'x \<Rightarrow> ('w run_state, 'y) act" and vs
    unfolding parallel_map_def by (intro keeps_operations keeps_settle_children that)
  show ?thesis
    unfolding handle_action_def
    by (cases op; cases payload)
       (simp_all only: prod.case host_operation.case host_payload.case, (intro keeps_operations batch one rec)+)
qed

lemma keeps_turn:
  assumes "careful child"
  shows "keeps R (run_turn env rx child q ex depth b d turn cv p)"
proof -
  have handler: "keeps R (turn_handler env rx child q depth b ev op pl t)" for ev op pl t
    unfolding turn_handler_def by (intro keeps_operations keeps_handle assms)
  have exec: "keeps R (execute_action env rx child q ex depth b d src ev)" for src ev
    unfolding execute_action_def by (intro keeps_operations keeps_run_cell handler)
  show ?thesis
    unfolding run_turn_def Let_def
    by (auto intro!: keeps_operations noted keeps_call_model keeps_recover exec keeps_after
        split: prod.split sum.split exn.split)
qed

lemma keeps_turns: "careful child \<Longrightarrow> keeps R (run_turns env rx child q ex depth b d n turn cv p)"
proof (induction n arbitrary: turn cv p)
  case 0
  then show ?case by (simp add: keeps_ret)
next
  case (Suc n)
  show ?case
    unfolding run_turns.simps by (auto intro!: keeps_operations keeps_turn Suc split: turn_outcome.split)
qed

lemma careful_branch:
  assumes "careful child"
  shows "careful (branch env rx child)"
proof -
  have exec: "keeps R (with_executor env ex m)" if "keeps R m" for ex and m :: "('w run_state, 'b) act"
    unfolding with_executor_def by (intro keeps_operations that)
  show ?thesis
    unfolding careful_def branch_def Let_def
    by (auto intro!: keeps_operations exec keeps_turns assms split: option.split)
qed

lemma careful_run_branch: "careful (run_branch env rx)"
proof -
  have "careful (branch_levels env rx n)" for n
  proof (induction n)
    case 0
    then show ?case by (simp add: careful_branch careful_def [of "\<lambda>_ _ _ _ _. raise e" for e] keeps_raise)
  next
    case (Suc n)
    then show ?case by (simp add: careful_branch)
  qed
  then show ?thesis by (simp add: careful_def run_branch_def)
qed

lemma keeps_run_branch: "keeps R (run_branch env rx q n b p d)"
  using careful_run_branch by (simp add: careful_def)

end

section \<open>A run that has begun\<close>

text \<open>The events so far start with \<open>run.started\<close> for the request.\<close>

definition opened_by :: "dict \<Rightarrow> dict list \<Rightarrow> bool" where
  "opened_by q evs \<longleftrightarrow> (\<exists>e es p. evs = e # es \<and> subscript (PDict e) ''payload'' = Inr (PDict p)
     \<and> subscript (PDict p) ''request'' = Inr (PDict q))"

definition begun :: "dict \<Rightarrow> 'w run_state \<Rightarrow> bool" where
  "begun q s \<longleftrightarrow> (\<forall>rc. st_sink s = Recorder rc \<longrightarrow> (\<exists>evs. recorded rc evs \<and> opened_by q evs))"

definition same_verdict :: "dict \<Rightarrow> 'w run_state \<Rightarrow> 'w run_state \<Rightarrow> bool" where
  "same_verdict q s t \<longleftrightarrow> (begun q s \<longrightarrow> begun q t) \<and> st_error t = st_error s \<and> st_completed t = st_completed s"

definition same_outcome :: "dict \<Rightarrow> 'w run_state \<Rightarrow> 'w run_state \<Rightarrow> bool" where
  "same_outcome q s t \<longleftrightarrow> same_verdict q s t \<and> st_turns t = st_turns s \<and> st_stop_reason t = st_stop_reason s"

lemma begun_sink: "st_sink t = st_sink s \<Longrightarrow> begun q t = begun q s"
  unfolding begun_def by metis

lemma opened_by_append: "opened_by q evs \<Longrightarrow> opened_by q (evs @ new)"
  by (auto simp: opened_by_def)

lemma emit_state:
  assumes "emit env p b d parent s = (t, r)"
  obtains now written u where "sink_event (st_sink s) p b d parent now written = (st_sink t, r)"
    "t = s\<lparr>st_sink := st_sink t, st_world := u\<rparr>" "\<exists>w. written = fst (env_io env w)"
proof -
  obtain now w1 where now: "env_time env (st_world s) = (now, w1)" by (cases "env_time env (st_world s)")
  obtain wr w2 where wr: "env_io env w1 = (wr, w2)" by (cases "env_io env w1")
  show ?thesis
    by (rule that [of now wr w2])
       (use assms now wr in \<open>auto simp: emit_def andthen_def outside_def split: prod.split_asm intro: exI [of _ w1]\<close>)
qed

lemma tidied_io: "io_wrote (fst (env_io (tidied env) w)) \<Longrightarrow> fst (env_io (tidied env) w) = IoOk"
  by (rule tidied.tidy)

lemma emit_same_outcome: "keeps (same_outcome q) (emit (tidied env) p b d parent)"
  unfolding keeps_def
proof
  fix s :: "'a run_state"
  obtain t r where t: "emit (tidied env) p b d parent s = (t, r)" by fastforce
  from emit_state [OF t] obtain now written u where ev: "sink_event (st_sink s) p b d parent now written = (st_sink t, r)"
    "t = s\<lparr>st_sink := st_sink t, st_world := u\<rparr>" and io: "\<exists>w. written = fst (env_io (tidied env) w)" by blast
  have tidy: "written = IoOk" if "io_wrote written" using io that tidied_io by auto
  have "begun q t" if b: "begun q s"
    unfolding begun_def
  proof (intro allI impI)
    fix rc' assume rc': "st_sink t = Recorder rc'"
    then obtain rc res where rc: "st_sink s = Recorder rc" "record_event rc p b d parent now written = (rc', res)"
      using ev(1) by (cases "st_sink s") (auto split: prod.split_asm)
    then obtain evs where evs: "recorded rc evs" "opened_by q evs" using b by (auto simp: begun_def)
    show "\<exists>evs. recorded rc' evs \<and> opened_by q evs"
      using record_event_recorded [OF rc(2) evs(1) tidy] opened_by_append [OF evs(2)] by blast
  qed
  moreover have "st_error t = st_error s \<and> st_completed t = st_completed s \<and> st_turns t = st_turns s
      \<and> st_stop_reason t = st_stop_reason s" by (subst ev(2), simp)+
  ultimately show "same_outcome q s (fst (emit (tidied env) p b d parent s))"
    by (simp add: t same_outcome_def same_verdict_def)
qed

interpretation outcome: run_order "same_outcome q" "tidied env" for q and env :: "'w environment"
proof
  show "same_outcome q s s" for s :: "'w run_state" by (simp add: same_outcome_def same_verdict_def)
  show "same_outcome q s u" if "same_outcome q s t" "same_outcome q t u" for s t u :: "'w run_state"
    using that by (auto simp: same_outcome_def same_verdict_def)
qed (auto simp: same_outcome_def same_verdict_def begun_def emit_same_outcome)

interpretation verdict: branch_order "same_verdict q" "tidied env" for q and env :: "'w environment"
proof
  show "same_verdict q s s" for s :: "'w run_state" by (simp add: same_verdict_def)
  show "same_verdict q s u" if "same_verdict q s t" "same_verdict q t u" for s t u :: "'w run_state"
    using that by (auto simp: same_verdict_def)
  show "keeps (same_verdict q) (emit (tidied env) p b d parent)" for p b d parent
    using emit_same_outcome [of q env p b d parent] by (simp add: keeps_def same_outcome_def)
qed (auto simp: same_verdict_def begun_def keeps_def note_turn_def)

section \<open>A run that has ended\<close>

text \<open>
  After the body: the result's metadata is that of the state, and the last event is the completion.
\<close>

definition completed_by :: "string \<Rightarrow> dict \<Rightarrow> dict \<Rightarrow> dict list \<Rightarrow> bool" where
  "completed_by reason response q evs \<longleftrightarrow> opened_by q evs
     \<and> pget (last evs) ''type'' = PStr ''run.completed''
     \<and> pget (last evs) ''payload'' = PDict [(''stop_reason'', PStr reason), (''response'', PDict response)]"

definition completed_in :: "string \<Rightarrow> dict \<Rightarrow> dict \<Rightarrow> trace_sink \<Rightarrow> bool" where
  "completed_in reason response q sink \<longleftrightarrow>
     (\<forall>rc. sink = Recorder rc \<longrightarrow> \<not> rc_closed rc \<and> (\<exists>evs. recorded rc evs \<and> completed_by reason response q evs))"

definition proper_identity :: "controller_run_identity \<Rightarrow> bool" where
  "proper_identity i \<longleftrightarrow> mk_controller_run_identity (ci_model i) (ci_options_sha256 i) = Inr i"

definition body_done :: "run_opening \<Rightarrow> run_result \<Rightarrow> 'w run_state \<Rightarrow> bool" where
  "body_done ro res st \<longleftrightarrow>
     st_error st = None \<and> st_completed st = Some (rr_duration res) \<and> st_turns st = rr_turns res
     \<and> rr_usage res = snapshot (st_ledger st) \<and> rr_run_id res = rx_run_id (ro_context ro)
     \<and> canonical_duration_seconds (PFloat (Fin (rr_duration res))) = Inr (rr_duration res)
     \<and> fingerprint (cfg_harness (rx_config (ro_context ro))) = Inr (rr_harness_fingerprint res)
     \<and> sha_value (PDict (cc_options (cfg_controller (rx_config (ro_context ro))))) = Inr (ci_options_sha256 (rr_identity res))
     \<and> ci_model (rr_identity res) = controller_model_of (rx_config (ro_context ro)) (ro_request ro)
     \<and> proper_identity (rr_identity res)
     \<and> completed_in (rr_stop_reason res) (rr_response res) (ro_request ro) (st_sink st)"

lemma body_done_error: "body_done ro res st \<Longrightarrow> st_error st = None"
  by (simp add: body_done_def)

text \<open>The completion event is recorded.\<close>

lemma emit_completed:
  assumes "emit (tidied env) (RunCompletedPayload reason response) b d parent s = (t, Inr i)" "begun q s"
  shows "same_outcome q s t \<and> completed_in reason response q (st_sink t)"
proof -
  have same: "same_outcome q s t" using keepsD [OF emit_same_outcome assms(1)] .
  from emit_state [OF assms(1)] obtain now written u where
    ev: "sink_event (st_sink s) (RunCompletedPayload reason response) b d parent now written = (st_sink t, Inr i)"
    and io: "\<exists>w. written = fst (env_io (tidied env) w)" by blast
  have tidy: "written = IoOk" if "io_wrote written" using io that tidied_io by auto
  have "\<not> rc_closed rc' \<and> (\<exists>evs. recorded rc' evs \<and> completed_by reason response q evs)"
    if rc': "st_sink t = Recorder rc'" for rc'
  proof -
    obtain rc k where rc: "st_sink s = Recorder rc"
      "record_event rc (RunCompletedPayload reason response) b d parent now written = (rc', Inr k)"
      using ev rc' by (cases "st_sink s") (auto simp: ebind_eq_Inr split: prod.split_asm)
    then obtain evs where evs: "recorded rc evs" "opened_by q evs" using assms(2) by (auto simp: begun_def)
    have open': "\<not> rc_closed rc" using rc(2) by (auto simp: record_event_def)
    obtain e line where built: "build_event rc (RunCompletedPayload reason response) b d parent now = Inr (e, line)"
      using rc(2) open' by (auto simp: record_event_def split: sum.split_asm)
    have "pget e ''type'' = PStr ''run.completed''"
      "pget e ''payload'' = PDict [(''stop_reason'', PStr reason), (''response'', PDict response)]"
      using built by (auto simp: build_event_def ebind_eq_Inr Let_def event_to_dict_def pget_def
          split: if_split_asm option.split_asm)
    moreover have "recorded rc' (evs @ [e])" "rc_closed rc' = rc_closed rc"
      using rc(2) open' built build_event_Inr [OF built evs(1)] evs(1) tidy
      by (cases written; auto simp: record_event_def Let_def recorded_def nth_append less_Suc_eq)+
    ultimately show ?thesis
      using open' opened_by_append [OF evs(2), of "[e]"] by (auto simp: completed_by_def)
  qed
  then show ?thesis using same by (simp add: completed_in_def)
qed

lemma finish_run_done:
  assumes "finish_run env ro response reason n s = (t, Inr res)" "st_error s = None" "st_turns s = n"
    and sink: "completed_in reason response (ro_request ro) (st_sink s)"
  shows "body_done ro res t \<and> rr_stop_reason res = reason \<and> st_stop_reason t = st_stop_reason s"
proof -
  obtain now w where now: "env_clock env (st_world s) = (now, w)" by (cases "env_clock env (st_world s)")
  let ?config = "rx_config (ro_context ro)"
  obtain duration where d: "canonical_duration_seconds (PFloat (Fin (now - ro_started ro))) = Inr duration"
    using assms(1) now
    by (cases "canonical_duration_seconds (PFloat (Fin (now - ro_started ro)))")
       (auto simp: finish_run_def Let_def andthen_def outside_def lift_def)
  have run: "t = s\<lparr>st_world := w, st_completed := Some duration\<rparr>"
    "ebind (sha_value (PDict (cc_options (cfg_controller ?config)))) (\<lambda>sha.
        ebind (mk_controller_run_identity (controller_model_of ?config (ro_request ro)) sha) (\<lambda>identity.
        ebind (fingerprint (cfg_harness ?config)) (\<lambda>f.
          mk_run_result
            \<lparr>rr_response = response, rr_run_id = rx_run_id (ro_context ro), rr_stop_reason = reason,
             rr_usage = snapshot (st_ledger s), rr_turns = n, rr_duration = duration,
             rr_identity = identity, rr_harness_fingerprint = f,
             rr_trace_directory = sink_directory (st_sink s)\<rparr>))) = Inr res"
    using assms(1) now d by (simp_all add: finish_run_def Let_def andthen_def outside_def lift_def read_state_def)
  have c: "canonical_duration_seconds (PFloat (Fin duration)) = Inr duration"
    by (rule canonical_duration_idem [OF d])
  obtain sha identity f where made: "sha_value (PDict (cc_options (cfg_controller ?config))) = Inr sha"
    "mk_controller_run_identity (controller_model_of ?config (ro_request ro)) sha = Inr identity"
    "fingerprint (cfg_harness ?config) = Inr f"
    "mk_run_result
            \<lparr>rr_response = response, rr_run_id = rx_run_id (ro_context ro), rr_stop_reason = reason,
             rr_usage = snapshot (st_ledger s), rr_turns = n, rr_duration = duration,
             rr_identity = identity, rr_harness_fingerprint = f,
             rr_trace_directory = sink_directory (st_sink s)\<rparr> = Inr res"
    using run(2) by (auto simp: ebind_eq_Inr)
  have res: "res = \<lparr>rr_response = response, rr_run_id = rx_run_id (ro_context ro), rr_stop_reason = reason,
             rr_usage = snapshot (st_ledger s), rr_turns = n, rr_duration = duration,
             rr_identity = identity, rr_harness_fingerprint = f, rr_trace_directory = sink_directory (st_sink s)\<rparr>"
    using made(4) by (auto simp: mk_run_result_def c split: if_split_asm)
  have identity: "ci_model identity = controller_model_of ?config (ro_request ro)" "ci_options_sha256 identity = sha"
    using made(2) by (auto simp: mk_controller_run_identity_def split: if_split_asm)
  have "proper_identity identity" by (simp add: proper_identity_def identity made(2))
  then show ?thesis
    unfolding body_done_def res run(1) using sink by (simp add: assms(2,3) c made(1,3) identity)
qed

lemma andthen_Inr:
  assumes "andthen m f s = (t, Inr y)"
  obtains u x where "m s = (u, Inr x)" "f x u = (t, Inr y)"
  using assms by (cases "m s"; cases "snd (m s)") (auto simp: andthen_def)

lemma run_body_done:
  assumes "run_body (tidied env) ro ev s = (t, Inr res)" "begun (ro_request ro) s" "st_error s = None"
  shows "body_done ro res t \<and> rr_stop_reason res = st_stop_reason t"
proof -
  obtain u r where u: "run_branch (tidied env) (ro_context ro) (ro_request ro) 0 root_branch ev None s = (u, Inr r)"
    and rest: "andthen (\<lambda>st. (st\<lparr>st_stop_reason := br_stop_reason r, st_turns := br_turns r\<rparr>, Inr ())) (\<lambda>_.
      andthen (emit (tidied env) (RunCompletedPayload (br_stop_reason r) (br_response r)) root_branch 0 (br_event r)) (\<lambda>_.
        finish_run (tidied env) ro (br_response r) (br_stop_reason r) (br_turns r))) u = (t, Inr res)"
    using assms(1) unfolding run_body_def by (rule andthen_Inr)
  let ?u = "u\<lparr>st_stop_reason := br_stop_reason r, st_turns := br_turns r\<rparr>"
  have "same_verdict (ro_request ro) s u" using keepsD [OF verdict.keeps_run_branch u] .
  then have "begun (ro_request ro) u" "st_error u = None" using assms(2,3) unfolding same_verdict_def by simp_all
  then have b: "begun (ro_request ro) ?u" "st_error ?u = None" using begun_sink [of ?u u] by simp_all
  have "andthen (emit (tidied env) (RunCompletedPayload (br_stop_reason r) (br_response r)) root_branch 0 (br_event r)) (\<lambda>_.
        finish_run (tidied env) ro (br_response r) (br_stop_reason r) (br_turns r)) ?u = (t, Inr res)"
    using rest by (simp add: andthen_def [of "\<lambda>st. (st\<lparr>st_stop_reason := br_stop_reason r, st_turns := br_turns r\<rparr>, Inr ())"])
  then obtain v i where v: "emit (tidied env) (RunCompletedPayload (br_stop_reason r) (br_response r)) root_branch 0 (br_event r) ?u = (v, Inr i)"
    and fin: "finish_run (tidied env) ro (br_response r) (br_stop_reason r) (br_turns r) v = (t, Inr res)"
    by (rule andthen_Inr)
  note e = emit_completed [OF v b(1)]
  then have "st_error v = None" "st_turns v = br_turns r" "st_stop_reason v = br_stop_reason r"
    using b(2) by (simp_all add: same_outcome_def same_verdict_def)
  then show ?thesis using finish_run_done [OF fin] e by auto
qed

lemma direct_body_done:
  assumes "direct_body (tidied env) ro ev s = (t, Inr res)" "begun (ro_request ro) s" "st_error s = None" "st_turns s = 0"
  shows "body_done ro res t \<and> rr_stop_reason res = ''direct''"
proof -
  let ?call = "call_model (tidied env) (rlm_backend (rx_rlm (ro_context ro))) (ro_request ro) (rx_run_id (ro_context ro))
      root_branch 0 ev Public None"
  obtain u x where u: "?call s = (u, Inr x)"
    and rest: "(\<lambda>(response, response_event).
      andthen (case validate_terminal_response (PDict response) of
                  Some e \<Rightarrow> raise (BackendProtocol e) | None \<Rightarrow> ret ()) (\<lambda>_.
      andthen (emit (tidied env) (RunCompletedPayload ''direct'' response) root_branch 0 response_event) (\<lambda>_.
        finish_run (tidied env) ro response ''direct'' 0))) x u = (t, Inr res)"
    using assms(1) unfolding direct_body_def by (rule andthen_Inr)
  obtain response i where x: "x = (response, i)" by (cases x)
  have "same_outcome (ro_request ro) s u" using keepsD [OF outcome.keeps_call_model u] .
  then have b: "begun (ro_request ro) u" "st_error u = None" "st_turns u = 0"
    using assms(2-4) unfolding same_outcome_def same_verdict_def by simp_all
  obtain u' y where "(case validate_terminal_response (PDict response) of
                  Some e \<Rightarrow> raise (BackendProtocol e) | None \<Rightarrow> ret ()) u = (u', Inr y)"
    and rest': "andthen (emit (tidied env) (RunCompletedPayload ''direct'' response) root_branch 0 i) (\<lambda>_.
        finish_run (tidied env) ro response ''direct'' 0) u' = (t, Inr res)"
    using rest unfolding x prod.case by (rule andthen_Inr)
  then have "u' = u" by (auto simp: raise_def ret_def split: option.split_asm)
  then obtain v j where v: "emit (tidied env) (RunCompletedPayload ''direct'' response) root_branch 0 i u = (v, Inr j)"
    and fin: "finish_run (tidied env) ro response ''direct'' 0 v = (t, Inr res)"
    using rest' by (auto elim: andthen_Inr)
  note e = emit_completed [OF v b(1)]
  then have "st_error v = None" "st_turns v = 0"
    using b(2,3) by (simp_all add: same_outcome_def same_verdict_def)
  then show ?thesis using finish_run_done [OF fin] e by auto
qed

section \<open>The manifest\<close>

lemma close_recorder_written:
  assumes "close_recorder r made io = (r', Inr u)" "\<not> rc_closed r"
  obtains m d tx where "made = Inr m" "manifest_to_dict m = Inr d" "dumps indented (PDict d) = Inr tx"
    "dget (rc_files r') ''manifest.json'' = Some (tx @ [CHR 0x0A])"
  using assms
  by (auto simp: close_recorder_def Let_def manifest_value_def finish_files_def write_json_def ebind_eq_Inr
      split: sum.split_asm prod.split_asm if_split_asm option.split_asm dest!: put_file_Inr)

lemma close_trace_written:
  assumes close: "close_trace env ro reason s = (t, Inr u)" and sink: "st_sink s = Recorder rc" "\<not> rc_closed rc"
    and "st_completed s = Some duration"
  obtains rc' m d tx now where "st_sink t = Recorder rc'" "\<And>evs. recorded rc evs \<Longrightarrow> recorded rc' evs"
    "run_manifest (ro_context ro) (st_error s) (reason s) (st_turns s) duration (stats (st_ledger s) now) = Inr m"
    "manifest_to_dict m = Inr d" "dumps indented (PDict d) = Inr tx"
    "dget (rc_files rc') ''manifest.json'' = Some (tx @ [CHR 0x0A])"
proof -
  obtain now w1 where now: "env_clock env (st_world s) = (now, w1)" by (cases "env_clock env (st_world s)")
  obtain io w2 where io: "env_close_io env w1 = (io, w2)" by (cases "env_close_io env w1")
  let ?made = "run_manifest (ro_context ro) (st_error s) (reason s) (st_turns s) duration (stats (st_ledger s) now)"
  obtain rc' x where c: "close_recorder rc ?made io = (rc', x)" by fastforce
  have t: "st_sink t = Recorder rc'" "x = Inr u"
    using close now io c sink assms(4)
    by (auto simp: close_trace_def andthen_def read_state_def ret_def outside_def ledger_op_def on_ledger_def)
  then obtain m d tx where "?made = Inr m" "manifest_to_dict m = Inr d" "dumps indented (PDict d) = Inr tx"
    "dget (rc_files rc') ''manifest.json'' = Some (tx @ [CHR 0x0A])"
    using close_recorder_written [OF c [unfolded t(2)] sink(2)] by metis
  then show ?thesis using that [OF t(1) close_recorded [OF c]] by blast
qed

lemma config_dict_controller:
  assumes "valid_config c"
  obtains D where "config_to_dict c = Inr D"
    "dget D ''controller'' = Some (PDict [(''model'', opt_str (cc_model (cfg_controller c))),
       (''options'', PDict (cc_options (cfg_controller c)))])"
proof -
  from assms obtain V where V: "config_value c = Inr V" "json_text_value (PDict V)" and dist: "distinct (keys V)"
    and get: "dget V ''controller'' = Some (PDict [(''model'', opt_str (cc_model (cfg_controller c))),
               (''options'', PDict (cc_options (cfg_controller c)))])"
    by (rule config_sections)
  have ld: "ebind (dumps spaced_sorted (PDict V)) loads = Inr (PDict (sorted_dict V))"
    using loads_dumps [OF style_ok_styles(4) V(2)] by (simp add: spaced_sorted_def sorted_keys_PDict del: sorted_keys.simps)
  have jd: "json_data (PDict (sorted_dict V))"
    using sorted_keys_text_value [OF V(2)]
    by (simp add: sorted_keys_PDict json_text_value_def wf_json_def del: sorted_keys.simps json_data.simps)
  have to_dict: "config_to_dict c = Inr (sorted_dict V)"
    using ld jd by (auto simp: config_to_dict_def V(1) ebind_eq_Inr)
  have opts: "sorted_keys (PDict (cc_options (cfg_controller c))) = PDict (cc_options (cfg_controller c))"
    using assms by (simp add: valid_config_def)
  have model: "sorted_keys (opt_str (cc_model (cfg_controller c))) = opt_str (cc_model (cfg_controller c))"
    by (cases "cc_model (cfg_controller c)") (simp_all add: opt_str_def)
  have "dget (sorted_dict V) ''controller'' = Some (PDict (sorted_dict [(''model'', opt_str (cc_model (cfg_controller c))),
               (''options'', PDict (cc_options (cfg_controller c)))]))"
    by (simp add: dget_sorted_dict [OF dist] get sorted_keys_PDict del: sorted_keys.simps)
  then show ?thesis
    by (intro that [OF to_dict]) (simp add: sorted_dict_def opts model del: sorted_keys.simps)
qed

lemma from_result_Inr:
  "from_result res = Inr a \<longleftrightarrow>
     rr_run_id res \<noteq> [] \<and> rr_stop_reason res \<noteq> [] \<and> 0 \<le> input_tokens (rr_usage res) \<and> 0 \<le> output_tokens (rr_usage res)
     \<and> 0 \<le> unreported_calls (rr_usage res) \<and> 0 < calls (rr_usage res) \<and> is_sha256_text (rr_harness_fingerprint res)
     \<and> (\<exists>d. canonical_duration_seconds (PFloat (Fin (rr_duration res))) = Inr d
         \<and> a = \<lparr>at_run_id = rr_run_id res, at_stop_reason = rr_stop_reason res, at_turns = int (rr_turns res),
                at_duration = d, at_usage = rr_usage res, at_identity = rr_identity res,
                at_harness_fingerprint = rr_harness_fingerprint res\<rparr>)"
  by (simp add: from_result_def mk_attestation_ok)

lemma effective_model_of:
  assumes "opened_by q evs" "pget q ''model'' = PStr s"
  shows "effective_model (PDict [(''model'', opt_str (cc_model (cfg_controller c))), options]) evs
     = Inr (PStr (controller_model_of c q))"
proof -
  obtain e es p where evs: "evs = e # es" "subscript (PDict e) ''payload'' = Inr (PDict p)"
    "subscript (PDict p) ''request'' = Inr (PDict q)" using assms(1) unfolding opened_by_def by blast
  have "dget q ''model'' = Some (PStr s)" using assms(2) by (simp add: pget_def split: option.split_asm)
  then have "subscript (PDict q) ''model'' = Inr (PStr s)" by (simp add: subscript_def)
  moreover have "subscript (PDict [(''model'', x), options]) ''model'' = Inr x" for x
    by (simp add: subscript_def)
  ultimately show ?thesis
    using assms(2) evs
    by (auto simp: effective_model_def first_event_def controller_model_of_def opt_str_def
        split: option.split list.split)
qed

lemma manifest_agrees:
  assumes a: "from_result res = Inr a" and body: "body_done ro res s" and c: "valid_config (rx_config (ro_context ro))"
    and m: "run_manifest (ro_context ro) None (rr_stop_reason res) (rr_turns res) (rr_duration res) (stats (st_ledger s) now) = Inr m"
    and d: "manifest_to_dict m = Inr d" and evs: "opened_by (ro_request ro) evs" "pget (ro_request ro) ''model'' = PStr model"
  shows "check_manifest d evs a = Inr ()"
proof -
  let ?c = "rx_config (ro_context ro)"
  obtain D where D: "config_to_dict ?c = Inr D"
    "dget D ''controller'' = Some (PDict [(''model'', opt_str (cc_model (cfg_controller ?c))),
       (''options'', PDict (cc_options (cfg_controller ?c)))])" by (rule config_dict_controller [OF c])
  note b = body [unfolded body_done_def]
  have dur: "at_duration a = rr_duration res" using a b by (auto simp: from_result_Inr)
  have fields: "at_run_id a = rr_run_id res" "at_stop_reason a = rr_stop_reason res" "at_turns a = int (rr_turns res)"
    "at_usage a = rr_usage res" "at_identity a = rr_identity res" "at_harness_fingerprint a = rr_harness_fingerprint res"
    using a by (auto simp: from_result_Inr)
  have man: "tm_run_id m = rr_run_id res" "tm_status m = TraceCompleted" "tm_stop_reason m = Some (rr_stop_reason res)"
    "tm_turns m = int (rr_turns res)" "tm_duration_seconds m = rr_duration res" "tm_usage m = stats (st_ledger s) now"
    "tm_harness_fingerprint m = rr_harness_fingerprint res" "tm_effective_config m = D"
    using m b D(1) by (auto simp: run_manifest_def ebind_eq_Inr)
  have sub: "subscript (PDict d) ''status'' = Inr (PStr ''completed'')"
    "subscript (PDict d) ''run_id'' = Inr (PStr (rr_run_id res))"
    "subscript (PDict d) ''harness_fingerprint'' = Inr (PStr (rr_harness_fingerprint res))"
    "subscript (PDict d) ''stop_reason'' = Inr (PStr (rr_stop_reason res))"
    "subscript (PDict d) ''turns'' = Inr (PInt (int (rr_turns res)))"
    "subscript (PDict d) ''duration_seconds'' = Inr (PFloat (Fin (rr_duration res)))"
    "subscript (PDict d) ''usage'' = Inr (PDict (stats (st_ledger s) now))"
    "subscript (PDict d) ''effective_config'' = Inr (PDict D)"
    using d by (auto simp: manifest_to_dict_def ebind_eq_Inr subscript_def man opt_str_def)
  have usage: "subscript (PDict (stats (st_ledger s) now)) ''usage'' = Inr (PDict (usage_to_dict (rr_usage res)))"
    using b by (simp add: stats_def subscript_def)
  have controller: "subscript (PDict D) ''controller'' = Inr (PDict [(''model'', opt_str (cc_model (cfg_controller ?c))),
       (''options'', PDict (cc_options (cfg_controller ?c)))])"
    by (simp add: subscript_def D(2))
  have options: "subscript (PDict [x, (''options'', v)]) ''options'' = Inr v" if "fst x \<noteq> ''options''" for x v
    using that by (cases x) (simp add: subscript_def)
  show ?thesis
    using b
    by (simp add: check_manifest_def sub usage controller options effective_model_of [OF evs] dur fields usage_to_dict_def
        require_def ensure_def)
qed

section \<open>What a run leaves behind\<close>

lemma emit_started:
  assumes emit: "emit (tidied env) p b d parent s = (t, Inr i)" and p: "run_started_payload_of config q = Inr p"
    and new: "\<And>rc. st_sink s = Recorder rc \<Longrightarrow> recorded rc []"
  shows "begun q t"
  unfolding begun_def
proof (intro allI impI)
  fix rc' assume rc': "st_sink t = Recorder rc'"
  from emit_state [OF emit] obtain now written u where
    ev: "sink_event (st_sink s) p b d parent now written = (st_sink t, Inr i)"
    and io: "\<exists>w. written = fst (env_io (tidied env) w)" by blast
  obtain rc k where rc: "st_sink s = Recorder rc" "record_event rc p b d parent now written = (rc', Inr k)"
    using ev rc' by (cases "st_sink s") (auto simp: ebind_eq_Inr split: prod.split_asm)
  have tidy: "written = IoOk" if "io_wrote written" using io that tidied_io by auto
  have r: "recorded rc []" by (rule new [OF rc(1)])
  have open': "\<not> rc_closed rc" using rc(2) by (auto simp: record_event_def)
  obtain e line where built: "build_event rc p b d parent now = Inr (e, line)"
    using rc(2) open' by (auto simp: record_event_def split: sum.split_asm)
  have "recorded rc' ([] @ [e])"
    using rc(2) open' built build_event_Inr [OF built r] r tidy
    by (cases written) (auto simp: record_event_def Let_def recorded_def nth_append less_Suc_eq)
  moreover obtain v where "payload_to_dict p = Inr v" "dget e ''payload'' = Some (PDict v)"
    using built by (auto simp: build_event_def ebind_eq_Inr Let_def event_to_dict_def split: if_split_asm option.split_asm)
  moreover from this(1) p have "dget v ''request'' = Some (PDict q)"
    by (auto simp: run_started_payload_of_def run_started_dict_def ebind_eq_Inr)
  ultimately show "\<exists>evs. recorded rc' evs \<and> opened_by q evs"
    by (intro exI [of _ "[e]"]) (auto simp: opened_by_def subscript_def)
qed

text \<open>
  A run that returns with a recorder and whose result can be attested wrote a manifest with which the attestation
  agrees, and recorded events the last of which completes the run with the response (whose objects, as Python's
  dictionaries, have distinct keys).
\<close>

definition attests :: "('w, run_result) run_exit \<Rightarrow> bool" where
  "attests out \<longleftrightarrow>
     (case out of
        Ended st (Inr res) \<Rightarrow>
          proper_identity (rr_identity res) \<and> canonical_duration_seconds (PFloat (Fin (rr_duration res))) = Inr (rr_duration res)
          \<and> (case (st_sink st, from_result res) of
             (Recorder rc, Inr a) \<Rightarrow>
               (\<exists>d tx evs. dumps indented (PDict d) = Inr tx
                 \<and> dget (rc_files rc) ''manifest.json'' = Some (tx @ [CHR 0x0A]) \<and> recorded rc evs
                 \<and> check_manifest d evs a = Inr ()
                 \<and> (wf_py (PDict (rr_response res)) \<longrightarrow> check_terminal evs (PDict (rr_response res)) = Inr ()))
           | _ \<Rightarrow> True)
      | _ \<Rightarrow> True)"

lemma completed_terminal:
  assumes "completed_by reason response q evs" "recorded rc evs" "wf_py (PDict response)"
  shows "check_terminal evs (PDict response) = Inr ()"
proof -
  note c = assms(1) [unfolded completed_by_def]
  have ne: "evs \<noteq> []" using c by (auto simp: opened_by_def)
  have got: "dget (last evs) ''type'' = Some (PStr ''run.completed'')"
    "dget (last evs) ''payload'' = Some (PDict [(''stop_reason'', PStr reason), (''response'', PDict response)])"
    using c by (auto simp: pget_def split: option.split_asm)
  have "last evs \<in> set evs" using ne by simp
  then obtain i where "i < length evs" "evs ! i = last evs" by (auto simp: in_set_conv_nth)
  then have "json_data (PDict (last evs))" using assms(2) by (auto simp: recorded_def trace_event_ok_def)
  then have "\<forall>p\<in>set (last evs). json_data (snd p)" by (simp add: list_all_iff)
  then have "json_data (snd (''payload'', PDict [(''stop_reason'', PStr reason), (''response'', PDict response)]))"
    using map_of_SomeD [OF got(2)] by (rule bspec)
  then have "json_data (PDict response)" by simp
  then have "py_eq (PDict response) (PDict response)"
    using assms(3) by (intro py_eq_refl) (simp add: wf_json_def)
  then show ?thesis
    using ne got by (simp add: check_terminal_def subscript_def require_def ensure_def del: py_eq.simps(4))
qed

lemma recorded_run_attests:
  assumes run: "recorded_run (tidied env) ro reason body (initial_state sink lg w) = (st, Inr res)"
    and new: "\<And>rc. sink = Recorder rc \<Longrightarrow> recorded rc []"
    and c: "valid_config (rx_config (ro_context ro))" and model: "pget (ro_request ro) ''model'' = PStr model"
    and body: "\<And>ev s t. body ev s = (t, Inr res) \<Longrightarrow> begun (ro_request ro) s \<Longrightarrow> st_error s = None \<Longrightarrow> st_turns s = 0
        \<Longrightarrow> body_done ro res t \<and> reason t = rr_stop_reason res"
  shows "attests (Ended st (Inr res))"
proof -
  let ?s = "initial_state sink lg w"
  obtain s1 p where "lift (run_started_payload_of (rx_config (ro_context ro)) (ro_request ro)) ?s = (s1, Inr p)"
    and r1: "andthen (emit (tidied env) p root_branch 0 None) (\<lambda>started_event.
      supervise (tidied env) ro reason started_event (body started_event)) s1 = (st, Inr res)"
    using run unfolding recorded_run_def by (rule andthen_Inr)
  then have p: "run_started_payload_of (rx_config (ro_context ro)) (ro_request ro) = Inr p" "s1 = ?s"
    by (simp_all add: lift_def)
  obtain u ev where u: "emit (tidied env) p root_branch 0 None ?s = (u, Inr ev)"
    and r2: "supervise (tidied env) ro reason ev (body ev) u = (st, Inr res)"
    using r1 unfolding p(2) by (rule andthen_Inr)
  have "begun (ro_request ro) u"
    by (rule emit_started [OF u p(1)]) (use new in \<open>auto simp: initial_state_def\<close>)
  moreover have "same_outcome (ro_request ro) ?s u" using keepsD [OF emit_same_outcome u] .
  then have "st_error u = None" "st_turns u = 0"
    unfolding same_outcome_def same_verdict_def by (simp_all add: initial_state_def)
  moreover have never: "fail_run (tidied env) ev e t \<noteq> (t', Inr x)" for e t t' and x :: run_result
    by (auto simp: fail_run_def andthen_def raise_def split: prod.split_asm sum.split_asm)
  obtain v where v: "body ev u = (v, Inr res)" and close: "close_trace (tidied env) ro reason v = (st, Inr ())"
    using r2 never
    by (auto simp: supervise_def finally_act_def catch_def split: prod.split_asm sum.split_asm)
  ultimately have finished: "body_done ro res v" "reason v = rr_stop_reason res" using body [OF v] by simp_all
  show ?thesis
  proof (cases "st_sink v")
    case NullTraceSink
    then have "st_sink st = NullTraceSink" using close by (simp add: close_trace_def andthen_def read_state_def ret_def)
    then show ?thesis using finished(1) by (simp add: attests_def body_done_def)
  next
    case (Recorder rc)
    note b = finished(1) [unfolded body_done_def]
    obtain evs where evs: "\<not> rc_closed rc" "recorded rc evs" "completed_by (rr_stop_reason res) (rr_response res) (ro_request ro) evs"
      using b Recorder by (auto simp: completed_in_def)
    have completed: "st_completed v = Some (rr_duration res)" using b by simp
    obtain rc' m d tx now where files: "st_sink st = Recorder rc'" "recorded rc' evs"
      "run_manifest (ro_context ro) (st_error v) (reason v) (st_turns v) (rr_duration res) (stats (st_ledger v) now) = Inr m"
      "manifest_to_dict m = Inr d" "dumps indented (PDict d) = Inr tx"
      "dget (rc_files rc') ''manifest.json'' = Some (tx @ [CHR 0x0A])"
      using close_trace_written [OF close Recorder evs(1) completed] evs(2) by metis
    have manifest: "run_manifest (ro_context ro) None (rr_stop_reason res) (rr_turns res) (rr_duration res)
        (stats (st_ledger v) now) = Inr m"
      using files(3) b finished(2) by simp
    have proper: "proper_identity (rr_identity res)"
      "canonical_duration_seconds (PFloat (Fin (rr_duration res))) = Inr (rr_duration res)" using b by simp_all
    have "opened_by (ro_request ro) evs" using evs(3) by (simp add: completed_by_def)
    note agrees = manifest_agrees [OF _ finished(1) c manifest files(4) this model]
    show ?thesis
      unfolding attests_def
      using files completed_terminal [OF evs(3,2)] agrees proper by (auto split: sum.split)
  qed
qed

lemma validate_request_model:
  assumes "validate_request q = Inr d"
  obtains model where "pget d ''model'' = PStr model"
  using assms
  by (cases "pget d ''model''") (auto simp: validate_request_def ebind_eq_Inr split: option.split_asm if_split_asm)

lemma new_sink_recorded:
  "make_trace_sink config run_id base stamp opened = Inr (Recorder rc) \<Longrightarrow> recorded rc []"
  by (auto simp: make_trace_sink_def new_recorder_def recorded_def ebind_eq_Inr split: if_split_asm option.split_asm)

lemma runs_attest:
  assumes "valid_config (rlm_config self)"
  shows "attests (run (tidied env) self request w) \<and> attests (run_direct (tidied env) self request w)"
proof -
  have attested: "attests (run_with (\<lambda>ro. recorded_run (tidied env) ro reason (body ro)) (tidied env) self request w)"
    if "\<And>ro ev s t res. body ro ev s = (t, Inr res) \<Longrightarrow> begun (ro_request ro) s \<Longrightarrow> st_error s = None \<Longrightarrow> st_turns s = 0
        \<Longrightarrow> body_done ro res t \<and> reason t = rr_stop_reason res"
    for reason body
  proof (cases "open_run (tidied env) self request w")
    case (Pair w' o')
    show ?thesis
    proof (cases o')
      case (Inl e)
      then show ?thesis using Pair by (simp add: run_with_def attests_def)
    next
      case (Inr x)
      obtain ro sink lg where x: "x = (ro, sink, lg)" by (cases x)
      note op = open_run_Inr [OF Pair [unfolded Inr x]]
      have c: "valid_config (rx_config (ro_context ro))"
        using config_snapshot_valid [OF assms] op(2) assms by simp
      obtain model where model: "pget (ro_request ro) ''model'' = PStr model" using validate_request_model [OF op(1)] .
      have new: "recorded rc []" if "sink = Recorder rc" for rc
        using op(5) that new_sink_recorded by blast
      obtain st r where r: "recorded_run (tidied env) ro reason (body ro) (initial_state sink lg w') = (st, r)"
        by (cases "recorded_run (tidied env) ro reason (body ro) (initial_state sink lg w')")
      have out: "run_with (\<lambda>ro. recorded_run (tidied env) ro reason (body ro)) (tidied env) self request w = Ended st r"
        using Pair Inr x r by (simp add: run_with_def)
      show ?thesis
      proof (cases r)
        case (Inl e)
        then show ?thesis by (simp add: out attests_def)
      next
        case (Inr res)
        show ?thesis
          unfolding out Inr
          by (rule recorded_run_attests [OF r [unfolded Inr] new c model]) (use that in blast)+
      qed
    qed
  qed
  show ?thesis
    unfolding run_def run_direct_def
    by (intro conjI attested) (auto dest: run_body_done direct_body_done dest!: body_done_error simp: direct_stop_reason_def)
qed

text \<open>C4: the result of a run and its trace agree: for every environment whose failed writes leave no line, a run (or a
  direct run) that returns and whose result can be attested has written a manifest with which that attestation agrees in
  every field \<open>validate_run_artifacts\<close> compares (status, ids, fingerprints, stop reason, turns, duration, usage,
  controller model and options), and its last recorded event completes the run with the returned response.\<close>

theorem run_attested:
  assumes "valid_config (rlm_config self)"
  shows "attests (run (tidied env) self request w) \<and> attests (run_direct (tidied env) self request w)"
  using assms by (rule runs_attest)

lemma run_attested_witness:
  "\<forall>env request w. attests (run (tidied env) \<lparr>rlm_backend = 0, rlm_controller_backend = 1, rlm_config = sample_config\<rparr> request w)
     \<and> attests (run_direct (tidied env) \<lparr>rlm_backend = 0, rlm_controller_backend = 1, rlm_config = sample_config\<rparr> request w)"
  by (intro allI run_attested) (simp add: sample_config_valid)

end
