(* ===== verification/Backend.thy ===== *)
theory Backend
  imports Response Ipc Worker Effects
begin

text \<open>
  \<open>rlm/backend.py\<close>: the OpenAI-compatible endpoint.  The HTTP client is a parameter: what it answers to a request
  is a response, a time-out, an HTTP error or another exception.  The bodies of responses are their text,
  \<open>None\<close> when the bytes cannot be decoded.
\<close>

section \<open>Numbers\<close>

text \<open>\<open>_positive_timeout\<close>: the value as a float.\<close>

definition float_range :: rat where
  "float_range = 2 ^ 1024 - 2 ^ 970"

definition positive_timeout :: "py \<Rightarrow> string \<Rightarrow> exn + rat" where
  "positive_timeout value name =
     (let refused = value_error (name @ '' must be a positive finite number'')
      in case value of
        PInt i \<Rightarrow> if float_range \<le> \<bar>of_int i\<bar> then Inl (PyExc ''OverflowError'' ''int too large to convert to float'')
           else if i \<le> 0 then Inl refused else Inr (of_int i)
      | PFloat (Fin r) \<Rightarrow> if r \<le> 0 then Inl refused else Inr r
      | _ \<Rightarrow> Inl refused)"

section \<open>Responses\<close>

record http_response =
  hr_status :: int
  hr_success :: bool
  hr_content :: "string option"
  hr_text :: string
  hr_content_type :: py

definition decode_content :: "string option \<Rightarrow> exn + py" where
  "decode_content content =
     (case content of
        None \<Rightarrow> Inl (PyExc ''StrictJSONError'' ''invalid strict JSON: undecodable bytes'')
      | Some s \<Rightarrow> loads s)"

definition upstream :: "int \<Rightarrow> string \<Rightarrow> dict \<Rightarrow> string \<Rightarrow> exn" where
  "upstream status message rest url = Upstream status (PDict ((''message'', PStr message) # rest)) url"

definition response_payload :: "http_response \<Rightarrow> string \<Rightarrow> exn + py" where
  "response_payload response url =
     (case decode_content (hr_content response) of
        Inr v \<Rightarrow> Inr v
      | Inl e \<Rightarrow>
          if hr_success response
          then Inl (upstream 502 ''upstream returned a non-JSON success body'' [(''body'', PStr (hr_text response))] url)
          else Inr (PDict [(''message'', PStr (hr_text response)), (''content_type'', hr_content_type response)]))"

definition response_json_object :: "http_response \<Rightarrow> string \<Rightarrow> exn + dict" where
  "response_json_object response url =
     ebind (response_payload response url) (\<lambda>payload.
       if \<not> hr_success response then Inl (Upstream (hr_status response) payload url)
       else case as_dict payload of
         None \<Rightarrow> Inl (upstream 502 (''upstream returned '' @ type_name payload @ '', expected a JSON object'') [] url)
       | Some d \<Rightarrow>
           (case json_compatibility_error payload of
              Some e \<Rightarrow> Inl (upstream 502 (''upstream returned a non-JSON response object: '' @ e) [] url)
            | None \<Rightarrow> Inr d))"

section \<open>The endpoint\<close>

record endpoint =
  ep_base_url :: string
  ep_api_key :: "string option"
  ep_timeout :: rat
  ep_headers :: "(string \<times> string) list"

definition new_endpoint ::
  "string \<Rightarrow> string option \<Rightarrow> string option \<Rightarrow> py \<Rightarrow> (string \<times> string) list \<Rightarrow> exn + endpoint" where
  "new_endpoint base_url api_key environment_key timeout headers =
     ebind (positive_timeout timeout ''timeout'') (\<lambda>t.
       Inr \<lparr>ep_base_url = rstrip_chars (\<lambda>c. c = CHR ''/'') base_url,
            ep_api_key = (if api_key = None then environment_key else api_key), ep_timeout = t, ep_headers = headers\<rparr>)"

record http_request =
  hq_method :: string
  hq_endpoint :: string
  hq_headers :: "(string \<times> string) list"
  hq_body :: "dict option"
  hq_timeout :: rat

datatype http_outcome = HttpAnswer http_response | HttpTimeout | HttpError string | HttpRaises exn

text \<open>The headers of a request: the default, the configured ones, and the key unless one is configured.\<close>

definition request_headers :: "endpoint \<Rightarrow> string \<times> string \<Rightarrow> (string \<times> string) list" where
  "request_headers ep first =
     (let headers = dupdate [first] (ep_headers ep)
      in case ep_api_key ep of
           None \<Rightarrow> headers
         | Some key \<Rightarrow>
             if key = [] \<or> ''Authorization'' \<in> set (map fst headers) then headers
             else headers @ [(''Authorization'', ''Bearer '' @ key)])"

definition run_async :: "('w \<Rightarrow> http_outcome \<times> 'w) \<Rightarrow> string \<Rightarrow> 'w \<Rightarrow> (exn + dict) \<times> 'w" where
  "run_async send url w =
     (case send w of (outcome, w') \<Rightarrow>
        (case outcome of
           HttpAnswer response \<Rightarrow> response_json_object response url
         | HttpTimeout \<Rightarrow> Inl (upstream 502 ''upstream request exceeded the absolute timeout'' [] url)
         | HttpError message \<Rightarrow> Inl (upstream 502 message [] url)
         | HttpRaises e \<Rightarrow> Inl e, w'))"

definition responses_request :: "endpoint \<Rightarrow> dict \<Rightarrow> py \<Rightarrow> exn + http_request" where
  "responses_request ep body timeout =
     (case json_compatibility_error (PDict body) of
        Some e \<Rightarrow> Inl (InvalidRequest (''request must be strict JSON: '' @ e) ''invalid_json_value'' (Some ''request''))
      | None \<Rightarrow>
          if ''stream'' \<in> set (keys body) \<and> pget body ''stream'' \<noteq> PBool False
          then Inl (InvalidRequest ''RLM supports only non-streaming requests; set stream to false or omit it''
                 ''streaming_not_supported'' (Some ''stream''))
          else ebind (positive_timeout timeout ''timeout'') (\<lambda>t.
            Inr \<lparr>hq_method = ''POST'', hq_endpoint = ep_base_url ep @ ''/responses'',
                 hq_headers = request_headers ep (''Content-Type'', ''application/json''),
                 hq_body = Some body, hq_timeout = min (ep_timeout ep) t\<rparr>))"

definition endpoint_complete ::
  "(http_request \<Rightarrow> 'w \<Rightarrow> http_outcome \<times> 'w) \<Rightarrow> endpoint \<Rightarrow> dict \<Rightarrow> py \<Rightarrow> 'w \<Rightarrow> (exn + dict) \<times> 'w" where
  "endpoint_complete send ep body timeout w =
     (case responses_request ep body timeout of
        Inl e \<Rightarrow> (Inl e, w)
      | Inr q \<Rightarrow> run_async (send q) (hq_endpoint q) w)"

definition list_models ::
  "(http_request \<Rightarrow> 'w \<Rightarrow> http_outcome \<times> 'w) \<Rightarrow> endpoint \<Rightarrow> 'w \<Rightarrow> (exn + dict) \<times> 'w" where
  "list_models send ep w =
     (let q = \<lparr>hq_method = ''GET'', hq_endpoint = ep_base_url ep @ ''/models'',
                hq_headers = request_headers ep (''Accept'', ''application/json''), hq_body = None,
                hq_timeout = ep_timeout ep\<rparr>
      in run_async (send q) (hq_endpoint q) w)"

section \<open>The helper thread\<close>

text \<open>
  What the joining thread sees of the helper: whether it has completed, and waiting for it; any of these, and the
  cancellation, can be interrupted by an exception.
\<close>

record 'w helper =
  hp_is_set :: "'w \<Rightarrow> (exn + bool) \<times> 'w"
  hp_join :: "'w \<Rightarrow> (exn + unit) \<times> 'w"
  hp_wait :: "'w \<Rightarrow> (exn + unit) \<times> 'w"
  hp_cancel :: "'w \<Rightarrow> (exn + unit) \<times> 'w"
  hp_start :: "'w \<Rightarrow> (exn + unit) \<times> 'w"
  hp_abandon :: "'w \<Rightarrow> 'w"
  hp_outcome :: "'w \<Rightarrow> exn + py"

definition hp :: "('w \<Rightarrow> (exn + 'a) \<times> 'w) \<Rightarrow> ('w, 'a) act" where
  "hp f w = (case f w of (r, w') \<Rightarrow> (w', r))"

text \<open>The body of the loops under \<open>try\<close>: whether the loop is left.\<close>

definition await_completion :: "'w helper \<Rightarrow> ('w, bool) act" where
  "await_completion h =
     andthen (hp (hp_is_set h)) (\<lambda>completed.
       if completed then ret True
       else andthen (hp (hp_join h)) (\<lambda>_.
            andthen (hp (hp_is_set h)) (\<lambda>completed.
              if completed then ret True else andthen (hp (hp_wait h)) (\<lambda>_. ret False))))"

definition reap :: "'w helper \<Rightarrow> ('w, bool) act" where
  "reap h = andthen (hp (hp_join h)) (\<lambda>_. ret True)"

text \<open>A loop that keeps the first interruption and asks for cancellation at each; \<open>None\<close> when the fuel is out.\<close>

fun insist ::
  "nat \<Rightarrow> 'w helper \<Rightarrow> ('w, bool) act \<Rightarrow> exn option \<Rightarrow> ('w, exn option option) act" where
  "insist 0 h body interruption = ret None"
| "insist (Suc fuel) h body interruption = (\<lambda>w.
     case body w of
       (w', Inr True) \<Rightarrow> (w', Inr (Some interruption))
     | (w', Inr False) \<Rightarrow> insist fuel h body interruption w'
     | (w', Inl e) \<Rightarrow>
         andthen (hp (hp_cancel h)) (\<lambda>_.
           insist fuel h body (if interruption = None then Some e else interruption)) w')"

definition helper_result :: "exn + py \<Rightarrow> exn + dict" where
  "helper_result outcome =
     ebind outcome (\<lambda>result. case as_dict result of
         None \<Rightarrow> Inl (runtime_error ''async HTTP bridge returned an invalid result'')
       | Some d \<Rightarrow> Inr d)"

definition run_in_helper_thread :: "nat \<Rightarrow> 'w helper \<Rightarrow> ('w, dict option) act" where
  "run_in_helper_thread fuel h =
     andthen (catch (hp (hp_start h)) (\<lambda>e. andthen (\<lambda>w. (hp_abandon h w, Inr ())) (\<lambda>_. raise e))) (\<lambda>_.
     andthen (insist fuel h (await_completion h) None) (\<lambda>waited.
       case waited of
         None \<Rightarrow> ret None
       | Some interruption \<Rightarrow>
           andthen (insist fuel h (reap h) interruption) (\<lambda>reaped.
             case reaped of
               None \<Rightarrow> ret None
             | Some None \<Rightarrow> (\<lambda>w. (w, ebind (helper_result (hp_outcome h w)) (\<lambda>d. Inr (Some d))))
             | Some (Some e) \<Rightarrow> raise e)))"

section \<open>Cancellation of the helper's task\<close>

text \<open>
  \<open>_HelperTaskCancellation\<close>: each side first sets its part under the lock and reads the other's, then schedules the
  cancellation when both are there.
\<close>

record handoff =
  ho_bound :: bool
  ho_requested :: bool
  ho_bind_pending :: bool
  ho_request_pending :: bool
  ho_scheduled :: nat

definition new_handoff :: handoff where
  "new_handoff = \<lparr>ho_bound = False, ho_requested = False, ho_bind_pending = False, ho_request_pending = False, ho_scheduled = 0\<rparr>"

datatype handoff_event = BindLocked | BindSchedules | RequestLocked | RequestSchedules

fun handoff_step :: "handoff_event \<Rightarrow> handoff \<Rightarrow> handoff" where
  "handoff_step BindLocked s = s\<lparr>ho_bound := True, ho_bind_pending := ho_requested s\<rparr>"
| "handoff_step BindSchedules s =
     (if ho_bind_pending s then s\<lparr>ho_bind_pending := False, ho_scheduled := Suc (ho_scheduled s)\<rparr> else s)"
| "handoff_step RequestLocked s = s\<lparr>ho_requested := True, ho_request_pending := ho_bound s\<rparr>"
| "handoff_step RequestSchedules s =
     (if ho_request_pending s then s\<lparr>ho_request_pending := False, ho_scheduled := Suc (ho_scheduled s)\<rparr> else s)"

section \<open>What a call of the endpoint returns\<close>

text \<open>
  The outcome of one call: an object only when the HTTP client answered it, with a success status and strict JSON that
  reads as that object; otherwise an error the client raised, or an upstream error which keeps the status of an
  unsuccessful answer and reports every other failure as a bad gateway.
\<close>

definition faithful_outcome :: "http_outcome \<Rightarrow> string \<Rightarrow> exn + dict \<Rightarrow> bool" where
  "faithful_outcome outcome url r \<longleftrightarrow>
     (case r of
        Inr d \<Rightarrow> \<exists>response s. outcome = HttpAnswer response \<and> hr_success response
          \<and> hr_content response = Some s \<and> loads s = Inr (PDict d) \<and> json_compatibility_error (PDict d) = None
      | Inl e \<Rightarrow> outcome = HttpRaises e
          \<or> (\<exists>status payload. e = Upstream status payload url
               \<and> status = (case outcome of
                     HttpAnswer response \<Rightarrow> if hr_success response then 502 else hr_status response
                   | _ \<Rightarrow> 502)))"

definition sends_once ::
  "(http_request \<Rightarrow> 'w \<Rightarrow> http_outcome \<times> 'w) \<Rightarrow> endpoint \<Rightarrow> dict \<Rightarrow> rat \<Rightarrow> (exn + dict) \<times> 'w \<Rightarrow> 'w \<Rightarrow> bool" where
  "sends_once send ep body timeout out w \<longleftrightarrow>
     (\<exists>q outcome.
        hq_method q = ''POST'' \<and> hq_endpoint q = ep_base_url ep @ ''/responses'' \<and> hq_body q = Some body
        \<and> hq_timeout q = min (ep_timeout ep) timeout
        \<and> distinct (map fst (hq_headers q))
        \<and> (\<forall>p\<in>set (ep_headers ep). dget (hq_headers q) (fst p) = dget (rev (ep_headers ep)) (fst p))
        \<and> send q w = (outcome, snd out) \<and> faithful_outcome outcome (hq_endpoint q) (fst out))"

lemma faithful_async:
  assumes "run_async send url w = (r, w')"
  obtains outcome where "send w = (outcome, w')" "faithful_outcome outcome url r"
proof -
  obtain outcome u where s: "send w = (outcome, u)" by (cases "send w")
  have as_dict: "as_dict v = Some d \<longleftrightarrow> v = PDict d" for v d by (cases v) auto
  have "faithful_outcome outcome url r" "u = w'"
    using assms s
    by (auto simp: run_async_def faithful_outcome_def response_json_object_def response_payload_def decode_content_def
        upstream_def ebind_def as_dict split: http_outcome.splits sum.splits option.splits if_splits)
  then show ?thesis using that s by blast
qed

lemma dupdate_latest: "dget (dupdate d xs) k = (case dget (rev xs) k of None \<Rightarrow> dget d k | Some v \<Rightarrow> Some v)"
proof (induction xs arbitrary: d)
  case (Cons x xs)
  have "dupdate d (x # xs) = dupdate (AList.update (fst x) (snd x) d) xs" by (simp add: dupdate_def split_beta)
  then show ?case using Cons by (auto simp: update_conv' map_add_def split: option.split)
qed (simp add: dupdate_def)

lemma request_headers_keys: "distinct (map fst (request_headers ep first))"
  using distinct_dupdate [of "[first]" "ep_headers ep"]
  by (auto simp: request_headers_def Let_def split: option.split)

lemma request_headers_configured:
  assumes "p \<in> set (ep_headers ep)"
  shows "dget (request_headers ep first) (fst p) = dget (rev (ep_headers ep)) (fst p)"
proof -
  have "fst p \<in> fst ` set (rev (ep_headers ep))" using assms by simp
  then have "dget (rev (ep_headers ep)) (fst p) \<noteq> None" unfolding map_of_eq_None_iff by blast
  then have "dget (dupdate [first] (ep_headers ep)) (fst p) = dget (rev (ep_headers ep)) (fst p)"
    by (auto simp: dupdate_latest)
  then show ?thesis
    using \<open>dget (rev (ep_headers ep)) (fst p) \<noteq> None\<close>
    by (auto simp: request_headers_def Let_def map_add_def split: option.splits)
qed


section \<open>The helper thread is joined\<close>

text \<open>
  What is assumed of the thread and its event: \<open>ended\<close> holds once the helper has completed, and stays; a wait that
  returns, or an event seen unset, tells the truth; and every exception raised into the joining thread uses up one of
  finitely many interruptions, which \<open>left\<close> counts.
\<close>

definition tame_helper :: "'w helper \<Rightarrow> ('w \<Rightarrow> bool) \<Rightarrow> ('w \<Rightarrow> nat) \<Rightarrow> bool" where
  "tame_helper h ended left \<longleftrightarrow>
     (\<forall>w. (ended w \<longrightarrow> fst (hp_is_set h w) \<noteq> Inr False)
        \<and> (fst (hp_wait h w) = Inr () \<longrightarrow> ended (snd (hp_wait h w)))
        \<and> left (snd (hp_is_set h w)) \<le> left w \<and> left (snd (hp_join h w)) \<le> left w
        \<and> left (snd (hp_wait h w)) \<le> left w \<and> left (snd (hp_cancel h w)) \<le> left w
        \<and> left (snd (hp_start h w)) \<le> left w
        \<and> (is_ok (fst (hp_is_set h w)) \<or> left (snd (hp_is_set h w)) < left w)
        \<and> (is_ok (fst (hp_join h w)) \<or> left (snd (hp_join h w)) < left w)
        \<and> (is_ok (fst (hp_wait h w)) \<or> left (snd (hp_wait h w)) < left w))"

definition work :: "('w \<Rightarrow> bool) \<Rightarrow> ('w \<Rightarrow> nat) \<Rightarrow> 'w \<Rightarrow> nat" where
  "work ended left w = 2 * left w + (if ended w then 0 else 1)"

text \<open>A round of a loop that neither leaves it nor was interrupted has made progress, and an interruption was spent.\<close>

definition advances :: "('w \<Rightarrow> bool) \<Rightarrow> ('w \<Rightarrow> nat) \<Rightarrow> ('w, bool) act \<Rightarrow> bool" where
  "advances ended left body \<longleftrightarrow>
     (\<forall>w w'. (body w = (w', Inr False) \<longrightarrow> work ended left w' < work ended left w)
           \<and> (\<forall>e. body w = (w', Inl e) \<longrightarrow> left w' < left w)
           \<and> (\<forall>b. body w = (w', Inr b) \<longrightarrow> left w' \<le> left w))"

lemma insist_terminates:
  assumes tame: "tame_helper h ended left" and body: "advances ended left body"
    and "work ended left w < fuel" "insist fuel h body interruption w = (w', Inr r)"
  shows "r \<noteq> None \<and> left w' \<le> left w"
  using assms(3,4)
proof (induction fuel arbitrary: w interruption)
  case (Suc fuel)
  obtain u x where b: "body w = (u, x)" by (cases "body w")
  show ?case
  proof (cases x)
    case (Inl e)
    obtain c v where c: "hp_cancel h u = (c, v)" by (cases "hp_cancel h u")
    have "left u < left w" using body b Inl by (auto simp: advances_def)
    moreover have "left (snd (hp_cancel h u)) \<le> left u" using tame by (simp add: tame_helper_def)
    ultimately have v: "work ended left v < fuel" "left v \<le> left w"
      using Suc.prems(1) c by (auto simp: work_def split: if_splits)
    then show ?thesis
      using Suc.IH [OF v(1)] Suc.prems(2) b Inl c by (cases c) (fastforce simp: andthen_def hp_def)+
  next
    case (Inr y)
    show ?thesis
    proof (cases y)
      case True
      then show ?thesis using Suc.prems(2) b Inr body by (auto simp: advances_def)
    next
      case False
      then have u: "work ended left u < fuel" "left u \<le> left w"
        using body b Inr Suc.prems(1) unfolding advances_def by fastforce+
      then show ?thesis using Suc.IH [OF u(1)] Suc.prems(2) b Inr False by fastforce
    qed
  qed
qed simp

lemma await_advances:
  assumes "tame_helper h ended left"
  shows "advances ended left (await_completion h)"
proof -
  have "(body = (w', Inr False) \<longrightarrow> work ended left w' < work ended left w) \<and> (\<forall>e. body = (w', Inl e) \<longrightarrow> left w' < left w)
      \<and> (\<forall>b. body = (w', Inr b) \<longrightarrow> left w' \<le> left w)"
    if "body = await_completion h w" for body w w'
  proof -
    obtain r1 w1 where 1: "hp_is_set h w = (r1, w1)" by (cases "hp_is_set h w")
    obtain r2 w2 where 2: "hp_join h w1 = (r2, w2)" by (cases "hp_join h w1")
    obtain r3 w3 where 3: "hp_is_set h w2 = (r3, w3)" by (cases "hp_is_set h w2")
    obtain r4 w4 where 4: "hp_wait h w3 = (r4, w4)" by (cases "hp_wait h w3")
    note t = assms [unfolded tame_helper_def, THEN spec]
    have le: "left w1 \<le> left w" "left w2 \<le> left w1" "left w3 \<le> left w2" "left w4 \<le> left w3"
      using t [of w] t [of w1] t [of w2] t [of w3] 1 2 3 4 by simp_all
    have lt: "is_ok r1 \<or> left w1 < left w" "is_ok r2 \<or> left w2 < left w1"
      "is_ok r3 \<or> left w3 < left w2" "is_ok r4 \<or> left w4 < left w3"
      using t [of w] t [of w1] t [of w2] t [of w3] 1 2 3 4 by simp_all
    have fin: "r1 = Inr False \<Longrightarrow> \<not> ended w" "r4 = Inr () \<Longrightarrow> ended w4"
      using t [of w] t [of w3] 1 4 by auto
    show ?thesis
      using that le lt fin
      by (cases r1; cases r2; cases r3; cases r4)
        (auto simp: await_completion_def andthen_def hp_def ret_def work_def 1 2 3 4 split: if_splits)
  qed
  then show ?thesis unfolding advances_def by blast
qed

lemma reap_advances:
  assumes "tame_helper h ended left"
  shows "advances ended left (reap h)"
proof -
  have "(\<forall>e. reap h w = (w', Inl e) \<longrightarrow> left w' < left w) \<and> (\<forall>b. reap h w = (w', Inr b) \<longrightarrow> b \<and> left w' \<le> left w)"
    for w w'
    using assms [unfolded tame_helper_def, THEN spec, of w]
    by (cases "hp_join h w"; cases "fst (hp_join h w)") (auto simp: reap_def andthen_def hp_def ret_def)
  then show ?thesis unfolding advances_def by blast
qed

lemma reap_joined:
  assumes "insist fuel h (reap h) i w = (w', Inr (Some r))"
  shows "\<exists>u v. hp_join h u = (Inr v, w')"
  using assms
proof (induction fuel arbitrary: i w)
  case (Suc fuel)
  obtain r u where j: "hp_join h w = (r, u)" by (cases "hp_join h w")
  show ?case
  proof (cases r)
    case (Inl e)
    obtain c v where "hp_cancel h u = (c, v)" by (cases "hp_cancel h u")
    then show ?thesis
      using Suc.IH [of _ v] Suc.prems j Inl by (cases c) (auto simp: reap_def andthen_def hp_def)
  next
    case (Inr x)
    then show ?thesis using Suc.prems j by (auto simp: reap_def andthen_def hp_def ret_def)
  qed
qed (simp add: ret_def)

text \<open>C16: joining the helper thread ends, however often the joining thread is interrupted (and no fuel beyond twice
  the number of interruptions is needed), and an object is returned only after a join of the thread has succeeded and only
  when the helper left that object.\<close>

theorem helper_thread_joined:
  assumes tame: "tame_helper h ended left" and fuel: "2 * left w + 1 < fuel"
  shows "\<exists>w' r. run_in_helper_thread fuel h w = (w', r) \<and> r \<noteq> Inr None
    \<and> (\<forall>d. r = Inr (Some d) \<longrightarrow> hp_outcome h w' = Inr (PDict d) \<and> (\<exists>u v. hp_join h u = (Inr v, w')))"
proof -
  obtain c w1 where start: "hp_start h w = (c, w1)" by (cases "hp_start h w")
  have l1: "left w1 \<le> left w" using tame [unfolded tame_helper_def, THEN spec, of w] start by simp
  obtain w2 r2 where await: "insist fuel h (await_completion h) None w1 = (w2, r2)"
    by (cases "insist fuel h (await_completion h) None w1")
  define w3 where "w3 i = fst (insist fuel h (reap h) i w2)" for i
  define r3 where "r3 i = snd (insist fuel h (reap h) i w2)" for i
  have reap: "insist fuel h (reap h) i w2 = (w3 i, r3 i)" for i by (simp add: w3_def r3_def)
  have "work ended left w1 < fuel" using l1 fuel by (simp add: work_def)
  then have a: "r2 = Inr i \<Longrightarrow> i \<noteq> None \<and> left w2 \<le> left w1" for i
    using insist_terminates [OF tame await_advances [OF tame]] await by blast
  have b: "r2 = Inr i \<Longrightarrow> r3 j = Inr k \<Longrightarrow> k \<noteq> None" for i j k
    using insist_terminates [OF tame reap_advances [OF tame], of w2 fuel j "w3 j" k] reap [of j] a [of i] l1 fuel
    by (simp add: work_def)
  have as_dict: "as_dict v = Some d \<longleftrightarrow> v = PDict d" for v d by (cases v) auto
  have out: "helper_result o' = Inr d \<Longrightarrow> o' = Inr (PDict d)" for o' d
    by (auto simp: helper_result_def ebind_eq_Inr as_dict split: option.split_asm)
  obtain w' r where run: "run_in_helper_thread fuel h w = (w', r)" by (cases "run_in_helper_thread fuel h w")
  show ?thesis
  proof (cases c)
    case (Inl e)
    then show ?thesis
      by (auto simp: run_in_helper_thread_def andthen_def catch_def raise_def hp_def start)
  next
    case (Inr x)
    show ?thesis
    proof (cases r2)
      case (Inl e)
      then show ?thesis using Inr by (auto simp: run_in_helper_thread_def andthen_def catch_def hp_def start await)
    next
      case (Inr i)
      then obtain i' where i: "i = Some i'" using a by auto
      show ?thesis
      proof (cases "r3 i'")
        case (Inl e)
        then show ?thesis
          using \<open>c = Inr x\<close> Inr i by (auto simp: run_in_helper_thread_def andthen_def catch_def hp_def start await reap)
      next
        case (Inr k)
        then obtain k' where k: "k = Some k'" using b [OF \<open>r2 = Inr i\<close>] by auto
        have "\<exists>u v. hp_join h u = (Inr v, w3 i')" using reap_joined reap [of i'] Inr k by metis
        then show ?thesis
          using \<open>c = Inr x\<close> \<open>r2 = Inr i\<close> Inr i k run out
          by (cases k'; cases "helper_result (hp_outcome h (w3 i'))")
            (auto simp: run_in_helper_thread_def andthen_def catch_def raise_def hp_def start await reap ebind_eq_Inr)
      qed
    qed
  qed
qed

text \<open>A helper that completes when it is waited for, and two interruptions of the thread that joins it.\<close>

definition sample_helper :: "(nat \<times> bool) helper" where
  "sample_helper =
     \<lparr>hp_is_set = (\<lambda>(n, b). (Inr b, (n, b))),
      hp_join = (\<lambda>(n, b). case n of Suc k \<Rightarrow> (Inl (PyExc ''KeyboardInterrupt'' []), (k, b)) | 0 \<Rightarrow> (Inr (), (n, b))),
      hp_wait = (\<lambda>(n, b). (Inr (), (n, True))), hp_cancel = (\<lambda>w. (Inr (), w)), hp_start = (\<lambda>w. (Inr (), w)),
      hp_abandon = (\<lambda>w. w), hp_outcome = (\<lambda>w. Inr (PDict [(''id'', PInt 1)]))\<rparr>"

lemma helper_thread_joined_witness:
  "(\<exists>w' r. run_in_helper_thread 6 sample_helper (2, False) = (w', r) \<and> r \<noteq> Inr None)
   \<and> run_in_helper_thread 2 sample_helper (0, False) = ((0, True), Inr (Some [(''id'', PInt 1)]))"
proof -
  have tame: "tame_helper sample_helper snd fst"
    by (auto simp: tame_helper_def sample_helper_def is_ok_def split: nat.split)
  have "\<exists>w' r. run_in_helper_thread 6 sample_helper (2, False) = (w', r) \<and> r \<noteq> Inr None"
    using helper_thread_joined [OF tame, of "(2, False)" 6] by auto
  moreover have "run_in_helper_thread 2 sample_helper (0, False) = ((0, True), Inr (Some [(''id'', PInt 1)]))"
    by (simp add: run_in_helper_thread_def sample_helper_def numeral_2_eq_2 andthen_def hp_def catch_def ret_def
        await_completion_def reap_def helper_result_def)
  ultimately show ?thesis by blast
qed

section \<open>A cancellation is not lost\<close>

fun bind_side :: "handoff_event \<Rightarrow> bool" where
  "bind_side BindLocked = True" | "bind_side BindSchedules = True"
| "bind_side RequestLocked = False" | "bind_side RequestSchedules = False"

definition handoff_run :: "handoff_event list \<Rightarrow> handoff" where
  "handoff_run es = fold handoff_step es new_handoff"

lemma handoff_snoc: "handoff_run (es @ [e]) = handoff_step e (handoff_run es)"
  by (simp add: handoff_run_def)

lemma handoff_reached:
  "(ho_bound (handoff_run es) \<longleftrightarrow> BindLocked \<in> set es) \<and> (ho_requested (handoff_run es) \<longleftrightarrow> RequestLocked \<in> set es)"
proof (induction es rule: rev_induct)
  case (snoc e es)
  then show ?case by (cases e) (auto simp: handoff_snoc)
qed (simp add: handoff_run_def new_handoff_def)

lemma handoff_owed:
  "BindLocked \<in> set es \<Longrightarrow> RequestLocked \<in> set es \<Longrightarrow>
   ho_bind_pending (handoff_run es) \<or> ho_request_pending (handoff_run es) \<or> 0 < ho_scheduled (handoff_run es)"
proof (induction es rule: rev_induct)
  case (snoc e es)
  then show ?case using handoff_reached [of es] by (cases e) (auto simp: handoff_snoc)
qed simp

lemma handoff_bind_settled:
  "filter bind_side es = [] \<or> last (filter bind_side es) = BindSchedules \<Longrightarrow> \<not> ho_bind_pending (handoff_run es)"
proof (induction es rule: rev_induct)
  case (snoc e es)
  then show ?case by (cases e) (auto simp: handoff_snoc)
qed (simp add: handoff_run_def new_handoff_def)

lemma handoff_request_settled:
  "filter (\<lambda>e. \<not> bind_side e) es = [] \<or> last (filter (\<lambda>e. \<not> bind_side e) es) = RequestSchedules
   \<Longrightarrow> \<not> ho_request_pending (handoff_run es)"
proof (induction es rule: rev_induct)
  case (snoc e es)
  then show ?case by (cases e) (auto simp: handoff_snoc)
qed (simp add: handoff_run_def new_handoff_def)

lemma handoff_scheduled_bound:
  "ho_scheduled (handoff_run es) \<le> length (filter (\<lambda>e. e = BindSchedules \<or> e = RequestSchedules) es)"
proof (induction es rule: rev_induct)
  case (snoc e es)
  then show ?case by (cases e) (auto simp: handoff_snoc)
qed (simp add: handoff_run_def new_handoff_def)

lemma length_filter_sides:
  "length (filter P es) = length (filter P (filter bind_side es)) + length (filter P (filter (\<lambda>e. \<not> bind_side e) es))"
  by (induction es) auto

text \<open>C18: in every interleaving of the helper binding its task with one or more requests for cancellation, the
  task's cancellation is scheduled at least once, and never more often than there are parties that could schedule it.\<close>

theorem cancellation_not_lost:
  assumes "filter bind_side es = [BindLocked, BindSchedules]"
    and "filter (\<lambda>e. \<not> bind_side e) es = concat (replicate (Suc n) [RequestLocked, RequestSchedules])"
  shows "1 \<le> ho_scheduled (handoff_run es) \<and> ho_scheduled (handoff_run es) \<le> n + 2"
proof -
  have "set (filter bind_side es) \<subseteq> set es" "set (filter (\<lambda>e. \<not> bind_side e) es) \<subseteq> set es" by auto
  then have "BindLocked \<in> set es" "RequestLocked \<in> set es" unfolding assms by auto
  moreover have "last (concat (replicate (Suc n) [RequestLocked, RequestSchedules])) = RequestSchedules"
    by (induction n) (auto simp: last_append)
  ultimately have "1 \<le> ho_scheduled (handoff_run es)"
    using handoff_owed [of es] handoff_bind_settled [of es] handoff_request_settled [of es] assms by simp
  moreover have "length (filter P (concat (replicate (Suc n) [RequestLocked, RequestSchedules]))) = Suc n"
    if "P = (\<lambda>e. e = BindSchedules \<or> e = RequestSchedules)" for P
    using that by (induction n) auto
  then have "length (filter (\<lambda>e. e = BindSchedules \<or> e = RequestSchedules) es) = n + 2"
    unfolding length_filter_sides [of _ es] assms by simp
  ultimately show ?thesis using handoff_scheduled_bound [of es] by simp
qed

lemma cancellation_not_lost_witness:
  "ho_scheduled (handoff_run [RequestLocked, BindLocked, RequestSchedules, BindSchedules]) = 1"
  using cancellation_not_lost [of "[RequestLocked, BindLocked, RequestSchedules, BindSchedules]" 0]
  by (simp add: handoff_run_def new_handoff_def)

end
