(* ===== verification/Server.thy ===== *)
theory Server
  imports Backend Run_Attested
begin

text \<open>
  \<open>rlm/server.py\<close>: the HTTP routes around one RLM.  FastAPI is the caller: a route maps the bytes of a request's body,
  as text or \<open>None\<close> when they cannot be decoded, to a reply, or raises an exception that no handler catches.
\<close>

section \<open>Replies\<close>

record reply =
  rp_status :: int
  rp_content :: py
  rp_headers :: "(string \<times> string) list"

text \<open>\<open>handle_rlm_error\<close>; another exception is left to the framework.\<close>

definition handle_error :: "exn + reply \<Rightarrow> exn + reply" where
  "handle_error r =
     (case r of
        Inr reply \<Rightarrow> Inr reply
      | Inl e \<Rightarrow>
          if is_rlm_error e
          then Inr \<lparr>rp_status = exn_status e, rp_content = PDict (to_body e), rp_headers = []\<rparr>
          else Inl e)"

section \<open>Routes\<close>

definition health :: "exn + reply" where
  "health = Inr \<lparr>rp_status = 200, rp_content = PDict [(''status'', PStr ''ok'')], rp_headers = []\<rparr>"

text \<open>The catalog of the public backend, when it has one.\<close>

definition models :: "('w \<Rightarrow> (exn + dict) \<times> 'w) option \<Rightarrow> 'w \<Rightarrow> (exn + reply) \<times> 'w" where
  "models catalog w =
     (case catalog of
        None \<Rightarrow> (handle_error (Inl (RLMErr ''configured public backend does not support model listing''
                  ''models_not_supported'' 501 ''server_error'' None None)), w)
      | Some catalog_of \<Rightarrow>
          (case catalog_of w of (r, w') \<Rightarrow>
             (handle_error (ebind r (\<lambda>d. Inr \<lparr>rp_status = 200, rp_content = PDict d, rp_headers = []\<rparr>)), w')))"

definition read_json_object :: "string option \<Rightarrow> exn + dict" where
  "read_json_object body =
     (case decode_content body of
        Inl e \<Rightarrow> Inl (InvalidRequest ''request body must be a valid JSON object'' ''invalid_json'' None)
      | Inr v \<Rightarrow>
          (case as_dict v of
             None \<Rightarrow> Inl (InvalidRequest (''request body must be a JSON object, got '' @ type_name v)
                      ''invalid_request'' (Some ''request''))
           | Some d \<Rightarrow> Inr d))"

definition run_headers :: "run_result \<Rightarrow> exn + (string \<times> string) list" where
  "run_headers result = ebind (from_result result) to_headers"

definition responses ::
  "(py \<Rightarrow> 'w \<Rightarrow> ('w, run_result) run_exit) \<Rightarrow> string option \<Rightarrow> 'w \<Rightarrow> exn + reply" where
  "responses run_request body w =
     handle_error (ebind (read_json_object body) (\<lambda>d.
       case run_request (PDict d) w of
         Refused e w' \<Rightarrow> Inl e
       | Ended st r \<Rightarrow>
           ebind r (\<lambda>result.
           ebind (run_headers result) (\<lambda>headers.
             Inr \<lparr>rp_status = 200, rp_content = PDict (rr_response result), rp_headers = headers\<rparr>))))"

text \<open>\<open>lifespan\<close>: the RLM is closed when the application shuts down, if it owns it.\<close>

definition shutdown_app :: "bool \<Rightarrow> ('w \<Rightarrow> 'w \<times> (exn + unit)) \<Rightarrow> 'w \<Rightarrow> 'w \<times> (exn + unit)" where
  "shutdown_app close_on_shutdown close w = (if close_on_shutdown then close w else (w, Inr ()))"

section \<open>A reply can be checked against the trace\<close>

text \<open>
  The reply of \<open>/v1/responses\<close>: an error of the program, in its public form; or the response of a run that returned,
  from whose headers, however they are delivered, \<open>from_headers\<close> reads an attestation of the trace the run wrote
  (durations being floats).
\<close>

definition trace_backs :: "('w run_state) \<Rightarrow> dict \<Rightarrow> run_attestation \<Rightarrow> bool" where
  "trace_backs st response a \<longleftrightarrow>
     (case st_sink st of
        NullTraceSink \<Rightarrow> True
      | Recorder rc \<Rightarrow>
          \<exists>d tx evs. dumps indented (PDict d) = Inr tx \<and> dget (rc_files rc) ''manifest.json'' = Some (tx @ [CHR 0x0A])
            \<and> recorded rc evs \<and> check_manifest d evs a = Inr ()
            \<and> (wf_py (PDict response) \<longrightarrow> check_terminal evs (PDict response) = Inr ()))"

definition error_reply :: "reply \<Rightarrow> bool" where
  "error_reply rp \<longleftrightarrow>
     (\<exists>e. is_rlm_error e \<and> rp = \<lparr>rp_status = exn_status e, rp_content = PDict (to_body e), rp_headers = []\<rparr>)"

definition verifiable_reply :: "('w, run_result) run_exit \<Rightarrow> reply \<Rightarrow> bool" where
  "verifiable_reply out rp \<longleftrightarrow>
     (case out of
        Ended st (Inr res) \<Rightarrow>
          rp_status rp = 200 \<and> rp_content rp = PDict (rr_response res)
          \<and> (\<forall>hs. rr_duration res < float_range \<longrightarrow> carries hs (rp_headers rp) \<longrightarrow>
               (\<exists>a. from_headers (Some (header_items hs)) = Inr a \<and> from_result res = Inr a
                  \<and> trace_backs st (rr_response res) a))
      | _ \<Rightarrow> False)"

lemma attests_backs:
  assumes "attests (Ended st (Inr res))" "from_result res = Inr a"
  shows "trace_backs st (rr_response res) a"
    "proper_identity (rr_identity res)"
  using assms by (auto simp: attests_def trace_backs_def split: trace_sink.splits)

lemma attested_headers:
  assumes attests: "attests (Ended st (Inr res))" and headers: "run_headers res = Inr sent"
    and float: "rr_duration res < float_range" and hs: "carries hs sent"
  shows "\<exists>a. from_headers (Some (header_items hs)) = Inr a \<and> from_result res = Inr a \<and> trace_backs st (rr_response res) a"
proof -
  obtain a where a: "from_result res = Inr a" "to_headers a = Inr sent"
    using headers by (auto simp: run_headers_def ebind_eq_Inr)
  note backs = attests_backs [OF attests a(1)]
  have valid: "mk_attestation a (PFloat (Fin (rr_duration res))) = Inr a" "at_identity a = rr_identity res"
    using a(1) by (auto simp: from_result_Inr mk_attestation_ok)
  have dur: "at_duration a < 2 ^ 1024 - 2 ^ 970"
    using a(1) float attests by (auto simp: from_result_Inr float_range_def attests_def)
  have "from_headers (Some (header_items hs)) = Inr a"
    by (rule headers_read_back [OF valid(1) _ dur a(2) hs]) (use backs(2) in \<open>simp add: valid(2) proper_identity_def\<close>)
  then show ?thesis using a(1) backs(1) by blast
qed

lemma handle_error_cases:
  "handle_error r = Inr rp \<Longrightarrow> r = Inr rp \<or> (\<exists>e. r = Inl e \<and> error_reply rp)"
  by (auto simp: handle_error_def error_reply_def split: sum.split_asm if_split_asm)



end
