(* ===== verification/Cli.thy ===== *)
theory Cli
  imports Backend Attestation Config
begin

text \<open>
  \<open>rlm/cli.py\<close>: what the command line makes of its arguments.  Splitting the command line is \<open>argparse\<close>'s: the
  model starts from the values it stores, and the texts it hands to the conversions.  \<open>uvicorn\<close> is the caller.
\<close>

section \<open>Conversions\<close>

text \<open>\<open>int\<close> of a string.\<close>

definition py_int :: "string \<Rightarrow> exn + int" where
  "py_int s =
     (let t = rev (dropWhile float_space (rev (dropWhile float_space s)));
          (neg, digits) = exp_sign (filter (\<lambda>c. c \<noteq> CHR ''_'') t)
      in if \<not> underscores_ok False t \<or> digits = [] \<or> \<not> list_all is_digit digits
         then Inl (value_error (''invalid literal for int() with base 10: '' @ py_repr s))
         else if int_max_str_digits < length digits
         then Inl (value_error ''Exceeds the limit (4300 digits) for integer string conversion'')
         else Inr (if neg then - read_pos digits else read_pos digits))"

definition argument_error :: "string \<Rightarrow> exn" where
  "argument_error m = PyExc ''ArgumentTypeError'' m"

definition positive_int_text :: "string \<Rightarrow> exn + int" where
  "positive_int_text s =
     ebind (py_int s) (\<lambda>parsed. if parsed < 1 then Inl (argument_error ''must be at least 1'') else Inr parsed)"

definition nonnegative_int_text :: "string \<Rightarrow> exn + int" where
  "nonnegative_int_text s =
     ebind (py_int s) (\<lambda>parsed. if parsed < 0 then Inl (argument_error ''cannot be negative'') else Inr parsed)"

definition positive_float_text :: "string \<Rightarrow> exn + rat" where
  "positive_float_text s =
     (case py_float s of
        Some (Fin r) \<Rightarrow> if r \<le> 0 then Inl (argument_error ''must be a positive finite number'') else Inr r
      | _ \<Rightarrow> Inl (argument_error ''must be a positive finite number''))"

section \<open>The arguments of \<open>serve\<close>\<close>

text \<open>The numbers are those the conversions above return; paths and the rest are text.\<close>

record serve_args =
  ar_upstream_base_url :: string
  ar_upstream_api_key :: "string option"
  ar_upstream_timeout :: rat
  ar_controller_model :: "string option"
  ar_controller_option :: "string list"
  ar_max_turns :: int
  ar_max_model_calls :: int
  ar_max_subcalls :: int
  ar_max_parallel_model_calls :: int
  ar_max_depth :: int
  ar_max_total_tokens :: "int option"
  ar_deadline_seconds :: rat
  ar_execution_timeout :: rat
  ar_max_execution_output_chars :: int
  ar_max_observation_chars :: int
  ar_working_directory :: "string option"
  ar_trace_dir :: "string option"
  ar_trace_markdown :: bool

text \<open>The defaults of \<open>build_parser\<close>.\<close>

definition default_args :: serve_args where
  "default_args =
     \<lparr>ar_upstream_base_url = ''https://api.openai.com/v1'', ar_upstream_api_key = None, ar_upstream_timeout = 300,
      ar_controller_model = None, ar_controller_option = [], ar_max_turns = 12, ar_max_model_calls = 64,
      ar_max_subcalls = 48, ar_max_parallel_model_calls = 8, ar_max_depth = 0, ar_max_total_tokens = None,
      ar_deadline_seconds = 600, ar_execution_timeout = 120, ar_max_execution_output_chars = 1000000,
      ar_max_observation_chars = 6000, ar_working_directory = None, ar_trace_dir = None, ar_trace_markdown = False\<rparr>"

text \<open>\<open>_parse_options\<close>: a later option replaces an earlier one of its name, in the earlier one's place.\<close>

definition parse_option :: "string \<Rightarrow> exn + string \<times> py" where
  "parse_option s =
     (let key = strip (takeWhile (\<lambda>c. c \<noteq> CHR ''='') s)
      in if CHR ''='' \<notin> set s \<or> key = []
         then Inl (value_error (''option must have the form KEY=VALUE: '' @ py_repr s))
         else case loads (drop 1 (dropWhile (\<lambda>c. c \<noteq> CHR ''='') s)) of
           Inl e \<Rightarrow> Inl (value_error (''option VALUE must be valid JSON: '' @ py_repr s))
         | Inr parsed \<Rightarrow> Inr (key, parsed))"

fun parse_options_from :: "dict \<Rightarrow> string list \<Rightarrow> exn + dict" where
  "parse_options_from options [] = Inr options"
| "parse_options_from options (s # ss) =
     ebind (parse_option s) (\<lambda>(key, parsed). parse_options_from (AList.update key parsed options) ss)"

definition parse_options :: "string list \<Rightarrow> exn + dict" where
  "parse_options ss = parse_options_from [] ss"

definition limits_arguments :: "serve_args \<Rightarrow> dict" where
  "limits_arguments a =
     [(''max_turns'', PInt (ar_max_turns a)), (''max_model_calls'', PInt (ar_max_model_calls a)),
      (''max_subcalls'', PInt (ar_max_subcalls a)),
      (''max_parallel_model_calls'', PInt (ar_max_parallel_model_calls a)), (''max_depth'', PInt (ar_max_depth a)),
      (''max_total_tokens'', case ar_max_total_tokens a of None \<Rightarrow> PNone | Some n \<Rightarrow> PInt n),
      (''deadline_seconds'', PFloat (Fin (ar_deadline_seconds a))),
      (''execution_timeout_seconds'', PFloat (Fin (ar_execution_timeout a))),
      (''max_execution_output_chars'', PInt (ar_max_execution_output_chars a)),
      (''max_observation_chars'', PInt (ar_max_observation_chars a))]"

text \<open>\<open>_build_model\<close>, up to the RLM around the endpoint; the key is the one of the environment.\<close>

definition build_model :: "string option \<Rightarrow> serve_args \<Rightarrow> exn + endpoint \<times> rlm_config" where
  "build_model environment_key a =
     ebind (parse_options (ar_controller_option a)) (\<lambda>controller_options.
     ebind (mk_controller_config (opt_str (ar_controller_model a)) (PDict controller_options)) (\<lambda>controller.
     ebind (mk_run_limits (limits_arguments a)) (\<lambda>limits.
     let config = \<lparr>cfg_harness = default_harness_spec, cfg_limits = limits, cfg_controller = controller,
           cfg_working_directory = ar_working_directory a,
           cfg_tracing = \<lparr>tc_enabled = ar_trace_dir a \<noteq> None,
             tc_directory = (case ar_trace_dir a of None \<Rightarrow> ''runs'' | Some d \<Rightarrow> d),
             tc_markdown = ar_trace_markdown a\<rparr>\<rparr>
     in ebind (new_endpoint (ar_upstream_base_url a) (ar_upstream_api_key a) environment_key
                 (PFloat (Fin (ar_upstream_timeout a))) []) (\<lambda>endpoint. Inr (endpoint, config)))))"

text \<open>
  \<open>main\<close>: a value the program refuses is a usage error, with status 2; \<open>StrictJSONError\<close> is a \<open>ValueError\<close>.
\<close>

datatype serve_exit = ServesApp endpoint rlm_config | UsageError string | ServeRaises exn

definition serve_main :: "string option \<Rightarrow> serve_args \<Rightarrow> serve_exit" where
  "serve_main environment_key a =
     (case build_model environment_key a of
        Inr (endpoint, config) \<Rightarrow> ServesApp endpoint config
      | Inl e \<Rightarrow> if exn_class e \<in> {''ValueError'', ''StrictJSONError''} then UsageError (exn_message e) else ServeRaises e)"

section \<open>What the command line builds\<close>

lemma parse_options_from_Inr:
  "parse_options_from options ss = Inr d \<longleftrightarrow> (\<exists>ps. map parse_option ss = map Inr ps \<and> d = dupdate options ps)"
proof (induction ss arbitrary: options d)
  case (Cons s ss)
  have step: "dupdate options (p # ps) = dupdate (AList.update (fst p) (snd p) options) ps" for p ps
    by (simp add: dupdate_def split_beta)
  show ?case
    by (cases "parse_option s") (auto simp: Cons step Cons_eq_map_conv)
qed (auto simp: dupdate_def)

text \<open>Of several options with one name the last counts, and no name comes twice.\<close>

theorem parse_options_exact:
  "parse_options ss = Inr d \<longleftrightarrow> (\<exists>ps. map parse_option ss = map Inr ps \<and> d = dupdate [] ps)"
  "parse_options ss = Inr d \<Longrightarrow>
     distinct (keys d) \<and> (\<exists>ps. map parse_option ss = map Inr ps \<and> (\<forall>k. dget d k = dget (rev ps) k))"
  by (auto simp: parse_options_def parse_options_from_Inr distinct_dupdate dupdate_latest split: option.split)

text \<open>What the conversions of the parser guarantee.\<close>

definition converted :: "serve_args \<Rightarrow> bool" where
  "converted a \<longleftrightarrow>
     1 \<le> ar_max_turns a \<and> 1 \<le> ar_max_model_calls a \<and> 0 \<le> ar_max_subcalls a \<and> 1 \<le> ar_max_parallel_model_calls a
     \<and> 0 \<le> ar_max_depth a \<and> (case ar_max_total_tokens a of None \<Rightarrow> True | Some n \<Rightarrow> 1 \<le> n)
     \<and> 0 < ar_deadline_seconds a \<and> 0 < ar_execution_timeout a \<and> 1 \<le> ar_max_execution_output_chars a
     \<and> 0 < ar_upstream_timeout a"

lemma conversions_exact:
  "positive_int_text s = Inr n \<longleftrightarrow> py_int s = Inr n \<and> 1 \<le> n"
  "nonnegative_int_text s = Inr n \<longleftrightarrow> py_int s = Inr n \<and> 0 \<le> n"
  "positive_float_text s = Inr r \<longleftrightarrow> py_float s = Some (Fin r) \<and> 0 < r"
proof -
  show "positive_int_text s = Inr n \<longleftrightarrow> py_int s = Inr n \<and> 1 \<le> n"
    by (cases "py_int s") (auto simp: positive_int_text_def)
  show "nonnegative_int_text s = Inr n \<longleftrightarrow> py_int s = Inr n \<and> 0 \<le> n"
    by (cases "py_int s") (auto simp: nonnegative_int_text_def)
  show "positive_float_text s = Inr r \<longleftrightarrow> py_float s = Some (Fin r) \<and> 0 < r"
  proof (cases "py_float s")
    case (Some f)
    then show ?thesis by (cases f) (auto simp: positive_float_text_def)
  qed (simp add: positive_float_text_def)
qed

text \<open>
  The limits the program runs with are those of the command line: of converted arguments only a limit on
  observations below the smallest one is refused.
\<close>

theorem served_limits:
  assumes "converted a"
  shows "if min_observation_chars \<le> ar_max_observation_chars a
     then mk_run_limits (limits_arguments a) =
       Inr \<lparr>max_turns = ar_max_turns a, max_model_calls = ar_max_model_calls a, max_subcalls = ar_max_subcalls a,
         max_parallel_model_calls = ar_max_parallel_model_calls a, max_depth = ar_max_depth a,
         max_total_tokens = ar_max_total_tokens a, deadline_seconds = PFloat (Fin (ar_deadline_seconds a)),
         execution_timeout_seconds = PFloat (Fin (ar_execution_timeout a)),
         max_execution_output_chars = ar_max_execution_output_chars a,
         max_observation_chars = ar_max_observation_chars a\<rparr>
     else \<exists>m. mk_run_limits (limits_arguments a) = Inl (value_error m)"
  using assms
  by (cases "ar_max_total_tokens a")
    (auto simp: converted_def mk_run_limits_def limits_arguments_def default_limits_def limit_arg_def positive_int_def
      positive_number_def min_observation_chars_def)

lemma served_limits_witness: "mk_run_limits (limits_arguments default_args) = mk_run_limits []"
proof -
  have "converted default_args" by (simp add: converted_def default_args_def)
  from served_limits [OF this] show ?thesis
    by (simp add: default_args_def min_observation_chars_def mk_run_limits_def default_limits_def limit_arg_def
        positive_int_def positive_number_def pget_def)
qed

end
