(* ===== verification/Spec2Isabelle.thy ===== *)
theory Spec2Isabelle
  imports Engine_Runs Engine_Results Engine_Trace Trace_Reader Executor_Pipe Run_Attested Server Cli
begin

text \<open>
  The RLM runtime (\<open>src/src/rlm\<close>), verified.

  RLM wraps a Responses endpoint in a loop: a controller model writes Python cells, a worker process runs them, and
  what they print comes back to the controller, until a cell submits the final response.  Cells can call the model,
  alone or in batches, and start child runs.  Limits bound the whole run, and a trace records every step.

  \<^bold>\<open>The parts, and the theories that model them.\<close>
  A definition has the name of the Python function or class it models, and its theory names the file.

  \<^item> Values.  \<open>Prelude\<close> holds the error monad (\<open>exn + 'a\<close>: an exception raised, or the value returned) and
    dictionaries as association lists in insertion order; \<open>Py_Str\<close> and \<open>Py_Value\<close> the strings and values of Python, with
    Python's equality and truth; \<open>Sha256\<close> computes \<open>hashlib.sha256\<close> on machine words.
  \<^item> \<open>json.py\<close>: \<open>Json\<close> has the compatibility check, the encoder in its styles and the decoder; \<open>Json_Roundtrip\<close> proves
    them inverse, and the decoder strict.
  \<^item> \<open>errors.py\<close> and \<open>types.py\<close>: \<open>Errors\<close> has every exception class as a constructor of \<open>exn\<close>, with its record and body;
    \<open>Types\<close> the results of cells, batches and runs with the checks of their constructors.
  \<^item> Contracts.  \<open>Abi\<close> (\<open>abi.py\<close>): host operations, their payloads, the registry of functions a cell may call.  \<open>Specs\<close>
    (\<open>specs.py\<close>): the content-addressed harness.  \<open>Prompts\<close> (\<open>prompts.py\<close>): the controller's prompt, in full.  \<open>Config\<close>
    (\<open>config.py\<close>): limits, controller options and the snapshot of a configuration.
  \<^item> Conversation.  \<open>Response\<close> (\<open>response.py\<close>) validates Responses objects; \<open>Protocol\<close> (\<open>protocol.py\<close>, \<open>recovery.py\<close>) keeps
    the controller's conversation and the grammar of its cells; \<open>Observation\<close> (\<open>observation.py\<close>) is the bounded
    observation of a cell.
  \<^item> Shared state of a run.  \<open>Ledger\<close> (\<open>ledger.py\<close>): budgets, deadline, usage and the slots for parallel calls.
    \<open>Trace\<close> (\<open>trace.py\<close>): payloads, the recorder and the null sink.  \<open>Trace_Reader\<close> (\<open>trace_reader.py\<close>): the strict
    reader of what a recorder wrote.
  \<^item> \<open>engine.py\<close>: \<open>Engine\<close> has every operation as an action on \<open>run_state\<close>, which holds the sink, the ledger, the local
    variables of \<open>run\<close> and the world.  \<open>Effects\<close> is the vocabulary of actions: weakest preconditions, and orders that
    actions keep.  The world outside is a record of functions (\<open>environment\<close>): clocks, fresh ids, backends, the
    outcomes of file operations, the code of a cell.  A cell is an interaction tree, whose nodes are the calls it makes
    to the host and whose leaves are its result.
  \<^item> \<open>executor.py\<close>: \<open>Ipc\<close> has the frames of the pipe and the capture of output; \<open>Worker\<close> the worker process, its
    functions and command loop; \<open>Executor\<close> the host that starts, serves and closes it, over a record \<open>process\<close> of
    operations that may fail.
  \<^item> Identity of a run.  \<open>Attestation\<close> (\<open>attestation.py\<close>): the attestation and its headers.  \<open>Run_Artifacts\<close>
    (\<open>run_artifacts.py\<close>): the agreement of a response, an attestation and a trace.
  \<^item> The edges.  \<open>Backend\<close> (\<open>backend.py\<close>): the request an endpoint sends, the reading of the answer, the helper thread.
    \<open>Server\<close> (\<open>server.py\<close>): the routes.  \<open>Cli\<close> (\<open>cli.py\<close>): the configuration a command line builds.

  \<^bold>\<open>What is proved.\<close>

  \<^item> Runs.  \<open>Engine_Trace\<close>: the file of every run refines a causal grammar of events, and every run closes its trace.
    \<open>Engine_Budget\<close>: no run calls the backends more often than its limit, over all branches and batches.
    \<open>Engine_Results\<close>: what a run returns was validated.  \<open>Engine_Runs\<close>: branches satisfy the recursion of the source and end;
    batches keep their order.  These hold in every environment (the statements on traces and attestations where a write
    that fails leaves no line: \<open>tidied\<close>).
  \<^item> The run, its attestation and its trace.  \<open>Run_Attested\<close>: the manifest and the events a returned run left agree with its
    attestation, as \<open>validate_run_artifacts\<close> compares them; \<open>Attestation\<close>: the attestation survives the headers; \<open>Server\<close>
    joins both: a client can check a reply of the server against the trace.
  \<^item> The worker.  \<open>Executor_Close\<close>: a cell that goes wrong closes the executor for good, no worker that can be killed
    survives, and a cell ends within its time.  \<open>Executor_Pipe\<close>: the two loops joined by frames do what a direct
    call of the handler does.  \<open>Ipc\<close>: the captures keep exactly the first characters written.
  \<^item> Shared state.  The ledger keeps its limits and leaks no slot in any interleaving of threads (\<open>Ledger\<close>); the
    recorder's file is a causal log at every moment (\<open>Trace\<close>), and the reader recovers its events (\<open>Trace_Reader\<close>).
  \<^item> Contracts.  Round trips of JSON, error records, harnesses, configurations and attestations; validators equal to
    declarative predicates (responses, payloads, bindings, cells); the observation fits its bound and accounts for every
    character; controller options replace no protocol field; the bootstrap shows no content of the request.
  \<^item> The endpoint (\<open>Backend\<close>) sends at most one request, with the smaller time-out; the thread it may need is joined, and
    a cancellation is not lost in any interleaving.

  \<^bold>\<open>Interfaces.\<close>
  The contracts between parts are locales, interpreted on the model: \<open>budget\<close> (the two budgets of the ledger),
  \<open>trace_sink_contract\<close> (both sinks), \<open>state_order\<close> (what actions keep) and its extensions \<open>run_order\<close>,
  \<open>branch_order\<close> and \<open>executor_order\<close>, \<open>metered_environment\<close> and \<open>tidy_environment\<close> (environments that count the calls
  of backends, or whose failed writes leave nothing).

  \<^bold>\<open>Bounds and fuel.\<close>
  The JSON decoder has fuel of twice the length of its text plus two, and is proved never to use it up.  Branches recurse on
  the depth left, which the depth limit bounds.  The loop that serves a cell takes fuel: on a clock that moves, more
  than the number of polls that fit the time limit is enough, and more fuel changes nothing.  The loops that join the
  helper thread take fuel: twice the number of interruptions plus two is enough.  The search for the longest prefix
  recurses on the width of its interval.  Integers are unbounded, as in Python; SHA-256 is on words of 32 bits.

  The digests of the default harness and its two prompts, computed by \<open>sha256\<close>, are those of
  \<open>src/tests/fixtures/harness-v1.json\<close>; \<open>Prompts\<close> checks the rendered texts against them as the program does.

  \<^bold>\<open>Not modelled, and why.\<close>

  \<^item> The operating system, IPython, the HTTP client, \<open>asyncio\<close>, FastAPI, \<open>argparse\<close> and the model backends are not in the
    repository: they are the records of functions, and hypotheses on them are in the statements.
  \<^item> Threads: the ledger and the cancellation handoff are proved over all interleavings of their atomic steps; the engine
    runs the children of a batch in the order of requests, one schedule of the pool.
  \<^item> The prelude's own calls to the host before the worker is ready, and what a cell does to the namespace besides the
    bound functions, belong to the code of the cell.
  \<^item> Text: strings have code points below 256, files are read as their decoded text, and bytes that cannot be
    decoded are \<open>None\<close> where the program tells them apart.
  \<^item> Floats are exact rationals with infinities and not-a-number: no rounding and no signed zero.  JSON integers have
    no limit on their digits, and the depth of JSON no limit of recursion; the limit of 4300 digits is kept
    where headers and arguments are read.
  \<^item> Deep copies are identities, since values are immutable here; paths are their text.
  \<^item> \<open>src/experiments\<close>, \<open>src/benchmarks\<close>, \<open>src/slides\<close> and \<open>src/scripts\<close>: research scripts, analyses and plots over
    external libraries, apart from the runtime.
\<close>

end
